(* ===== verification/Prelude.thy ===== *)
theory Prelude
  imports Main "HOL-Library.AList"
begin

text \<open>
  Shared vocabulary of the development: the rule collections the component theories
  fill, and the generic facts on sums, lists and association lists that the proofs
  about the patch operations share.  Nothing here is specific to the program.
\<close>

named_theorems patch_simps "characteristic equations of the patch operations"
named_theorems immutable_simps "equations of the modelled Immutable.js container operations"

subsection \<open>Results: the error component of a sum\<close>

text \<open>
  Sequencing of fallible calls whose second step may itself throw
  (\<open>map.set(k, anyPatch(...))\<close> on a record, whose \<open>set\<close> throws on an unknown key):
  the bind of the error sum.
\<close>

primrec sum_bind :: "'e + 'a \<Rightarrow> ('a \<Rightarrow> 'e + 'b) \<Rightarrow> 'e + 'b" where
  "sum_bind (Inl e) f = Inl e"
| "sum_bind (Inr a) f = f a"

text \<open>
  Fallible code returns \<open>error + 'a\<close>; a call whose result is stored into a container
  (\<open>map.set(k, anyPatch(...))\<close>) is \<open>map_sum id\<close> of the container update: an exception
  of the inner call propagates unchanged.
\<close>

lemma map_sum_id_Inr_iff [simp]:
  "map_sum id f r = Inr y \<longleftrightarrow> (\<exists>x. r = Inr x \<and> y = f x)"
  by (cases r) auto

lemma map_sum_id_Inl_iff [simp]:
  "map_sum id f r = Inl e \<longleftrightarrow> r = Inl e"
  by (cases r) auto

lemma isl_map_sum_id [simp]: "isl (map_sum id f r) = isl r"
  by (cases r) auto

lemma sum_bind_Inr_comp [simp]: "sum_bind r (\<lambda>a. Inr (f a)) = map_sum id f r"
  by (cases r) auto

lemma sum_bind_eq_Inr_iff [simp]:
  "sum_bind r f = Inr y \<longleftrightarrow> (\<exists>x. r = Inr x \<and> f x = Inr y)"
  by (cases r) auto

lemma sum_bind_eq_Inl_iff [simp]:
  "sum_bind r f = Inl e \<longleftrightarrow> r = Inl e \<or> (\<exists>x. r = Inr x \<and> f x = Inl e)"
  by (cases r) auto

lemma isl_sum_bind [simp]: "isl (sum_bind r f) = (isl r \<or> (\<exists>x. r = Inr x \<and> isl (f x)))"
  by (cases r) auto

subsection \<open>Lists\<close>

lemma take_append_replicate_same [simp]:
  "take (length xs) (xs @ ys) = xs"
  by simp

lemma nth_append_length_plus:
  "(xs @ ys) ! (length xs + i) = ys ! i"
  by simp

lemma list_update_append_length [simp]:
  "(xs @ y # ys)[length xs := z] = xs @ z # ys"
  by (simp add: list_update_append)

subsection \<open>Association lists\<close>

lemma map_of_update_same [simp]: "map_of (AList.update k v al) k = Some v"
  by (simp add: update_conv')

lemma map_of_update_other [simp]:
  "k' \<noteq> k \<Longrightarrow> map_of (AList.update k v al) k' = map_of al k'"
  by (simp add: update_conv')

lemma update_append_notin:
  "map_of al k = None \<Longrightarrow> AList.update k v al = al @ [(k, v)]"
  by (induction al) (auto split: if_splits)

lemma delete_append_notin:
  "map_of al k = None \<Longrightarrow> AList.delete k (al @ [(k, v)]) = al"
  by (induction al) (auto split: if_splits)

lemma set_update_subset:
  "set (AList.update k v al) \<subseteq> insert (k, v) (set al)"
  by (induction al) auto

end
