(* ===== verification/Immutable_Values.thy ===== *)
theory Immutable_Values
  imports Prelude
begin

text \<open>
  The value model of \<^verbatim>\<open>src/src/patch.js\<close> and the part of the Immutable.js (v3)
  collaborator it calls.  A value is a tagged union: \<open>undefined\<close>, \<open>null\<close>, a
  primitive leaf, an indexed \<open>Immutable.List\<close>, a keyed \<open>Immutable.Map\<close>, an
  \<open>Immutable.Record\<close> instance, or a plain JavaScript array or object (\<open>JArr\<close>,
  \<open>JObj\<close>, its own enumerable properties in enumeration order), as a patch value
  or a root may be.  A list is a HOL list whose holes (slots that
  \<open>set\<close> created past the end) read as \<open>Undefined\<close>; a map is an association list
  from string keys, in insertion order; a record is its type's name, its declared keys
  with their defaults, and the values set on it.  The container operations are the ones
  the patch code calls: \<open>List.get\<close>, \<open>List.set\<close>, \<open>List.push\<close>, \<open>List.setSize\<close> with
  Immutable's index wrapping, \<open>Map.get\<close>, \<open>Map.set\<close>, \<open>Map.remove\<close>, and the
  record's \<open>get\<close>, \<open>set\<close> (which throws on an undeclared key) and \<open>remove\<close>, reached
  through the keyed interface \<open>keyed_get\<close>/\<open>keyed_set\<close>/\<open>keyed_remove\<close>.  The
  library is not part of the repository; these definitions follow its v3 semantics.
  The theory also holds the error type, the invariant \<open>wf\<close>, the predicate
  \<open>record_free\<close>, and the lemmas that the operations keep both.
\<close>

datatype jsval =
    Undefined
  | Null
  | Bool bool
  | Num int
  | Str string
  | IList "jsval list"
  | IMap "(string \<times> jsval) list"
  | IRecord string "(string \<times> jsval) list" "(string \<times> jsval) list"
  | JArr "jsval list"
  | JObj "(string \<times> jsval) list"

text \<open>
  A list index as the patch code passes it: \<^verbatim>\<open>tryParseInt\<close> yields either a number
  or the original string.
\<close>

datatype token = TInt int | TStr string

text \<open>
  What a call can throw: the \<^verbatim>\<open>Error\<close> of an unknown operation (patch code), the
  \<^verbatim>\<open>Error\<close> of \<^verbatim>\<open>Record.set\<close> on an undeclared key (Immutable.js), and the
  \<^verbatim>\<open>TypeError\<close> of a method called on a value that does not have it.
\<close>

datatype error =
    UnknownOp string    \<comment> \<open>\<^verbatim>\<open>throw new Error('... patch Error, unknown op: ' + op)\<close>\<close>
  | UnknownKey string   \<comment> \<open>\<^verbatim>\<open>throw new Error('Cannot set unknown key ...')\<close>\<close>
  | TypeError string    \<comment> \<open>a method called on a value that does not have it\<close>

subsection \<open>The value classifier\<close>

text \<open>
  The dispatch tests of \<^verbatim>\<open>anyPatch\<close>: \<^verbatim>\<open>Immutable.Iterable.isIndexed\<close>, then
  \<^verbatim>\<open>Immutable.Iterable.isKeyed\<close> or \<^verbatim>\<open>isRecord\<close> (a non-null value with
  \<^verbatim>\<open>updateIn\<close> and \<^verbatim>\<open>set\<close> methods), else a primitive.  Of the modelled values
  only an \<open>Immutable.List\<close> is indexed; an \<open>Immutable.Map\<close> is keyed and an
  \<open>Immutable.Record\<close> instance has both methods, so both go to \<^verbatim>\<open>mapPatch\<close>; no
  primitive, \<open>null\<close> or \<open>undefined\<close> has the two methods.
\<close>

datatype kind = Indexed | Keyed | Primitive

definition classify :: "jsval \<Rightarrow> kind" where
  "classify v =
     (case v of IList _ \<Rightarrow> Indexed | IMap _ \<Rightarrow> Keyed | IRecord _ _ _ \<Rightarrow> Keyed
      | _ \<Rightarrow> Primitive)"

subsection \<open>Immutable.List\<close>

text \<open>
  \<^verbatim>\<open>wrapIndex\<close>: a string index that is not a canonical number is \<open>NaN\<close> (\<open>None\<close>);
  a negative number counts from the end of the list.
\<close>

definition wrapIndex :: "nat \<Rightarrow> token \<Rightarrow> int option" where
  "wrapIndex n idx =
     (case idx of
        TStr _ \<Rightarrow> None
      | TInt i \<Rightarrow> Some (if i < 0 then int n + i else i))"

definition list_get :: "jsval list \<Rightarrow> token \<Rightarrow> jsval" where
  "list_get xs idx =
     (case wrapIndex (length xs) idx of
        None \<Rightarrow> Undefined
      | Some i \<Rightarrow> (if 0 \<le> i \<and> i < int (length xs) then xs ! nat i else Undefined))"

text \<open>
  \<^verbatim>\<open>List.set\<close> (\<^verbatim>\<open>updateList\<close>): a \<open>NaN\<close> index leaves the list unchanged; an index
  past the end grows the list with holes up to it; an index still negative after
  wrapping prepends holes (\<^verbatim>\<open>setListBounds(list, index).set(0, value)\<close>).
\<close>

definition list_set :: "jsval list \<Rightarrow> token \<Rightarrow> jsval \<Rightarrow> jsval list" where
  "list_set xs idx v =
     (case wrapIndex (length xs) idx of
        None \<Rightarrow> xs
      | Some i \<Rightarrow>
          (if i < 0 then v # replicate (nat (- i) - 1) Undefined @ xs
           else if i < int (length xs) then xs[nat i := v]
           else xs @ replicate (nat i - length xs) Undefined @ [v]))"

definition list_push :: "jsval list \<Rightarrow> jsval \<Rightarrow> jsval list" where
  "list_push xs v = xs @ [v]"

text \<open>
  \<^verbatim>\<open>List.setSize(n)\<close> is \<^verbatim>\<open>setListBounds(list, 0, n)\<close>: a negative end counts from
  the end of the list (and an empty result clears it); a larger size pads with holes.
\<close>

definition list_setSize :: "jsval list \<Rightarrow> int \<Rightarrow> jsval list" where
  "list_setSize xs n =
     (if n < 0 then take (nat (int (length xs) + n)) xs
      else take (nat n) xs @ replicate (nat n - length xs) Undefined)"

subsection \<open>Immutable.Map\<close>

definition map_get :: "(string \<times> jsval) list \<Rightarrow> string \<Rightarrow> jsval" where
  "map_get m k = (case map_of m k of None \<Rightarrow> Undefined | Some v \<Rightarrow> v)"

definition map_set :: "(string \<times> jsval) list \<Rightarrow> string \<Rightarrow> jsval \<Rightarrow> (string \<times> jsval) list" where
  "map_set m k v = AList.update k v m"

definition map_remove :: "(string \<times> jsval) list \<Rightarrow> string \<Rightarrow> (string \<times> jsval) list" where
  "map_remove m k = AList.delete k m"

subsection \<open>Immutable.Record\<close>

text \<open>
  A record instance \<open>IRecord name defaults values\<close>: the name of its record type
  (\<^verbatim>\<open>recordName\<close>), the declared keys with their default values (the object given
  to \<^verbatim>\<open>Immutable.Record(...)\<close>, \<^verbatim>\<open>_defaultValues\<close>), and the values set on the
  instance (its \<^verbatim>\<open>_map\<close>).  \<^verbatim>\<open>has(k)\<close> asks whether \<open>k\<close> is declared;
  \<^verbatim>\<open>get(k)\<close> is \<open>undefined\<close> on an undeclared key and otherwise the set value or
  the default; \<^verbatim>\<open>set(k, v)\<close> throws on an undeclared key, returns the record itself
  when \<open>k\<close> is unset and \<open>v\<close> is its default (\<^verbatim>\<open>v === defaultVal\<close>, read as equality
  of values), and sets \<open>k\<close> in \<^verbatim>\<open>_map\<close> otherwise; \<^verbatim>\<open>remove(k)\<close> returns the record
  itself on an undeclared key and otherwise deletes \<open>k\<close> from \<^verbatim>\<open>_map\<close>, so that it
  reads as its default again.
\<close>

definition record_has :: "(string \<times> jsval) list \<Rightarrow> string \<Rightarrow> bool" where
  "record_has d k \<longleftrightarrow> k \<in> set (map fst d)"

definition record_get :: "(string \<times> jsval) list \<Rightarrow> (string \<times> jsval) list \<Rightarrow> string \<Rightarrow> jsval" where
  "record_get d m k =
     (if \<not> record_has d k then Undefined
      else (case map_of m k of Some v \<Rightarrow> v | None \<Rightarrow> map_get d k))"

definition record_set ::
  "string \<Rightarrow> (string \<times> jsval) list \<Rightarrow> (string \<times> jsval) list \<Rightarrow> string \<Rightarrow> jsval \<Rightarrow> error + jsval"
where
  "record_set n d m k v =
     (if \<not> record_has d k
      then Inl (UnknownKey (''Cannot set unknown key '' @ [CHR 0x22] @ k @ [CHR 0x22] @ '' on '' @ n))
      else if map_of m k = None \<and> v = map_get d k then Inr (IRecord n d m)
      else Inr (IRecord n d (map_set m k v)))"

definition record_remove ::
  "string \<Rightarrow> (string \<times> jsval) list \<Rightarrow> (string \<times> jsval) list \<Rightarrow> string \<Rightarrow> jsval"
where
  "record_remove n d m k =
     (if \<not> record_has d k then IRecord n d m else IRecord n d (map_remove m k))"

subsection \<open>The keyed interface \<^verbatim>\<open>mapPatch\<close> calls\<close>

text \<open>
  \<^verbatim>\<open>mapPatch\<close> calls \<^verbatim>\<open>get\<close>, \<^verbatim>\<open>set\<close> and \<^verbatim>\<open>remove\<close> on whatever keyed value it
  was given, a map or a record; these dispatch on the receiver as JavaScript method
  calls do.  Any other receiver does not have the methods (\<^verbatim>\<open>anyPatch\<close> never passes
  one): \<^verbatim>\<open>get\<close> reads as \<open>undefined\<close> and the two updates are a \<^verbatim>\<open>TypeError\<close>.
\<close>

fun keyed_get :: "jsval \<Rightarrow> string \<Rightarrow> jsval" where
  "keyed_get (IMap m) k = map_get m k"
| "keyed_get (IRecord n d m) k = record_get d m k"
| "keyed_get v k = Undefined"

fun keyed_set :: "jsval \<Rightarrow> string \<Rightarrow> jsval \<Rightarrow> error + jsval" where
  "keyed_set (IMap m) k v = Inr (IMap (map_set m k v))"
| "keyed_set (IRecord n d m) k v = record_set n d m k v"
| "keyed_set w k v = Inl (TypeError ''map.set is not a function'')"

fun keyed_remove :: "jsval \<Rightarrow> string \<Rightarrow> error + jsval" where
  "keyed_remove (IMap m) k = Inr (IMap (map_remove m k))"
| "keyed_remove (IRecord n d m) k = Inr (record_remove n d m k)"
| "keyed_remove w k = Inl (TypeError ''map.remove is not a function'')"

subsection \<open>Well-formed values\<close>

text \<open>
  Every map of the tree has distinct keys, as an \<^verbatim>\<open>Immutable.Map\<close> does, and so
  has every record's declaration and \<^verbatim>\<open>_map\<close>, and every plain object.
\<close>

fun wf :: "jsval \<Rightarrow> bool" where
  "wf (IList xs) = list_all wf xs"
| "wf (IMap m) = (distinct (map fst m) \<and> list_all (\<lambda>kv. wf (snd kv)) m)"
| "wf (IRecord n d m) =
     (distinct (map fst d) \<and> list_all (\<lambda>kv. wf (snd kv)) d \<and>
      distinct (map fst m) \<and> list_all (\<lambda>kv. wf (snd kv)) m)"
| "wf (JArr xs) = list_all wf xs"
| "wf (JObj kvs) = (distinct (map fst kvs) \<and> list_all (\<lambda>kv. wf (snd kv)) kvs)"
| "wf _ = True"

text \<open>
  A value without records anywhere in it, plain arrays and objects included: on such a
  tree \<^verbatim>\<open>set\<close> never throws, and \<^verbatim>\<open>Immutable.fromJS\<close> of it has no record either.
\<close>

fun record_free :: "jsval \<Rightarrow> bool" where
  "record_free (IList xs) = list_all record_free xs"
| "record_free (IMap m) = list_all (\<lambda>kv. record_free (snd kv)) m"
| "record_free (IRecord n d m) = False"
| "record_free (JArr xs) = list_all record_free xs"
| "record_free (JObj kvs) = list_all (\<lambda>kv. record_free (snd kv)) kvs"
| "record_free _ = True"

subsection \<open>Characteristic equations\<close>

lemma classify_simps [simp]:
  "classify (IList xs) = Indexed" "classify (IMap m) = Keyed" "classify (IRecord s d r) = Keyed"
  "classify (JArr ys) = Primitive" "classify (JObj kvs) = Primitive"
  "classify Undefined = Primitive" "classify Null = Primitive" "classify (Bool b) = Primitive"
  "classify (Num n) = Primitive" "classify (Str s) = Primitive"
  by (simp_all add: classify_def)

lemma wrapIndex_TInt_nonneg [immutable_simps]:
  "0 \<le> i \<Longrightarrow> wrapIndex n (TInt i) = Some i"
  by (simp add: wrapIndex_def)

lemma list_get_TStr [simp]: "list_get xs (TStr s) = Undefined"
  by (simp add: list_get_def wrapIndex_def)

lemma list_set_TStr [simp]: "list_set xs (TStr s) v = xs"
  by (simp add: list_set_def wrapIndex_def)

lemma list_get_nat [immutable_simps]:
  "i < length xs \<Longrightarrow> list_get xs (TInt (int i)) = xs ! i"
  by (simp add: list_get_def wrapIndex_def)

lemma list_get_beyond [immutable_simps]:
  "length xs \<le> i \<Longrightarrow> list_get xs (TInt (int i)) = Undefined"
  by (simp add: list_get_def wrapIndex_def)

lemma list_set_nat [immutable_simps]:
  "i < length xs \<Longrightarrow> list_set xs (TInt (int i)) v = xs[i := v]"
  by (simp add: list_set_def wrapIndex_def)

lemma list_set_beyond [immutable_simps]:
  "length xs \<le> i \<Longrightarrow>
   list_set xs (TInt (int i)) v = xs @ replicate (i - length xs) Undefined @ [v]"
  by (simp add: list_set_def wrapIndex_def)

lemma length_list_set_in_range:
  "i < length xs \<Longrightarrow> length (list_set xs (TInt (int i)) v) = length xs"
  by (simp add: list_set_nat)

lemma list_setSize_pred [immutable_simps]:
  "list_setSize xs (int (length xs) - 1) = take (length xs - 1) xs"
  by (cases xs) (auto simp: list_setSize_def)

lemma length_list_setSize_nonneg: "0 \<le> n \<Longrightarrow> length (list_setSize xs n) = nat n"
  by (simp add: list_setSize_def)

lemma map_get_Some [immutable_simps]: "map_of m k = Some v \<Longrightarrow> map_get m k = v"
  by (simp add: map_get_def)

lemma map_get_None [immutable_simps]: "map_of m k = None \<Longrightarrow> map_get m k = Undefined"
  by (simp add: map_get_def)

lemma map_of_map_set [immutable_simps]: "map_of (map_set m k v) = (map_of m)(k \<mapsto> v)"
  by (simp add: map_set_def update_conv')

lemma map_of_map_remove [immutable_simps]: "map_of (map_remove m k) = (map_of m)(k := None)"
  by (simp add: map_remove_def delete_conv')

subsection \<open>Invariant lemmas\<close>

text \<open>
  The container operations keep a property of the elements that holds of the new
  value and of the holes they create.
\<close>

lemma all_list_set:
  "list_all P xs \<Longrightarrow> P v \<Longrightarrow> P Undefined \<Longrightarrow> list_all P (list_set xs idx v)"
  by (auto simp: list_set_def list_all_iff split: option.splits
           dest!: set_update_subset_insert [THEN subsetD])

lemma pred_list_get: "list_all P xs \<Longrightarrow> P Undefined \<Longrightarrow> P (list_get xs idx)"
  by (auto simp: list_get_def list_all_iff split: option.splits)

lemma all_list_push: "list_all P xs \<Longrightarrow> P v \<Longrightarrow> list_all P (list_push xs v)"
  by (simp add: list_push_def)

lemma all_list_setSize: "list_all P xs \<Longrightarrow> P Undefined \<Longrightarrow> list_all P (list_setSize xs n)"
  by (auto simp: list_setSize_def list_all_iff dest: in_set_takeD)

lemma all_map_set:
  "list_all (\<lambda>kv. P (snd kv)) m \<Longrightarrow> P v \<Longrightarrow> list_all (\<lambda>kv. P (snd kv)) (map_set m k v)"
  by (auto simp: map_set_def list_all_iff dest!: set_update_subset [THEN subsetD])

lemma all_map_remove:
  "list_all (\<lambda>kv. P (snd kv)) m \<Longrightarrow> list_all (\<lambda>kv. P (snd kv)) (map_remove m k)"
  by (auto simp: map_remove_def list_all_iff AList.delete_eq)

lemma pred_map_get: "list_all (\<lambda>kv. P (snd kv)) m \<Longrightarrow> P Undefined \<Longrightarrow> P (map_get m k)"
  by (auto simp: map_get_def list_all_iff split: option.splits dest!: map_of_SomeD)

lemma wf_list_set: "list_all wf xs \<Longrightarrow> wf v \<Longrightarrow> list_all wf (list_set xs idx v)"
  by (simp add: all_list_set)

lemma wf_list_get: "list_all wf xs \<Longrightarrow> wf (list_get xs idx)"
  by (simp add: pred_list_get)

lemma wf_list_push: "list_all wf xs \<Longrightarrow> wf v \<Longrightarrow> list_all wf (list_push xs v)"
  by (simp add: all_list_push)

lemma wf_list_setSize: "list_all wf xs \<Longrightarrow> list_all wf (list_setSize xs n)"
  by (simp add: all_list_setSize)

lemma wf_alist_map_set:
  "distinct (map fst m) \<and> list_all (\<lambda>kv. wf (snd kv)) m \<Longrightarrow> wf v \<Longrightarrow>
   distinct (map fst (map_set m k v)) \<and> list_all (\<lambda>kv. wf (snd kv)) (map_set m k v)"
  by (simp add: map_set_def distinct_update all_map_set [unfolded map_set_def])

lemma wf_alist_map_remove:
  "distinct (map fst m) \<and> list_all (\<lambda>kv. wf (snd kv)) m \<Longrightarrow>
   distinct (map fst (map_remove m k)) \<and> list_all (\<lambda>kv. wf (snd kv)) (map_remove m k)"
  using distinct_delete [of m k] by (simp add: map_remove_def all_map_remove [unfolded map_remove_def])

lemma wf_map_set: "wf (IMap m) \<Longrightarrow> wf v \<Longrightarrow> wf (IMap (map_set m k v))"
  using wf_alist_map_set by simp

lemma wf_map_remove: "wf (IMap m) \<Longrightarrow> wf (IMap (map_remove m k))"
  using wf_alist_map_remove by simp

lemma wf_map_get: "wf (IMap m) \<Longrightarrow> wf (map_get m k)"
  by (simp add: pred_map_get)

lemmas wf_container_ops =
  wf_list_set wf_list_get wf_list_push wf_list_setSize wf_map_set wf_map_remove wf_map_get

lemma pred_keyed_get:
  "P Undefined \<Longrightarrow> list_all (\<lambda>kv. P (snd kv)) d \<Longrightarrow> list_all (\<lambda>kv. P (snd kv)) m \<Longrightarrow>
   P (record_get d m k)"
  by (auto simp: record_get_def pred_map_get list_all_iff split: option.splits dest!: map_of_SomeD)

lemma wf_keyed_get: "wf v \<Longrightarrow> wf (keyed_get v k)"
  by (cases v) (simp_all add: wf_map_get pred_keyed_get)

lemma wf_keyed_set: "wf v \<Longrightarrow> wf x \<Longrightarrow> keyed_set v k x = Inr r \<Longrightarrow> wf r"
  by (cases v) (auto simp: wf_map_set wf_alist_map_set record_set_def simp del: wf.simps(2)
                      split: if_splits)

lemma wf_keyed_remove: "wf v \<Longrightarrow> keyed_remove v k = Inr r \<Longrightarrow> wf r"
  by (cases v) (auto simp: wf_map_remove wf_alist_map_remove record_remove_def
                      simp del: wf.simps(2))

lemmas wf_keyed_ops = wf_keyed_get wf_keyed_set wf_keyed_remove

lemma record_free_keyed_get: "record_free v \<Longrightarrow> record_free (keyed_get v k)"
  by (cases v) (simp_all add: pred_map_get)

lemma record_free_keyed_set:
  "record_free v \<Longrightarrow> record_free x \<Longrightarrow> keyed_set v k x = Inr r \<Longrightarrow> record_free r"
  by (cases v) (auto simp: all_map_set)

lemma record_free_keyed_remove: "record_free v \<Longrightarrow> keyed_remove v k = Inr r \<Longrightarrow> record_free r"
  by (cases v) (auto simp: all_map_remove)

lemma keyed_set_record_free_no_error:
  "record_free v \<Longrightarrow> classify v = Keyed \<Longrightarrow> \<not> isl (keyed_set v k x)"
  by (cases v) simp_all

lemma keyed_set_error:
  "classify v = Keyed \<Longrightarrow> keyed_set v k x = Inl e \<Longrightarrow> \<exists>msg. e = UnknownKey msg"
  by (cases v) (auto simp: record_set_def split: if_splits)

lemma keyed_remove_Inl: "keyed_remove v k = Inl e \<Longrightarrow> classify v \<noteq> Keyed"
  by (cases v) simp_all

lemma keyed_remove_no_error: "classify v = Keyed \<Longrightarrow> \<not> isl (keyed_remove v k)"
  by (cases v) simp_all

subsection \<open>The keyed interface on maps and records\<close>

lemma sum_bind_keyed_set_IMap [simp]:
  "sum_bind r (keyed_set (IMap m) k) = map_sum id (\<lambda>c. IMap (map_set m k c)) r"
  by (cases r) simp_all

lemma keyed_set_IRecord_fun [simp]: "keyed_set (IRecord n d m) k = record_set n d m k"
  by (rule ext) simp

lemma keyed_get_set_same:
  "keyed_set v k x = Inr r \<Longrightarrow> keyed_get r k = x"
  by (cases v) (auto simp: record_set_def record_get_def map_get_def map_of_map_set
                     split: if_splits)

lemma keyed_get_set_other:
  "keyed_set v k x = Inr r \<Longrightarrow> k' \<noteq> k \<Longrightarrow> keyed_get r k' = keyed_get v k'"
  by (cases v) (auto simp: record_set_def record_get_def map_get_def map_of_map_set
                     split: if_splits)

lemma record_set_shape: "record_set n d m k x = Inr r \<Longrightarrow> \<exists>m'. r = IRecord n d m'"
  by (auto simp: record_set_def split: if_splits)

lemma record_remove_shape: "\<exists>m'. record_remove n d m k = IRecord n d m'"
  by (simp add: record_remove_def)

lemma classify_record_remove [simp]: "classify (record_remove n d m k) = Keyed"
  using record_remove_shape [of n d m k] by auto

lemma keyed_set_Keyed:
  "keyed_set v k x = Inr r \<Longrightarrow> classify r = Keyed"
  by (cases v) (auto simp: record_set_def split: if_splits)

lemma keyed_remove_Keyed:
  "keyed_remove v k = Inr r \<Longrightarrow> classify r = Keyed"
  by (cases v) (auto simp: record_remove_def)

lemma record_set_declared:
  "record_has d k \<Longrightarrow> \<exists>m'. record_set n d m k x = Inr (IRecord n d m')"
  by (auto simp: record_set_def)

lemma record_get_remove_same:
  "record_has d k \<Longrightarrow> record_get d (map_remove m k) k = map_get d k"
  by (simp add: record_get_def map_of_map_remove)


end
