(* ===== verification/Path_Tokens.thy ===== *)
theory Path_Tokens
  imports Immutable_Values Complex_Main
begin

text \<open>
  Path segments are strings.  \<^verbatim>\<open>sequencePatch\<close> turns a segment into a list index
  with \<^verbatim>\<open>tryParseInt\<close> (lines 5--8 of \<^verbatim>\<open>src/src/patch.js\<close>), which calls the
  JavaScript built-in \<^verbatim>\<open>parseInt\<close> without a radix; the auto-vivification of
  \<^verbatim>\<open>mapPatch\<close> and \<^verbatim>\<open>sequencePatch\<close> instead tests the next segment against
  the regular expression \<^verbatim>\<open>/^\d+$/\<close>.  This theory models both, the decimal
  printing of an index, and the conversion \<open>ToNumber\<close> that the removal loop applies
  to a segment \<^verbatim>\<open>parseInt\<close> rejects, and proves that the two readings agree on
  printed indices.
\<close>

subsection \<open>The JavaScript \<^verbatim>\<open>parseInt\<close> without radix\<close>

text \<open>
  ECMAScript \<^verbatim>\<open>parseInt(string, undefined)\<close>: strip leading white space, read an
  optional sign, read a \<^verbatim>\<open>0x\<close>/\<^verbatim>\<open>0X\<close> prefix as radix 16 (radix 10 otherwise),
  then the longest prefix of digits of that radix; no digit at all is \<open>NaN\<close>
  (\<open>None\<close>).  White space is the ASCII part of the language's white space and line
  terminators (tab, line feed, vertical tab, form feed, carriage return, space).
\<close>

definition js_whitespace :: "char \<Rightarrow> bool" where
  "js_whitespace c \<longleftrightarrow> of_char c \<in> {9, 10, 11, 12, 13, 32 :: nat}"

definition digit_value :: "char \<Rightarrow> nat" where
  "digit_value c =
     (let n = of_char c :: nat in
      if 48 \<le> n \<and> n \<le> 57 then n - 48
      else if 97 \<le> n \<and> n \<le> 122 then n - 87
      else if 65 \<le> n \<and> n \<le> 90 then n - 55
      else 36)"

definition is_radix_digit :: "nat \<Rightarrow> char \<Rightarrow> bool" where
  "is_radix_digit R c \<longleftrightarrow> digit_value c < R"

definition digits_value :: "nat \<Rightarrow> string \<Rightarrow> nat" where
  "digits_value R ds = foldl (\<lambda>acc c. acc * R + digit_value c) 0 ds"

definition parseInt :: "string \<Rightarrow> int option" where
  "parseInt str =
     (let s0 = dropWhile js_whitespace str;
          sign = (if take 1 s0 = ''-'' then -1 else 1 :: int);
          s1 = (if take 1 s0 = ''-'' \<or> take 1 s0 = ''+'' then drop 1 s0 else s0);
          hex = (take 2 s1 = ''0x'' \<or> take 2 s1 = ''0X'');
          R = (if hex then 16 else 10 :: nat);
          s2 = (if hex then drop 2 s1 else s1);
          z = takeWhile (is_radix_digit R) s2
      in if z = [] then None else Some (sign * int (digits_value R z)))"

text \<open>
  \<^verbatim>\<open>tryParseInt\<close>: \<^verbatim>\<open>var int = parseInt(n); return isNaN(int) ? n : int;\<close>
\<close>

definition tryParseInt :: "string \<Rightarrow> token" where
  "tryParseInt n = (case parseInt n of None \<Rightarrow> TStr n | Some i \<Rightarrow> TInt i)"

subsection \<open>The auto-vivification test \<^verbatim>\<open>/^\d+$/\<close>\<close>

definition is_ascii_digit :: "char \<Rightarrow> bool" where
  "is_ascii_digit c \<longleftrightarrow> 48 \<le> (of_char c :: nat) \<and> (of_char c :: nat) \<le> 57"

definition is_index_segment :: "string \<Rightarrow> bool" where
  "is_index_segment s \<longleftrightarrow> s \<noteq> [] \<and> list_all is_ascii_digit s"

subsection \<open>Decimal printing of an index\<close>

text \<open>\<^verbatim>\<open>String(n)\<close> for a natural number: how a client writes a list index into a path.\<close>

fun decimal :: "nat \<Rightarrow> string" where
  "decimal n =
     (if n < 10 then [char_of (48 + n)]
      else decimal (n div 10) @ [char_of (48 + n mod 10)])"

declare decimal.simps [simp del]

subsection \<open>Numeric conversion of a segment\<close>

text \<open>
  A segment that \<^verbatim>\<open>tryParseInt\<close> keeps as a string still meets the numeric
  operators of \<^verbatim>\<open>sequencePatch\<close>: the removal loop compares it with
  \<^verbatim>\<open>i < size - 1\<close> and increments it with \<^verbatim>\<open>++i\<close>, both of which apply
  ECMAScript \<open>ToNumber\<close> (StringToNumber, ES2015 section 7.1.3.1).  A JavaScript
  number is modelled as \<open>jsnum\<close>: a finite value as an exact rational, \<open>NaN\<close>, and the
  two infinities.  Rounding to double precision is not modelled: the values the
  loop meets are small integers plus the fraction the string started with.
\<close>

datatype jsnum = JNum rat | JNaN | JPosInf | JNegInf

text \<open>
  StringToNumber: trim white space at both ends; the empty string is \<open>0\<close>;
  \<^verbatim>\<open>0x\<close>, \<^verbatim>\<open>0o\<close>, \<^verbatim>\<open>0b\<close> prefixes (either case) read an unsigned literal of
  radix 16, 8, 2 that must use the whole string; otherwise an optional sign followed
  by \<^verbatim>\<open>Infinity\<close> or by a decimal literal \<open>digits [. digits] [e [sign] digits]\<close>
  or \<open>. digits [e [sign] digits]\<close>; anything else is \<open>NaN\<close>.
\<close>

definition trim_ws :: "string \<Rightarrow> string" where
  "trim_ws s = rev (dropWhile js_whitespace (rev (dropWhile js_whitespace s)))"

definition pow10 :: "int \<Rightarrow> rat" where
  "pow10 e = (if 0 \<le> e then 10 ^ nat e else 1 / 10 ^ nat (- e))"

definition exponent_value :: "string \<Rightarrow> int option" where
  "exponent_value r =
     (let ds = (if take 1 r = ''-'' \<or> take 1 r = ''+'' then drop 1 r else r)
      in if ds \<noteq> [] \<and> list_all is_ascii_digit ds
         then Some ((if take 1 r = ''-'' then -1 else 1) * int (digits_value 10 ds))
         else None)"

definition decimal_literal :: "string \<Rightarrow> rat option" where
  "decimal_literal u =
     (let ip = takeWhile is_ascii_digit u;
          r1 = dropWhile is_ascii_digit u;
          dot = (take 1 r1 = ''.'');
          fp = (if dot then takeWhile is_ascii_digit (drop 1 r1) else []);
          r2 = (if dot then dropWhile is_ascii_digit (drop 1 r1) else r1);
          ex = (if r2 = [] then Some 0
                else if take 1 r2 = ''e'' \<or> take 1 r2 = ''E'' then exponent_value (drop 1 r2)
                else None)
      in if ip = [] \<and> fp = [] then None
         else map_option (\<lambda>e. of_nat (digits_value 10 (ip @ fp)) * pow10 (e - int (length fp))) ex)"

definition radix_literal :: "nat \<Rightarrow> string \<Rightarrow> jsnum" where
  "radix_literal R ds =
     (if ds \<noteq> [] \<and> list_all (is_radix_digit R) ds then JNum (of_nat (digits_value R ds)) else JNaN)"

definition toNumber :: "string \<Rightarrow> jsnum" where
  "toNumber str =
     (let s = trim_ws str; p = take 2 s
      in if s = [] then JNum 0
         else if p = ''0x'' \<or> p = ''0X'' then radix_literal 16 (drop 2 s)
         else if p = ''0o'' \<or> p = ''0O'' then radix_literal 8 (drop 2 s)
         else if p = ''0b'' \<or> p = ''0B'' then radix_literal 2 (drop 2 s)
         else
           (let neg = (take 1 s = ''-'');
                u = (if take 1 s = ''-'' \<or> take 1 s = ''+'' then drop 1 s else s)
            in if u = ''Infinity'' then (if neg then JNegInf else JPosInf)
               else (case decimal_literal u of
                       None \<Rightarrow> JNaN
                     | Some q \<Rightarrow> JNum (if neg then - q else q))))"

subsection \<open>Lemmas\<close>

lemma ascii_digit_facts:
  assumes "is_ascii_digit c"
  shows "\<not> js_whitespace c" and "is_radix_digit 10 c"
    and "c \<noteq> CHR ''-''" and "c \<noteq> CHR ''+''" and "c \<noteq> CHR ''x''" and "c \<noteq> CHR ''X''"
  using assms
  by (auto simp: is_ascii_digit_def js_whitespace_def is_radix_digit_def digit_value_def)

lemma digits_value_snoc:
  "digits_value R (ds @ [c]) = digits_value R ds * R + digit_value c"
  by (simp add: digits_value_def)

lemma digit_value_char_of: "(d::nat) < 10 \<Longrightarrow> digit_value (char_of (48 + d)) = d"
  by (simp add: digit_value_def of_char_of)

lemma ascii_digit_char_of: "(d::nat) < 10 \<Longrightarrow> is_ascii_digit (char_of (48 + d))"
  by (simp add: is_ascii_digit_def of_char_of)

lemma decimal_digits: "list_all is_ascii_digit (decimal n)"
proof (induction n rule: decimal.induct)
  case (1 n)
  then show ?case
    by (subst decimal.simps) (simp add: ascii_digit_char_of)
qed

lemma decimal_nonempty: "decimal n \<noteq> []"
  by (subst decimal.simps) simp

lemma digits_value_decimal: "digits_value 10 (decimal n) = n"
proof (induction n rule: decimal.induct)
  case (1 n)
  show ?case
  proof (cases "n < 10")
    case True
    then show ?thesis
      by (subst decimal.simps) (simp add: digits_value_def digit_value_char_of)
  next
    case False
    then have "digits_value 10 (decimal n) = digits_value 10 (decimal (n div 10)) * 10 + n mod 10"
      by (subst decimal.simps) (simp add: digits_value_snoc digit_value_char_of)
    with "1" False show ?thesis by simp
  qed
qed

text \<open>
  What \<^verbatim>\<open>parseInt\<close> sees of a segment that passes \<^verbatim>\<open>/^\d+$/\<close>: no white space, no
  sign, no hexadecimal prefix, and decimal digits to the end.
\<close>

lemma index_segment_scan:
  assumes "is_index_segment s"
  shows "s \<noteq> []" and "dropWhile js_whitespace s = s" and "take 1 s \<noteq> ''-'' \<and> take 1 s \<noteq> ''+''"
    and "take 2 s \<noteq> ''0x'' \<and> take 2 s \<noteq> ''0X''" and "takeWhile (is_radix_digit 10) s = s"
proof -
  obtain c r where s: "s = c # r" and dc: "is_ascii_digit c" and dr: "list_all is_ascii_digit r"
    using assms by (cases s) (auto simp: is_index_segment_def)
  show "s \<noteq> []" by (simp add: s)
  show "dropWhile js_whitespace s = s"
    using ascii_digit_facts(1) [OF dc] by (simp add: s)
  show "take 1 s \<noteq> ''-'' \<and> take 1 s \<noteq> ''+''"
    using ascii_digit_facts(3,4) [OF dc] by (simp add: s)
  show "take 2 s \<noteq> ''0x'' \<and> take 2 s \<noteq> ''0X''"
  proof (cases r)
    case Nil
    then show ?thesis by (simp add: s)
  next
    case (Cons d r')
    with dr have "is_ascii_digit d" by simp
    with Cons show ?thesis using ascii_digit_facts(5,6) by (simp add: s)
  qed
  show "takeWhile (is_radix_digit 10) s = s"
    using dc dr by (simp add: s takeWhile_eq_all_conv list_all_iff ascii_digit_facts(2))
qed

text \<open>
  A segment that passes \<^verbatim>\<open>/^\d+$/\<close> is read by \<^verbatim>\<open>parseInt\<close> as its decimal value,
  and the same digits after a minus sign as its negation.
\<close>

lemma parseInt_index_segment:
  assumes "is_index_segment s"
  shows "parseInt s = Some (int (digits_value 10 s))"
  using index_segment_scan [OF assms]
  by (simp add: parseInt_def Let_def del: takeWhile_eq_all_conv)

lemma parseInt_negative_segment:
  assumes "is_index_segment s"
  shows "parseInt (CHR ''-'' # s) = Some (- int (digits_value 10 s))"
  using index_segment_scan [OF assms]
  by (simp add: parseInt_def Let_def js_whitespace_def del: takeWhile_eq_all_conv)

lemma tryParseInt_index_segment:
  "is_index_segment s \<Longrightarrow> tryParseInt s = TInt (int (digits_value 10 s))"
  by (simp add: tryParseInt_def parseInt_index_segment)

lemma is_index_segment_decimal [simp]: "is_index_segment (decimal n)"
  by (simp add: is_index_segment_def decimal_digits decimal_nonempty)

lemma tryParseInt_decimal [simp]: "tryParseInt (decimal n) = TInt (int n)"
  by (simp add: tryParseInt_index_segment digits_value_decimal)

lemma tryParseInt_negative_decimal [simp]: "tryParseInt (CHR ''-'' # decimal n) = TInt (- int n)"
  by (simp add: tryParseInt_def parseInt_negative_segment digits_value_decimal)

lemma tryParseInt_append_sentinel [simp]: "tryParseInt ''-'' = TStr ''-''"
  by (simp add: tryParseInt_def parseInt_def js_whitespace_def is_radix_digit_def digit_value_def)

subsection \<open>Round trip\<close>

text \<open>
  C19. Parse/print round trip of a list index: \<^verbatim>\<open>tryParseInt\<close> reads the decimal
  printing \<^verbatim>\<open>String(n)\<close> of every natural number back as index \<open>n\<close>, and that
  printing passes the auto-vivification test \<^verbatim>\<open>/^\d+$/\<close>; conversely every segment
  passing the test is read as its decimal value, and with a leading minus sign as the
  negated value, so the two readings of a segment in \<^verbatim>\<open>sequencePatch\<close> agree.
\<close>

theorem index_segment_roundtrip:
  "tryParseInt (decimal n) = TInt (int n) \<and> is_index_segment (decimal n) \<and>
   (is_index_segment s \<longrightarrow>
      tryParseInt s = TInt (int (digits_value 10 s)) \<and>
      tryParseInt (CHR ''-'' # s) = TInt (- int (digits_value 10 s)))"
proof -
  have "is_index_segment s \<Longrightarrow> tryParseInt (CHR ''-'' # s) = TInt (- int (digits_value 10 s))"
    by (simp add: tryParseInt_def parseInt_negative_segment)
  then show ?thesis by (simp add: tryParseInt_index_segment)
qed

theorem index_segment_roundtrip_witness:
  "tryParseInt (decimal 12) = TInt 12 \<and> is_index_segment (decimal 12) \<and>
   (is_index_segment ''007'' \<and>
      tryParseInt ''007'' = TInt 7 \<and> tryParseInt ''-007'' = TInt (-7))"
proof -
  have s: "is_index_segment ''007''" by code_simp
  have d: "digits_value 10 ''007'' = 7" by code_simp
  show ?thesis
    using index_segment_roundtrip [of 12 "''007''"] s d by simp
qed

end
