(* ===== verification/Sequence_Shift.thy ===== *)
theory Sequence_Shift
  imports Path_Tokens "HOL-Library.While_Combinator"
begin

text \<open>
  The two loops of \<^verbatim>\<open>sequencePatch\<close> (\<^verbatim>\<open>src/src/patch.js\<close>), each a recursive
  function over the loop counter with a measure:
  \<^item> insertion (lines 63--68): push a placeholder \<open>0\<close>, copy every element from the
    end down to the insertion point one slot to the right, then store the value;
  \<^item> removal (lines 81--85): copy every element after the removal point one slot to
    the left, then shrink the list by one with \<^verbatim>\<open>setSize(size - 1)\<close>.
  The insertion branch runs only when \<^verbatim>\<open>sequence.get(firstPath)\<close> is defined, which a
  string token never is, so its counter and token are integers.  The removal branch
  also runs with a string token (one \<^verbatim>\<open>parseInt\<close> rejects): the loop test
  \<^verbatim>\<open>i < size - 1\<close> converts it with \<open>ToNumber\<close>, the first body ignores it
  (\<^verbatim>\<open>set\<close> with a non-index string is a no-op), and \<^verbatim>\<open>++i\<close> turns the counter
  into the number \<open>ToNumber(firstPath) + 1\<close>, possibly fractional, with which the
  loop goes on through \<^verbatim>\<open>List.get\<close>/\<^verbatim>\<open>List.set\<close> on number indices.
  The loops are also written literally as \<open>while_option\<close> loops (\<open>insert_loop\<close>,
  \<open>remove_loop\<close>); the theory proves what they compute, that the removal loop
  runs forever exactly when the segment converts to \<open>-Infinity\<close>, that on an in-range
  index they compute list insertion and deletion, and what they compute elsewhere.
\<close>

subsection \<open>\<^verbatim>\<open>List.get\<close> and \<^verbatim>\<open>List.set\<close> on a number index\<close>

text \<open>
  Immutable.js 3 on a number index \<open>x\<close>: \<^verbatim>\<open>wrapIndex\<close> adds the size to a negative
  \<open>x\<close> and leaves \<open>NaN\<close> as it is.  \<^verbatim>\<open>get\<close> answers \<open>undefined\<close> outside
  \<open>[0, size)\<close> and otherwise reads slot \<open>floor x\<close> (the trie is indexed with
  \<^verbatim>\<open>index & MASK\<close> and \<^verbatim>\<open>index >>> level\<close>).  \<^verbatim>\<open>set\<close> (\<^verbatim>\<open>updateList\<close>)
  ignores \<open>NaN\<close>; writes slot \<open>floor x\<close> inside the list; past the end it first
  grows the list to \<^verbatim>\<open>(x + 1) | 0\<close> slots; below \<open>0\<close> it runs
  \<^verbatim>\<open>setListBounds(list, x).set(0, value)\<close>, where \<^verbatim>\<open>x | 0\<close> truncates towards
  zero, so the list grows by \<open>floor (-x)\<close> holes at the front (none for
  \<open>-1 < x < 0\<close> and for \<open>-Infinity\<close>, whose \<^verbatim>\<open>| 0\<close> is \<open>0\<close>) before slot \<open>0\<close>
  is written.  \<open>+Infinity\<close> never reaches \<^verbatim>\<open>set\<close> here (the removal loop's test
  excludes it) and is left as a no-op.  \<^verbatim>\<open>ToInt32\<close> wraps indices of \<open>2^31\<close>
  and more; the model keeps them exact (see the header on list capacity).
\<close>

definition list_get_jsnum :: "jsval list \<Rightarrow> jsnum \<Rightarrow> jsval" where
  "list_get_jsnum xs x =
     (case x of
        JNum q \<Rightarrow>
          (let w = (if q < 0 then of_nat (length xs) + q else q)
           in if 0 \<le> w \<and> w < of_nat (length xs) then xs ! nat \<lfloor>w\<rfloor> else Undefined)
      | _ \<Rightarrow> Undefined)"

definition list_set_front :: "jsval list \<Rightarrow> nat \<Rightarrow> jsval \<Rightarrow> jsval list" where
  "list_set_front xs m v =
     (if m = 0 then (if xs = [] then [v] else xs[0 := v])
      else v # replicate (m - 1) Undefined @ xs)"

definition list_set_jsnum :: "jsval list \<Rightarrow> jsnum \<Rightarrow> jsval \<Rightarrow> jsval list" where
  "list_set_jsnum xs x v =
     (case x of
        JNum q \<Rightarrow>
          (let w = (if q < 0 then of_nat (length xs) + q else q)
           in if w < 0 then list_set_front xs (nat \<lfloor>- w\<rfloor>) v
              else if w < of_nat (length xs) then xs[nat \<lfloor>w\<rfloor> := v]
              else xs @ replicate (nat \<lfloor>w\<rfloor> - length xs) Undefined @ [v])
      | JNegInf \<Rightarrow> list_set_front xs 0 v
      | _ \<Rightarrow> xs)"

subsection \<open>The two loops\<close>

text \<open>
  The insertion loop's test \<^verbatim>\<open>i > firstPath\<close>.  Only an integer token reaches
  it from \<^verbatim>\<open>sequencePatch\<close> (a string token reads \<open>undefined\<close>, so add at it
  takes the \<^verbatim>\<open>set\<close> or \<^verbatim>\<open>push\<close> branch, \<open>Patch.string_segment_ignored\<close>);
  the string case is never used and is \<open>False\<close>.
\<close>

definition js_gt :: "int \<Rightarrow> token \<Rightarrow> bool" where
  "js_gt i t = (case t of TInt k \<Rightarrow> k < i | TStr _ \<Rightarrow> False)"

function shiftRight :: "jsval list \<Rightarrow> int \<Rightarrow> token \<Rightarrow> jsval list" where
  "shiftRight sequence i firstPath =
     (if js_gt i firstPath
      then shiftRight (list_set sequence (TInt i) (list_get sequence (TInt (i - 1)))) (i - 1) firstPath
      else sequence)"
  by pat_completeness auto
termination
  by (relation "measure (\<lambda>(s, i, t). case t of TInt k \<Rightarrow> nat (i - k) | TStr _ \<Rightarrow> 0)")
     (auto simp: js_gt_def split: token.splits)

declare shiftRight.simps [simp del]

definition insertAt :: "jsval list \<Rightarrow> token \<Rightarrow> jsval \<Rightarrow> jsval list" where
  "insertAt sequence firstPath value =
     (let sequence = list_push sequence (Num 0);
          size = length sequence
      in list_set (shiftRight sequence (int size - 1) firstPath) firstPath value)"

function shiftLeft :: "jsval list \<Rightarrow> int \<Rightarrow> int \<Rightarrow> jsval list" where
  "shiftLeft sequence i bound =
     (if i < bound
      then shiftLeft (list_set sequence (TInt i) (list_get sequence (TInt (i + 1)))) (i + 1) bound
      else sequence)"
  by pat_completeness auto
termination
  by (relation "measure (\<lambda>(s, i, bound). nat (bound - i))") auto

declare shiftLeft.simps [simp del]

text \<open>
  The removal loop continued with a number counter \<open>i\<close>, possibly fractional,
  after the first \<^verbatim>\<open>++i\<close> on a string token.
\<close>

function shiftLeft_num :: "jsval list \<Rightarrow> rat \<Rightarrow> int \<Rightarrow> jsval list" where
  "shiftLeft_num sequence i bound =
     (if i < of_int bound
      then shiftLeft_num (list_set_jsnum sequence (JNum i) (list_get_jsnum sequence (JNum (i + 1))))
             (i + 1) bound
      else sequence)"
  by pat_completeness auto
termination
proof (relation "measure (\<lambda>(s, i, bound). nat \<lceil>of_int bound - i\<rceil>)")
  fix sequence i bound
  assume a: "i < rat_of_int bound"
  have "rat_of_int bound - (i + 1) = (rat_of_int bound - i) - 1" by simp
  then have "\<lceil>rat_of_int bound - (i + 1)\<rceil> = \<lceil>rat_of_int bound - i\<rceil> - 1"
    by (simp only: ceiling_diff_one)
  moreover have "0 < \<lceil>rat_of_int bound - i\<rceil>" using a by simp
  ultimately show "((list_set_jsnum sequence (JNum i) (list_get_jsnum sequence (JNum (i + 1))), i + 1, bound),
                    sequence, i, bound) \<in> measure (\<lambda>(s, i, bound). nat \<lceil>of_int bound - i\<rceil>)"
    by simp
qed simp

declare shiftLeft_num.simps [simp del]

text \<open>
  \<open>removeAt\<close> is the removal branch: the loop from \<open>firstPath\<close>, then
  \<^verbatim>\<open>setSize(size - 1)\<close>.  With a string token the first test compares
  \<open>ToNumber(firstPath)\<close>; \<open>NaN\<close> and \<open>+Infinity\<close> stop the loop at once, a finite
  value \<open>q\<close> runs it on from \<open>q + 1\<close>.  A token converting to \<open>-Infinity\<close> makes
  the loop run forever (\<open>-Infinity + 1 = -Infinity\<close>); there \<open>sequencePatch\<close> does not
  return, which \<open>remove_loop\<close> below shows, and \<open>removeAt\<close> takes the value of the
  list without a shift.
\<close>

definition removeAt :: "jsval list \<Rightarrow> token \<Rightarrow> jsval list" where
  "removeAt sequence firstPath =
     (let size = length sequence;
          sequence = (case firstPath of
                        TInt i \<Rightarrow> shiftLeft sequence i (int size - 1)
                      | TStr str \<Rightarrow>
                          (case toNumber str of
                             JNum q \<Rightarrow>
                               (if q < of_int (int size - 1)
                                then shiftLeft_num sequence (q + 1) (int size - 1) else sequence)
                           | _ \<Rightarrow> sequence))
      in list_setSize sequence (int size - 1))"

subsection \<open>The loops as written\<close>

text \<open>
  The two \<^verbatim>\<open>for\<close> statements literally, as \<open>while_option\<close> over the loop state
  \<open>(sequence, i)\<close>, whose result is \<open>None\<close> exactly when the loop runs forever:
  \<^verbatim>\<open>for (let i = size - 1; i > firstPath; --i) sequence = sequence.set(i, sequence.get(i - 1));\<close>
  on the list after the placeholder push, and
  \<^verbatim>\<open>for (let i = firstPath; i < size - 1; ++i) sequence = sequence.set(i, sequence.get(i + 1));\<close>
  with \<open>size\<close> read before the loop.  The removal counter starts as the token, an
  integer or a string, and is a number after the first \<^verbatim>\<open>++i\<close>.
\<close>

definition insert_loop :: "jsval list \<Rightarrow> token \<Rightarrow> jsval list option" where
  "insert_loop sequence firstPath =
     map_option fst
       (while_option (\<lambda>(sequence, i). js_gt i firstPath)
          (\<lambda>(sequence, i). (list_set sequence (TInt i) (list_get sequence (TInt (i - 1))), i - 1))
          (sequence, int (length sequence) - 1))"

datatype loop_counter = LStr string | LNum jsnum

fun counter_number :: "loop_counter \<Rightarrow> jsnum" where
  "counter_number (LStr str) = toNumber str"
| "counter_number (LNum x) = x"

fun loop_start :: "token \<Rightarrow> loop_counter" where
  "loop_start (TInt i) = LNum (JNum (of_int i))"
| "loop_start (TStr str) = LStr str"

text \<open>\<open>x < n\<close> and \<open>x + 1\<close> on a JavaScript number.\<close>

fun js_less :: "jsnum \<Rightarrow> int \<Rightarrow> bool" where
  "js_less (JNum q) n = (q < of_int n)"
| "js_less JNegInf n = True"
| "js_less JPosInf n = False"
| "js_less JNaN n = False"

fun js_inc :: "jsnum \<Rightarrow> jsnum" where
  "js_inc (JNum q) = JNum (q + 1)"
| "js_inc x = x"

text \<open>
  The body \<^verbatim>\<open>sequence.set(i, sequence.get(i + 1))\<close>: on a string counter
  \<^verbatim>\<open>i + 1\<close> concatenates, and both calls see a string index.
\<close>

fun remove_body :: "jsval list \<Rightarrow> loop_counter \<Rightarrow> jsval list" where
  "remove_body s (LStr str) = list_set s (TStr str) (list_get s (TStr (str @ ''1'')))"
| "remove_body s (LNum x) = list_set_jsnum s x (list_get_jsnum s (js_inc x))"

definition remove_loop :: "jsval list \<Rightarrow> token \<Rightarrow> jsval list option" where
  "remove_loop sequence firstPath =
     map_option fst
       (while_option (\<lambda>(s, i). js_less (counter_number i) (int (length sequence) - 1))
          (\<lambda>(s, i). (remove_body s i, LNum (js_inc (counter_number i))))
          (sequence, loop_start firstPath))"

subsection \<open>Reference operations\<close>

definition insert_nth :: "nat \<Rightarrow> 'a \<Rightarrow> 'a list \<Rightarrow> 'a list" where
  "insert_nth k v xs = take k xs @ v # drop k xs"

definition remove_nth :: "nat \<Rightarrow> 'a list \<Rightarrow> 'a list" where
  "remove_nth k xs = take k xs @ drop (Suc k) xs"

subsection \<open>The loops element by element\<close>

lemma shiftRight_nth:
  assumes "t = TInt k" and "0 \<le> k" and "i < int (length s)"
  shows "length (shiftRight s i t) = length s \<and>
         (\<forall>j < length s. shiftRight s i t ! j =
            (if k < int j \<and> int j \<le> i then s ! (j - 1) else s ! j))"
  using assms
proof (induction s i t rule: shiftRight.induct)
  case (1 s i t)
  show ?case
  proof (cases "k < i")
    case False
    with "1.prems" show ?thesis by (auto simp: shiftRight.simps [of s] js_gt_def)
  next
    case True
    define s' where "s' = s[nat i := s ! nat (i - 1)]"
    have step: "list_set s (TInt i) (list_get s (TInt (i - 1))) = s'"
      using True "1.prems" by (simp add: s'_def list_set_def list_get_def wrapIndex_def)
    have "length s' = length s" by (simp add: s'_def)
    with "1.IH" [OF _ "1.prems"(1,2)] True step "1.prems"
    have IH: "length (shiftRight s' (i - 1) t) = length s \<and>
              (\<forall>j < length s. shiftRight s' (i - 1) t ! j =
                 (if k < int j \<and> int j \<le> i - 1 then s' ! (j - 1) else s' ! j))"
      by (simp add: js_gt_def)
    have eq: "shiftRight s i t = shiftRight s' (i - 1) t"
      using True step "1.prems"(1) by (simp add: shiftRight.simps [of s] js_gt_def)
    have ni: "nat (i - 1) = nat i - 1" by simp
    show ?thesis
      using IH True "1.prems" unfolding eq
      by (auto simp: s'_def nth_list_update ni)
  qed
qed

lemma shiftLeft_nth:
  assumes "0 \<le> i" and "bound < int (length s)"
  shows "length (shiftLeft s i bound) = length s \<and>
         (\<forall>j < length s. shiftLeft s i bound ! j =
            (if i \<le> int j \<and> int j < bound then s ! Suc j else s ! j))"
  using assms
proof (induction s i bound rule: shiftLeft.induct)
  case (1 s i bound)
  show ?case
  proof (cases "i < bound")
    case False
    then show ?thesis by (auto simp: shiftLeft.simps [of s])
  next
    case True
    define s' where "s' = s[nat i := s ! nat (i + 1)]"
    have step: "list_set s (TInt i) (list_get s (TInt (i + 1))) = s'"
      using True "1.prems" by (simp add: s'_def list_set_def list_get_def wrapIndex_def)
    have "length s' = length s" by (simp add: s'_def)
    with "1.IH" [OF True] step "1.prems"
    have IH: "length (shiftLeft s' (i + 1) bound) = length s \<and>
              (\<forall>j < length s. shiftLeft s' (i + 1) bound ! j =
                 (if i + 1 \<le> int j \<and> int j < bound then s' ! Suc j else s' ! j))"
      by simp
    have eq: "shiftLeft s i bound = shiftLeft s' (i + 1) bound"
      using True step by (simp add: shiftLeft.simps [of s])
    have ni: "nat (i + 1) = Suc (nat i)" using "1.prems"(1) by simp
    have nj: "\<And>j. i \<le> int j \<Longrightarrow> \<not> i + 1 \<le> int j \<Longrightarrow> nat i = j" by arith
    show ?thesis
      using IH True "1.prems" unfolding eq
      by (auto simp: s'_def nth_list_update nat_eq_iff ni dest: nj)
  qed
qed

subsection \<open>Equivalence with the reference operations\<close>

lemma insertAt_in_range:
  assumes "k < length s"
  shows "insertAt s (TInt (int k)) v = insert_nth k v s"
proof -
  let ?s = "s @ [Num 0]"
  have sr: "length (shiftRight ?s (int (length s)) (TInt (int k))) = Suc (length s) \<and>
            (\<forall>j < Suc (length s). shiftRight ?s (int (length s)) (TInt (int k)) ! j =
               (if int k < int j \<and> int j \<le> int (length s) then ?s ! (j - 1) else ?s ! j))"
    using shiftRight_nth [of "TInt (int k)" "int k" "int (length s)" ?s] by simp
  then have len: "length (shiftRight ?s (int (length s)) (TInt (int k))) = Suc (length s)" by simp
  show ?thesis
  proof (rule nth_equalityI)
    show "length (insertAt s (TInt (int k)) v) = length (insert_nth k v s)"
      using assms len
      by (simp add: insertAt_def list_push_def insert_nth_def list_set_nat)
  next
    fix j assume "j < length (insertAt s (TInt (int k)) v)"
    then have j: "j < Suc (length s)"
      using assms len by (simp add: insertAt_def list_push_def list_set_nat)
    show "insertAt s (TInt (int k)) v ! j = insert_nth k v s ! j"
      using assms j sr len
      by (auto simp: insertAt_def list_push_def list_set_nat insert_nth_def nth_append
                     nth_list_update min_def)
  qed
qed

lemma removeAt_in_range:
  assumes "k < length s"
  shows "removeAt s (TInt (int k)) = remove_nth k s"
proof -
  have sl: "length (shiftLeft s (int k) (int (length s) - 1)) = length s \<and>
            (\<forall>j < length s. shiftLeft s (int k) (int (length s) - 1) ! j =
               (if int k \<le> int j \<and> int j < int (length s) - 1 then s ! Suc j else s ! j))"
    using shiftLeft_nth [of "int k" "int (length s) - 1" s] assms by simp
  have set_size: "removeAt s (TInt (int k)) =
                  take (length s - 1) (shiftLeft s (int k) (int (length s) - 1))"
    using sl list_setSize_pred [of "shiftLeft s (int k) (int (length s) - 1)"]
    by (simp add: removeAt_def Let_def)
  show ?thesis
  proof (rule nth_equalityI)
    show "length (removeAt s (TInt (int k))) = length (remove_nth k s)"
      using assms sl set_size by (simp add: remove_nth_def)
  next
    fix j assume "j < length (removeAt s (TInt (int k)))"
    then have j: "j < length s - 1" using sl set_size by simp
    show "removeAt s (TInt (int k)) ! j = remove_nth k s ! j"
      using assms j sl set_size by (auto simp: remove_nth_def nth_append min_def)
  qed
qed

text \<open>
  At or past the last index, or with a string token converting to \<open>NaN\<close>,
  \<open>+Infinity\<close> or a number not below \<open>size - 1\<close>, the removal loop does not run.
\<close>

lemma removeAt_no_shift:
  assumes "\<And>i. t = TInt i \<Longrightarrow> int (length s) - 1 \<le> i"
    and "\<And>str q. t = TStr str \<Longrightarrow> toNumber str = JNum q \<Longrightarrow> of_int (int (length s) - 1) \<le> q"
    and "\<And>str. t = TStr str \<Longrightarrow> toNumber str \<noteq> JNegInf"
  shows "removeAt s t = butlast s"
proof -
  have "removeAt s t = list_setSize s (int (length s) - 1)"
  proof (cases t)
    case (TInt i)
    with assms(1) have "shiftLeft s i (int (length s) - 1) = s"
      by (simp add: shiftLeft.simps [of s])
    with TInt show ?thesis by (simp add: removeAt_def)
  next
    case (TStr str)
    with assms(2,3) show ?thesis
      by (cases "toNumber str") (auto simp: removeAt_def not_less [symmetric])
  qed
  then show ?thesis using list_setSize_pred [of s] by (simp add: butlast_conv_take)
qed

subsection \<open>The loops at a negative index\<close>

text \<open>
  Immutable.js wraps a negative index \<open>-k\<close> to \<open>size - k\<close>.  The removal loop started at
  \<open>-k\<close> first shifts the last \<open>k\<close> slots left, the last one reading slot \<open>0\<close>
  through \<^verbatim>\<open>get(0)\<close>, before the ordinary shift from \<open>0\<close>.  The insertion loop
  stopping at \<open>-k\<close> runs the ordinary shift down to \<open>0\<close>, whose step reads
  \<^verbatim>\<open>get(-1)\<close>, the last slot, and then the same shift again on the wrapped indices.
\<close>

lemma nat_int_diff: "k \<le> n \<Longrightarrow> nat (int n - int k) = n - k"
  by linarith

lemma list_get_negative:
  "1 \<le> k \<Longrightarrow> k \<le> length s \<Longrightarrow> list_get s (TInt (- int k)) = s ! (length s - k)"
  by (simp add: list_get_def wrapIndex_def nat_int_diff)

lemma list_set_negative:
  "1 \<le> k \<Longrightarrow> k \<le> length s \<Longrightarrow> list_set s (TInt (- int k)) v = s[length s - k := v]"
  by (simp add: list_set_def wrapIndex_def nat_int_diff)

lemma update_last_snoc: "s \<noteq> [] \<Longrightarrow> s[length s - 1 := x] = butlast s @ [x]"
  by (cases s rule: rev_cases) auto

lemma shiftLeft_from_negative:
  assumes "1 \<le> k" and "k < length s" and "0 \<le> bound"
  shows "shiftLeft s (- int k) bound = shiftLeft (remove_nth (length s - k) s @ [hd s]) 0 bound"
  using assms
proof (induction k arbitrary: s)
  case 0
  then show ?case by simp
next
  case (Suc k)
  define n where "n = length s"
  have ne: "s \<noteq> []" using Suc.prems by auto
  have hs: "hd s = s ! 0" using ne by (simp add: hd_conv_nth)
  show ?case
  proof (cases "k = 0")
    case True
    have g0: "list_get s (TInt 0) = s ! 0" using list_get_nat [of 0 s] ne by simp
    have "shiftLeft s (-1) bound = shiftLeft (s[n - 1 := s ! 0]) 0 bound"
      using Suc.prems ne g0 by (subst shiftLeft.simps) (simp add: list_get_nat list_set_negative [of 1, simplified] n_def)
    moreover have "remove_nth (n - 1) s @ [hd s] = s[n - 1 := s ! 0]"
      using ne update_last_snoc [OF ne] by (simp add: remove_nth_def hs n_def butlast_conv_take)
    ultimately show ?thesis using True by (simp add: n_def)
  next
    case False
    define s1 where "s1 = s[n - Suc k := s ! (n - k)]"
    have k: "1 \<le> k" "k < length s1" "Suc k < n" using False Suc.prems by (simp_all add: s1_def n_def)
    have "shiftLeft s (- int (Suc k)) bound = shiftLeft s1 (- int k) bound"
      using Suc.prems k list_set_negative [of "Suc k" s]
      by (subst shiftLeft.simps) (simp add: list_get_negative s1_def n_def)
    also have "\<dots> = shiftLeft (remove_nth (length s1 - k) s1 @ [hd s1]) 0 bound"
      using Suc.IH [OF k(1,2) Suc.prems(3)] .
    also have "remove_nth (length s1 - k) s1 @ [hd s1] = remove_nth (n - Suc k) s @ [hd s]"
    proof -
      have h: "hd s1 = hd s" using k ne by (simp add: s1_def hs hd_conv_nth nth_list_update)
      have "remove_nth (n - k) s1 = remove_nth (n - Suc k) s"
        using k by (intro nth_equalityI) (auto simp: remove_nth_def s1_def nth_append nth_list_update min_def n_def Suc_diff_Suc)
      then show ?thesis using h by (simp add: s1_def n_def)
    qed
    finally show ?thesis by (simp add: n_def)
  qed
qed

lemma removeAt_negative_inside:
  assumes "1 \<le> k" and "k < length s"
  shows "removeAt s (TInt (- int k)) = rotate1 (remove_nth (length s - k) s)"
proof -
  define t where "t = remove_nth (length s - k) s @ [hd s]"
  have lt: "length t = length s" using assms by (simp add: t_def remove_nth_def)
  have ne: "s \<noteq> []" using assms by auto
  have "removeAt s (TInt (- int k)) = list_setSize (shiftLeft t 0 (int (length t) - 1)) (int (length t) - 1)"
    using assms lt ne shiftLeft_from_negative [OF assms, of "int (length s) - 1"]
    by (simp add: removeAt_def Let_def t_def)
  also have "\<dots> = removeAt t (TInt 0)" by (simp add: removeAt_def Let_def)
  also have "\<dots> = tl t" using removeAt_in_range [of 0 t] assms lt ne by (simp add: remove_nth_def drop_Suc)
  also have "\<dots> = rotate1 (remove_nth (length s - k) s)"
  proof -
    have nr: "remove_nth (length s - k) s \<noteq> []" using assms ne by (simp add: remove_nth_def)
    have "hd (remove_nth (length s - k) s) = hd s"
      using assms by (cases s) (simp_all add: remove_nth_def)
    then show ?thesis using nr by (simp add: t_def rotate1_hd_tl)
  qed
  finally show ?thesis .
qed

text \<open>
  At \<open>-size\<close> the first step writes slot \<open>0\<close>, which the step at \<open>-1\<close> reads back;
  the result still has the same form.
\<close>

lemma removeAt_negative:
  assumes "1 \<le> k" and "k \<le> length s"
  shows "removeAt s (TInt (- int k)) = rotate1 (remove_nth (length s - k) s)"
proof (cases "k < length s")
  case True
  then show ?thesis using removeAt_negative_inside [OF assms(1)] by blast
next
  case False
  with assms have k: "k = length s" by simp
  show ?thesis
  proof (cases "length s = 1")
    case True
    then obtain a where s: "s = [a]" by (cases s) auto
    then show ?thesis using k
      by (simp add: removeAt_def shiftLeft.simps [of "[a]"] shiftLeft.simps [of _ 0]
                    list_set_def list_get_def wrapIndex_def list_setSize_def remove_nth_def)
  next
    case False
    with assms k obtain a b r where s: "s = a # b # r" by (cases s rule: list.exhaust; cases "tl s") auto
    define n where "n = length s"
    have n: "n = Suc (Suc (length r))" by (simp add: n_def s)
    define s1 where "s1 = b # b # r"
    have step: "shiftLeft s (- int n) (int n - 1) = shiftLeft s1 (- int (n - 1)) (int n - 1)"
    proof -
      have "list_set s (TInt (- int n)) (list_get s (TInt (- int n + 1))) = s1"
        using list_set_negative [of n s] list_get_negative [of "n - 1" s] n
        by (simp add: s s1_def n_def of_nat_diff)
      moreover have "- int n + 1 = - int (n - 1)" using n by simp
      ultimately show ?thesis using n by (subst shiftLeft.simps) simp
    qed
    have l1: "length s1 = n" by (simp add: s1_def n)
    have sl: "shiftLeft s1 (- int (n - 1)) (int n - 1) = shiftLeft (remove_nth 1 s1 @ [hd s1]) 0 (int n - 1)"
      using shiftLeft_from_negative [of "n - 1" s1 "int n - 1"] l1 n by simp
    define t where "t = remove_nth 1 s1 @ [hd s1]"
    have lt: "length t = n" by (simp add: t_def s1_def remove_nth_def n)
    have "removeAt s (TInt (- int k)) = list_setSize (shiftLeft t 0 (int (length t) - 1)) (int (length t) - 1)"
      using step sl lt k by (simp add: removeAt_def Let_def t_def n_def)
    also have "\<dots> = removeAt t (TInt 0)" by (simp add: removeAt_def Let_def)
    also have "\<dots> = tl t" using removeAt_in_range [of 0 t] lt n by (simp add: remove_nth_def drop_Suc)
    also have "\<dots> = rotate1 (remove_nth (length s - k) s)"
      using k by (simp add: t_def s1_def s remove_nth_def)
    finally show ?thesis .
  qed
qed

lemma shiftRight_split:
  "t \<le> 0 \<Longrightarrow> shiftRight s (int n) (TInt t) = shiftRight (shiftRight s (int n) (TInt 0)) 0 (TInt t)"
proof (induction n arbitrary: s)
  case 0
  show ?case by (subst (2) shiftRight.simps) (simp add: js_gt_def)
next
  case (Suc n)
  have e: "\<And>t. shiftRight s (1 + int n) t =
             (if js_gt (1 + int n) t
              then shiftRight (list_set s (TInt (1 + int n)) (list_get s (TInt (int n)))) (int n) t
              else s)"
    by (subst shiftRight.simps) simp
  show ?case
    using Suc.IH [OF Suc.prems, of "list_set s (TInt (1 + int n)) (list_get s (TInt (int n)))"] Suc.prems
    by (simp add: e js_gt_def)
qed

text \<open>Below \<open>0\<close> the insertion loop is the same loop on the wrapped indices.\<close>

lemma shiftRight_wrapped:
  assumes "- int (length s) < k" and "k \<le> i" and "i < 0"
  shows "shiftRight s i (TInt k) = shiftRight s (int (length s) + i) (TInt (int (length s) + k))"
  using assms
proof (induction "nat (i - k)" arbitrary: s i)
  case 0
  then have "i = k" by simp
  then show ?case
    by (simp add: shiftRight.simps [of s k] shiftRight.simps [of s "int (length s) + k"] js_gt_def)
next
  case (Suc d)
  then have lt: "k < i" by simp
  define s' where "s' = list_set s (TInt i) (list_get s (TInt (i - 1)))"
  have same: "list_set s (TInt (int (length s) + i)) (list_get s (TInt (int (length s) + i - 1))) = s'"
    using Suc.prems lt by (simp add: s'_def list_set_def list_get_def wrapIndex_def add_diff_eq)
  have len: "length s' = length s"
    using Suc.prems lt by (simp add: s'_def list_set_def wrapIndex_def)
  have "shiftRight s i (TInt k) = shiftRight s' (i - 1) (TInt k)"
    using lt by (simp add: shiftRight.simps [of s i] js_gt_def s'_def)
  also have "\<dots> = shiftRight s' (int (length s') + (i - 1)) (TInt (int (length s') + k))"
    using Suc.hyps(1) [of "i - 1" s'] Suc.hyps(2) Suc.prems lt len by simp
  also have "\<dots> = shiftRight s (int (length s) + i) (TInt (int (length s) + k))"
  proof -
    have "shiftRight s (int (length s) + i) (TInt (int (length s) + k)) =
          shiftRight s' (int (length s) + i - 1) (TInt (int (length s) + k))"
      using lt same by (subst shiftRight.simps) (simp add: js_gt_def)
    then show ?thesis using len by (simp add: add_diff_eq)
  qed
  finally show ?case .
qed

lemma insertAt_negative:
  assumes "1 \<le> k" and "k \<le> length s"
  shows "insertAt s (TInt (- int k)) v = last s # insert_nth (length s - k) v (butlast s)"
proof -
  let ?q = "s @ [Num 0]"
  define n where "n = length s"
  define u where "u = shiftRight ?q (int n) (TInt 0)"
  have su: "length u = Suc n \<and>
            (\<forall>j < Suc n. u ! j = (if 0 < int j \<and> int j \<le> int n then ?q ! (j - 1) else ?q ! j))"
    using shiftRight_nth [of "TInt 0" 0 "int n" ?q] by (simp add: u_def n_def)
  define w where "w = u[0 := u ! n]"
  have lw: "length w = Suc n" using su by (simp add: w_def)
  have step0: "shiftRight u 0 (TInt (- int k)) = shiftRight w (-1) (TInt (- int k))"
    using assms su list_get_negative [of 1 u] list_set_nat [of 0 u]
    by (subst shiftRight.simps) (simp add: js_gt_def w_def)
  have wr: "shiftRight w (-1) (TInt (- int k)) = shiftRight w (int n) (TInt (int (Suc n) - int k))"
    using shiftRight_wrapped [of w "- int k" "-1"] assms lw by (simp add: n_def)
  define z where "z = shiftRight w (int n) (TInt (int (Suc n) - int k))"
  have sz: "length z = Suc n \<and>
            (\<forall>j < Suc n. z ! j = (if int (Suc n) - int k < int j \<and> int j \<le> int n then w ! (j - 1) else w ! j))"
    using shiftRight_nth [of "TInt (int (Suc n) - int k)" "int (Suc n) - int k" "int n" w] assms lw
    by (simp add: z_def n_def)
  have ins: "insertAt s (TInt (- int k)) v = z[Suc n - k := v]"
  proof -
    have "shiftRight ?q (int n) (TInt (- int k)) = z"
      using shiftRight_split [of "- int k" ?q n] step0 wr by (simp add: u_def z_def)
    then show ?thesis
      using assms sz list_set_negative [of k z v]
      by (simp add: insertAt_def list_push_def n_def)
  qed
  show ?thesis
  proof (rule nth_equalityI)
    show "length (insertAt s (TInt (- int k)) v) = length (last s # insert_nth (length s - k) v (butlast s))"
      using ins sz assms by (simp add: insert_nth_def n_def)
  next
    fix j assume "j < length (insertAt s (TInt (- int k)) v)"
    then have j: "j < Suc n" using ins sz by simp
    show "insertAt s (TInt (- int k)) v ! j = (last s # insert_nth (length s - k) v (butlast s)) ! j"
      using ins sz su j assms
      by (cases j) (auto simp: w_def nth_list_update nth_append insert_nth_def nth_butlast
                               last_conv_nth n_def min_def)
  qed
qed

text \<open>On a list of holes, from a wrapped index, the removal loop copies holes onto holes.\<close>

lemma shiftLeft_holes:
  "s = replicate n Undefined \<Longrightarrow> - int n \<le> i \<Longrightarrow> bound \<le> 0 \<Longrightarrow> shiftLeft s i bound = s"
proof (induction s i bound rule: shiftLeft.induct)
  case (1 s i bound)
  have "list_set s (TInt i) (list_get s (TInt (i + 1))) = s" if "i < bound"
    using that "1.prems" by (simp add: list_set_def list_get_def wrapIndex_def list_update_same_conv)
  then show ?case
    using "1.IH" "1.prems" by (subst shiftLeft.simps) simp
qed

lemma shiftLeft_from_empty:
  "2 \<le> k \<Longrightarrow> shiftLeft [] (- int k) (-1) = replicate k Undefined"
proof -
  assume k: "2 \<le> k"
  have "list_set [] (TInt (- int k)) (list_get [] (TInt (- int k + 1))) = replicate k Undefined"
    using k by (simp add: list_set_def wrapIndex_def list_get_def flip: replicate_Suc)
  then have "shiftLeft [] (- int k) (-1) = shiftLeft (replicate k Undefined) (- int k + 1) (-1)"
    using k by (subst shiftLeft.simps) simp
  then show ?thesis using k by (simp add: shiftLeft_holes)
qed

subsection \<open>Number indices at integer and non-negative values\<close>

lemma wrap_of_int:
  "(if rat_of_int i < 0 then of_nat n + rat_of_int i else rat_of_int i) =
   rat_of_int (if i < 0 then int n + i else i)"
  by simp

lemma list_get_jsnum_int [simp]: "list_get_jsnum xs (JNum (of_int i)) = list_get xs (TInt i)"
proof -
  have "\<And>w. (rat_of_int w < of_nat (length xs)) = (w < int (length xs))"
    by (metis of_int_less_iff of_int_of_nat_eq)
  then show ?thesis
    by (simp only: list_get_jsnum_def jsnum.case Let_def wrap_of_int floor_of_int)
       (simp add: list_get_def wrapIndex_def)
qed

lemma list_set_jsnum_int [simp]: "list_set_jsnum xs (JNum (of_int i)) v = list_set xs (TInt i) v"
proof -
  have "\<And>w. (rat_of_int w < of_nat (length xs)) = (w < int (length xs))"
    by (metis of_int_less_iff of_int_of_nat_eq)
  moreover have "\<And>w. w < 0 \<Longrightarrow> list_set_front xs (nat (- w)) v = v # replicate (nat (- w) - 1) Undefined @ xs"
    by (simp add: list_set_front_def)
  ultimately show ?thesis
    by (simp only: list_set_jsnum_def jsnum.case Let_def wrap_of_int floor_of_int flip: of_int_minus)
       (simp add: list_set_def wrapIndex_def)
qed

lemma list_get_jsnum_int_succ [simp]:
  "list_get_jsnum xs (JNum (of_int i + 1)) = list_get xs (TInt (i + 1))"
  using list_get_jsnum_int [of xs "i + 1"] by simp

lemma list_get_jsnum_nonneg:
  "0 \<le> q \<Longrightarrow> list_get_jsnum xs (JNum q) = list_get xs (TInt \<lfloor>q\<rfloor>)"
  by (simp add: list_get_jsnum_def list_get_def wrapIndex_def floor_less_iff)

lemma list_set_jsnum_nonneg:
  "0 \<le> q \<Longrightarrow> list_set_jsnum xs (JNum q) v = list_set xs (TInt \<lfloor>q\<rfloor>) v"
  by (simp add: list_set_jsnum_def list_set_def wrapIndex_def floor_less_iff)

lemma shiftLeft_num_int: "shiftLeft_num s (of_int i) bound = shiftLeft s i bound"
proof (induction s i bound rule: shiftLeft.induct)
  case (1 s i bound)
  then show ?case
    by (subst shiftLeft_num.simps, subst shiftLeft.simps) simp
qed

text \<open>From a non-negative fractional counter the loop is the integer loop from its floor.\<close>

lemma shiftLeft_num_nonneg: "0 \<le> q \<Longrightarrow> shiftLeft_num s q bound = shiftLeft s \<lfloor>q\<rfloor> bound"
proof (induction s q bound rule: shiftLeft_num.induct)
  case (1 s q bound)
  have fl: "\<lfloor>q + 1\<rfloor> = \<lfloor>q\<rfloor> + 1" by simp
  show ?case
    using "1.IH" "1.prems"
    by (subst shiftLeft_num.simps, subst shiftLeft.simps)
       (simp add: list_get_jsnum_nonneg list_set_jsnum_nonneg floor_less_iff)
qed

text \<open>A string converting to \<open>q\<close>, with \<open>-1 \<le> q < size - 1\<close>, removes like index \<open>floor q + 1\<close>.\<close>

lemma removeAt_numeric_string:
  assumes "toNumber str = JNum q" and "-1 \<le> q" and "q < of_int (int (length s) - 1)"
  shows "removeAt s (TStr str) = removeAt s (TInt (\<lfloor>q\<rfloor> + 1))"
  using assms shiftLeft_num_nonneg [of "q + 1" s]
  by (simp add: removeAt_def)

subsection \<open>The loops as written compute the shift functions\<close>

lemma insert_loop_from:
  "map_option fst
     (while_option (\<lambda>(sequence, i). js_gt i t)
        (\<lambda>(sequence, i). (list_set sequence (TInt i) (list_get sequence (TInt (i - 1))), i - 1))
        (s, i)) = Some (shiftRight s i t)"
proof (induction s i t rule: shiftRight.induct)
  case (1 s i t)
  then show ?case
    by (subst while_option_unfold) (simp add: shiftRight.simps [of s])
qed

lemma remove_loop_from:
  "map_option fst
     (while_option (\<lambda>(s, i). js_less (counter_number i) bound)
        (\<lambda>(s, i). (remove_body s i, LNum (js_inc (counter_number i))))
        (s, LNum (JNum q))) = Some (shiftLeft_num s q bound)"
proof (induction s q bound rule: shiftLeft_num.induct)
  case (1 s q bound)
  then show ?case
    by (subst while_option_unfold) (simp add: shiftLeft_num.simps [of s])
qed

text \<open>A string counter takes one step that changes nothing, then counts as a number.\<close>

lemma remove_loop_string:
  "remove_loop s (TStr str) =
     (if js_less (toNumber str) (int (length s) - 1)
      then map_option fst
             (while_option (\<lambda>(sq, i). js_less (counter_number i) (int (length s) - 1))
               (\<lambda>(sq, i). (remove_body sq i, LNum (js_inc (counter_number i))))
               (s, LNum (js_inc (toNumber str))))
      else Some s)"
  unfolding remove_loop_def by (subst while_option_unfold) simp

text \<open>At \<open>-Infinity\<close> the test stays true and the counter stays \<open>-Infinity\<close>.\<close>

lemma remove_loop_diverges:
  "while_option (\<lambda>(s, i). js_less (counter_number i) bound)
     (\<lambda>(s, i). (remove_body s i, LNum (js_inc (counter_number i))))
     (s, LNum JNegInf) = None"
proof (rule ccontr)
  assume "while_option (\<lambda>(s, i). js_less (counter_number i) bound)
     (\<lambda>(s, i). (remove_body s i, LNum (js_inc (counter_number i)))) (s, LNum JNegInf) \<noteq> None"
  then obtain r where r: "while_option (\<lambda>(s, i). js_less (counter_number i) bound)
     (\<lambda>(s, i). (remove_body s i, LNum (js_inc (counter_number i)))) (s, LNum JNegInf) = Some r"
    by blast
  have "snd r = LNum JNegInf"
    by (rule while_option_rule [OF _ r]) auto
  with while_option_stop [OF r] show False by (cases r) simp
qed

text \<open>
  C31. The loops as written: for every integer token the insertion loop terminates and
  computes \<open>shiftRight\<close> from \<open>size - 1\<close>; the removal loop terminates exactly when
  the token does not convert to \<open>-Infinity\<close>, and then \<^verbatim>\<open>setSize(size - 1)\<close> of
  its result is \<open>removeAt\<close>, for integer and string tokens alike.
\<close>

theorem loops_as_written:
  "(\<forall>k. insert_loop s (TInt k) = Some (shiftRight s (int (length s) - 1) (TInt k))) \<and>
   map_option (\<lambda>r. list_setSize r (int (length s) - 1)) (remove_loop s t) =
     (if counter_number (loop_start t) = JNegInf then None else Some (removeAt s t))"
proof
  show "\<forall>k. insert_loop s (TInt k) = Some (shiftRight s (int (length s) - 1) (TInt k))"
    by (simp add: insert_loop_def insert_loop_from)
next
  show "map_option (\<lambda>r. list_setSize r (int (length s) - 1)) (remove_loop s t) =
     (if counter_number (loop_start t) = JNegInf then None else Some (removeAt s t))"
  proof (cases t)
    case (TInt i)
    then show ?thesis
      by (simp add: remove_loop_def remove_loop_from shiftLeft_num_int removeAt_def Let_def)
  next
    case (TStr str)
    then show ?thesis
      by (cases "toNumber str")
         (simp_all add: remove_loop_string removeAt_def Let_def remove_loop_from remove_loop_diverges)
  qed
qed

end
