(* ===== verification/Patch.thy ===== *)
theory Patch
  imports Sequence_Shift
begin

text \<open>
  The recursive patch application of \<^verbatim>\<open>src/src/patch.js\<close>: \<^verbatim>\<open>primitivePatch\<close>
  (lines 10--16), \<^verbatim>\<open>mapPatch\<close> (lines 18--41), \<^verbatim>\<open>sequencePatch\<close> (lines 43--90) and
  the dispatcher \<^verbatim>\<open>anyPatch\<close> (lines 100--118), one mutually recursive function
  each, in the source's branch order.  An operation is the string the code compares
  with \<^verbatim>\<open>===\<close>: \<open>''+''\<close> (add), \<open>''!=''\<close> (replace), \<open>''-''\<close> (remove).  A thrown
  \<^verbatim>\<open>Error\<close> is the value \<open>Inl\<close>; the recursion is on the path, which is one
  segment shorter at every call.  \<^verbatim>\<open>mapPatch\<close> receives the keyed value itself, a map
  or a record, and calls its methods through the keyed interface; a \<^verbatim>\<open>set\<close> that
  throws is sequenced with \<open>sum_bind\<close>.
\<close>

type_synonym op = string

text \<open>
  \<^verbatim>\<open>primitivePatch\<close> falls off its end on an unknown operation and so returns
  \<^verbatim>\<open>undefined\<close>; it never throws.
\<close>

definition primitivePatch :: "op \<Rightarrow> jsval \<Rightarrow> jsval" where
  "primitivePatch op val =
     (if op = ''+'' \<or> op = ''!='' then val
      else if op = ''-'' then Null
      else Undefined)"

text \<open>
  The container created by auto-vivification: \<^verbatim>\<open>Immutable.List()\<close> when the next
  segment matches \<^verbatim>\<open>/^\d+$/\<close>, \<^verbatim>\<open>Immutable.Map()\<close> otherwise (lines 21 and 48).
\<close>

definition baseValue :: "string list \<Rightarrow> jsval" where
  "baseValue restPath = (if is_index_segment (hd restPath) then IList [] else IMap [])"

fun anyPatch :: "jsval \<Rightarrow> string list \<Rightarrow> op \<Rightarrow> jsval \<Rightarrow> error + jsval"
and mapPatch :: "jsval \<Rightarrow> string \<Rightarrow> string list \<Rightarrow> op \<Rightarrow> jsval \<Rightarrow> error + jsval"
and sequencePatch :: "jsval list \<Rightarrow> string \<Rightarrow> string list \<Rightarrow> op \<Rightarrow> jsval \<Rightarrow> error + jsval"
where
  "anyPatch (IList sequence) pathArray op val =
     (case pathArray of
        [] \<Rightarrow> Inr (IList sequence)
      | firstPath # restPath \<Rightarrow> sequencePatch sequence firstPath restPath op val)"
| "anyPatch (IMap mp) pathArray op val =
     (case pathArray of
        [] \<Rightarrow> Inr (IMap mp)
      | firstPath # restPath \<Rightarrow> mapPatch (IMap mp) firstPath restPath op val)"
| "anyPatch (IRecord name defaults values) pathArray op val =
     (case pathArray of
        [] \<Rightarrow> Inr (IRecord name defaults values)
      | firstPath # restPath \<Rightarrow> mapPatch (IRecord name defaults values) firstPath restPath op val)"
| "anyPatch Undefined pathArray op val =
     (if pathArray = [] then Inr val else Inr (primitivePatch op val))"
| "anyPatch Null pathArray op val =
     (if pathArray = [] then Inr val else Inr (primitivePatch op val))"
| "anyPatch (Bool b) pathArray op val =
     (if pathArray = [] then Inr val else Inr (primitivePatch op val))"
| "anyPatch (Num n) pathArray op val =
     (if pathArray = [] then Inr val else Inr (primitivePatch op val))"
| "anyPatch (Str s) pathArray op val =
     (if pathArray = [] then Inr val else Inr (primitivePatch op val))"
| "anyPatch (JArr ys) pathArray op val =
     (if pathArray = [] then Inr val else Inr (primitivePatch op val))"
| "anyPatch (JObj kvs) pathArray op val =
     (if pathArray = [] then Inr val else Inr (primitivePatch op val))"
| "mapPatch mp firstPath restPath op val =
     (if op = ''+'' then
        (if restPath \<noteq> [] \<and> keyed_get mp firstPath = Undefined
         then sum_bind (anyPatch (baseValue restPath) restPath op val) (keyed_set mp firstPath)
         else sum_bind (anyPatch (keyed_get mp firstPath) restPath op val) (keyed_set mp firstPath))
      else if op = ''!='' then
        (if restPath \<noteq> []
         then sum_bind (anyPatch (keyed_get mp firstPath) restPath op val) (keyed_set mp firstPath)
         else keyed_set mp firstPath val)
      else if op = ''-'' then
        (if restPath \<noteq> []
         then sum_bind (anyPatch (keyed_get mp firstPath) restPath op val) (keyed_set mp firstPath)
         else keyed_remove mp firstPath)
      else Inl (UnknownOp (''map patch Error, unknown op: '' @ op)))"
| "sequencePatch sequence firstPath0 restPath op val =
     (let firstPath = tryParseInt firstPath0 in
      if op = ''+'' then
        (if list_get sequence firstPath = Undefined then
           (if restPath \<noteq> []
            then map_sum id (\<lambda>c. IList (list_set sequence firstPath c))
                   (anyPatch (baseValue restPath) restPath op val)
            else if firstPath = TStr ''-'' then Inr (IList (list_push sequence val))
            else Inr (IList (list_set sequence firstPath val)))
         else if restPath \<noteq> []
         then map_sum id (\<lambda>c. IList (list_set sequence firstPath c))
                (anyPatch (list_get sequence firstPath) restPath op val)
         else Inr (IList (insertAt sequence firstPath val)))
      else if op = ''!='' then
        (if restPath \<noteq> []
         then map_sum id (\<lambda>c. IList (list_set sequence firstPath c))
                (anyPatch (list_get sequence firstPath) restPath op val)
         else Inr (IList (list_set sequence firstPath val)))
      else if op = ''-'' then
        (if restPath \<noteq> []
         then map_sum id (\<lambda>c. IList (list_set sequence firstPath c))
                (anyPatch (list_get sequence firstPath) restPath op val)
         else Inr (IList (removeAt sequence firstPath)))
      else Inl (UnknownOp (''sequence patch Error, unknown op: '' @ op)))"

text \<open>
  The contract of the keyed-container operation on an exhausted path, as the
  specification states it (section 4.3): add and replace map the key to the value,
  remove deletes the key.  It is stated on the abstraction \<open>map_of\<close> of the
  association list, which forgets the insertion order.
\<close>

definition keyed_contract :: "op \<Rightarrow> string \<Rightarrow> jsval \<Rightarrow> (string \<rightharpoonup> jsval) \<Rightarrow> (string \<rightharpoonup> jsval)" where
  "keyed_contract op k v f = (if op = ''-'' then f(k := None) else f(k \<mapsto> v))"

subsection \<open>Characteristic equations\<close>

lemma anyPatch_primitive [patch_simps]:
  "classify v = Primitive \<Longrightarrow>
   anyPatch v p op val = Inr (if p = [] then val else primitivePatch op val)"
  by (cases v) simp_all

lemma anyPatch_Nil [patch_simps]:
  "anyPatch v [] op val = Inr (if classify v = Primitive then val else v)"
  by (cases v) simp_all

lemma anyPatch_IList_Cons [patch_simps]:
  "anyPatch (IList s) (k # rest) op val = sequencePatch s k rest op val"
  by simp

lemma anyPatch_IMap_Cons [patch_simps]:
  "anyPatch (IMap m) (k # rest) op val = mapPatch (IMap m) k rest op val"
  by simp

lemma anyPatch_IRecord_Cons [patch_simps]:
  "anyPatch (IRecord n d m) (k # rest) op val = mapPatch (IRecord n d m) k rest op val"
  by simp

lemma baseValue_single [patch_simps]:
  "baseValue [s] = (if is_index_segment s then IList [] else IMap [])"
  by (simp add: baseValue_def)

lemma primitivePatch_known [patch_simps]:
  "primitivePatch ''+'' val = val" "primitivePatch ''!='' val = val"
  "primitivePatch ''-'' val = Null"
  by (simp_all add: primitivePatch_def)

text \<open>The leaf step of \<^verbatim>\<open>mapPatch\<close> (exhausted path) on a missing key, and its removal.\<close>

lemma mapPatch_add_missing_leaf:
  "map_of m k = None \<Longrightarrow> mapPatch (IMap m) k [] ''+'' val = Inr (IMap (m @ [(k, val)]))"
  by (simp add: map_get_None map_set_def update_append_notin)

lemma mapPatch_remove_leaf:
  "mapPatch (IMap m) k [] ''-'' val = Inr (IMap (AList.delete k m))"
  by (simp add: map_remove_def)

subsection \<open>The loops keep a property of the elements\<close>

lemma all_shiftRight: "list_all P s \<Longrightarrow> P Undefined \<Longrightarrow> list_all P (shiftRight s i t)"
proof (induction s i t rule: shiftRight.induct)
  case (1 s i t)
  then show ?case
    by (subst shiftRight.simps) (simp add: all_list_set pred_list_get)
qed

lemma all_shiftLeft: "list_all P s \<Longrightarrow> P Undefined \<Longrightarrow> list_all P (shiftLeft s i bound)"
proof (induction s i bound rule: shiftLeft.induct)
  case (1 s i bound)
  then show ?case
    by (subst shiftLeft.simps) (simp add: all_list_set pred_list_get)
qed

lemma pred_list_get_jsnum: "list_all P xs \<Longrightarrow> P Undefined \<Longrightarrow> P (list_get_jsnum xs x)"
proof -
  have "\<And>w. 0 \<le> w \<Longrightarrow> w < of_nat (length xs) \<Longrightarrow> nat \<lfloor>w :: rat\<rfloor> < length xs"
    by (simp add: nat_less_iff floor_less_iff)
  then show "list_all P xs \<Longrightarrow> P Undefined \<Longrightarrow> P (list_get_jsnum xs x)"
    by (auto simp: list_get_jsnum_def Let_def list_all_length split: jsnum.splits)
qed

lemma all_list_set_jsnum:
  "list_all P xs \<Longrightarrow> P v \<Longrightarrow> P Undefined \<Longrightarrow> list_all P (list_set_jsnum xs x v)"
  by (auto simp: list_set_jsnum_def list_set_front_def Let_def list_all_iff
           split: jsnum.splits dest: set_update_subset_insert [THEN subsetD])

lemma all_shiftLeft_num: "list_all P s \<Longrightarrow> P Undefined \<Longrightarrow> list_all P (shiftLeft_num s q bound)"
proof (induction s q bound rule: shiftLeft_num.induct)
  case (1 s q bound)
  then show ?case
    by (subst shiftLeft_num.simps) (simp add: all_list_set_jsnum pred_list_get_jsnum)
qed

lemma all_insertAt:
  "list_all P s \<Longrightarrow> P Undefined \<Longrightarrow> P (Num 0) \<Longrightarrow> P v \<Longrightarrow> list_all P (insertAt s t v)"
  by (simp add: insertAt_def Let_def all_list_set all_shiftRight all_list_push)

lemma all_removeAt: "list_all P s \<Longrightarrow> P Undefined \<Longrightarrow> list_all P (removeAt s t)"
  by (auto simp: removeAt_def Let_def all_list_setSize all_shiftLeft all_shiftLeft_num
           split: token.splits jsnum.splits)

lemmas all_sequence_ops = all_list_set pred_list_get all_list_push all_insertAt all_removeAt

subsection \<open>The patch functions never fail on a known operation, without records\<close>

lemma record_free_baseValue [simp]: "record_free (baseValue p)"
  by (simp add: baseValue_def)

lemma known_op_no_error:
  "op \<in> {''+'', ''!='', ''-''} \<Longrightarrow> record_free v \<Longrightarrow> \<not> isl (anyPatch v p op val)"
  "op \<in> {''+'', ''!='', ''-''} \<Longrightarrow> record_free mp \<Longrightarrow> classify mp = Keyed \<Longrightarrow>
   \<not> isl (mapPatch mp k rest op val)"
  "op \<in> {''+'', ''!='', ''-''} \<Longrightarrow> list_all record_free s \<Longrightarrow>
   \<not> isl (sequencePatch s k rest op val)"
proof (induction v p op val and mp k rest op val and s k rest op val
       rule: anyPatch_mapPatch_sequencePatch.induct)
  case (11 mp firstPath restPath op val)
  then show ?case
    by (auto simp: record_free_keyed_get keyed_set_record_free_no_error keyed_remove_no_error)
next
  case (12 sequence firstPath0 restPath op val)
  then show ?case by (auto simp: Let_def pred_list_get)
qed (auto split: list.splits)

subsection \<open>Well-formedness and the absence of records are preserved\<close>

lemma wf_baseValue [simp]: "wf (baseValue p)"
  by (simp add: baseValue_def)

lemma wf_primitivePatch: "wf val \<Longrightarrow> wf (primitivePatch op val)"
  by (simp add: primitivePatch_def)

lemma record_free_primitivePatch: "record_free val \<Longrightarrow> record_free (primitivePatch op val)"
  by (simp add: primitivePatch_def)

lemma wf_patch:
  "wf v \<Longrightarrow> wf val \<Longrightarrow> anyPatch v p op val = Inr r \<Longrightarrow> wf r"
  "wf mp \<Longrightarrow> wf val \<Longrightarrow> mapPatch mp k rest op val = Inr r \<Longrightarrow> wf r"
  "list_all wf s \<Longrightarrow> wf val \<Longrightarrow> sequencePatch s k rest op val = Inr r \<Longrightarrow> wf r"
proof (induction v p op val and mp k rest op val and s k rest op val
       arbitrary: r and r and r rule: anyPatch_mapPatch_sequencePatch.induct)
  case (11 mp firstPath restPath op val)
  then show ?case
    by (auto simp: wf_keyed_get dest: wf_keyed_set wf_keyed_remove split: if_splits)
next
  case (12 sequence firstPath0 restPath op val)
  then show ?case
    by (auto simp: Let_def all_sequence_ops split: if_splits)
qed (auto simp: wf_primitivePatch split: list.splits if_splits)

lemma record_free_patch:
  "record_free v \<Longrightarrow> record_free val \<Longrightarrow> anyPatch v p op val = Inr r \<Longrightarrow> record_free r"
  "record_free mp \<Longrightarrow> record_free val \<Longrightarrow> mapPatch mp k rest op val = Inr r \<Longrightarrow> record_free r"
  "list_all record_free s \<Longrightarrow> record_free val \<Longrightarrow> sequencePatch s k rest op val = Inr r \<Longrightarrow>
   record_free r"
proof (induction v p op val and mp k rest op val and s k rest op val
       arbitrary: r and r and r rule: anyPatch_mapPatch_sequencePatch.induct)
  case (11 mp firstPath restPath op val)
  then show ?case
    by (auto simp: record_free_keyed_get dest: record_free_keyed_set record_free_keyed_remove
             split: if_splits)
next
  case (12 sequence firstPath0 restPath op val)
  then show ?case
    by (auto simp: Let_def all_sequence_ops split: if_splits)
qed (auto simp: record_free_primitivePatch split: list.splits if_splits)

text \<open>A container stays a container of the same kind: the root is never replaced.\<close>

lemma classify_patch_container:
  "classify v \<noteq> Primitive \<Longrightarrow> anyPatch v p op val = Inr r \<Longrightarrow> classify r = classify v"
  by (cases v; cases p) (auto simp: Let_def dest: keyed_set_Keyed record_set_shape split: if_splits)

subsection \<open>Properties of the sequence operation\<close>

text \<open>
  C1. Adding at an index that holds an element, with the path exhausted, inserts the
  value before that element: the shift loop of \<^verbatim>\<open>sequencePatch\<close> computes list
  insertion \<open>take k s @ v # drop k s\<close>.
\<close>

theorem add_existing_index_inserts:
  assumes "k < length s" and "s ! k \<noteq> Undefined"
  shows "anyPatch (IList s) [decimal k] ''+'' v = Inr (IList (insert_nth k v s))"
  using assms by (simp add: list_get_nat insertAt_in_range)

theorem add_existing_index_inserts_witness:
  "1 < length [Num 1, Num 2, Num 3] \<and> [Num 1, Num 2, Num 3] ! 1 \<noteq> Undefined \<and>
   anyPatch (IList [Num 1, Num 2, Num 3]) [decimal 1] ''+'' (Num 9)
     = Inr (IList [Num 1, Num 9, Num 2, Num 3])"
  using add_existing_index_inserts [of 1 "[Num 1, Num 2, Num 3]" "Num 9"]
  by (simp add: insert_nth_def)

text \<open>
  C2. Removing an in-range index, with the path exhausted, deletes that element and
  shifts the rest left: the loop and \<^verbatim>\<open>setSize(size - 1)\<close> compute list deletion.
\<close>

theorem remove_in_range_shifts:
  assumes "k < length s"
  shows "anyPatch (IList s) [decimal k] ''-'' v = Inr (IList (remove_nth k s))"
  using assms by (simp add: removeAt_in_range)

theorem remove_in_range_shifts_witness:
  "0 < length [Num 1, Num 2, Num 3, Num 4] \<and>
   anyPatch (IList [Num 1, Num 2, Num 3, Num 4]) [decimal 0] ''-'' Undefined
     = Inr (IList [Num 2, Num 3, Num 4])"
  using remove_in_range_shifts [of 0 "[Num 1, Num 2, Num 3, Num 4]" Undefined]
  by (simp add: remove_nth_def)

text \<open>C7. Adding at the append sentinel \<open>-\<close> pushes the value at the end of the list.\<close>

theorem append_sentinel_pushes:
  "anyPatch (IList s) [''-''] ''+'' v = Inr (IList (s @ [v]))"
  by (simp add: list_push_def)

text \<open>
  Replacing an in-range index, with the path exhausted, overwrites that element in
  place: no shift, same length.
\<close>

theorem replace_in_range_overwrites:
  assumes "k < length s"
  shows "anyPatch (IList s) [decimal k] ''!='' v = Inr (IList (s[k := v]))"
  using assms by (simp add: list_set_nat)

theorem replace_in_range_overwrites_witness:
  "0 < length [Num 1, Num 2, Num 3] \<and>
   anyPatch (IList [Num 1, Num 2, Num 3]) [decimal 0] ''!='' (Num 10)
     = Inr (IList [Num 10, Num 2, Num 3])"
  using replace_in_range_overwrites [of 0 "[Num 1, Num 2, Num 3]" "Num 10"] by simp

text \<open>
  C9. Adding at an index at or past the end grows the list up to that index, filling
  the gap with holes that read as \<open>undefined\<close> (\<^verbatim>\<open>List.set\<close> past the end).  At
  index \<open>length s\<close> this is an append; past it, the list is grown, which the
  specification's "the sequence is not grown to make room" does not describe.
\<close>

theorem add_beyond_end_pads_holes:
  assumes "length s \<le> k"
  shows "anyPatch (IList s) [decimal k] ''+'' v
           = Inr (IList (s @ replicate (k - length s) Undefined @ [v]))"
  using assms by (simp add: list_get_beyond list_set_beyond)

theorem add_beyond_end_pads_holes_witness:
  "length [Num 1] \<le> 3 \<and>
   anyPatch (IList [Num 1]) [decimal 3] ''+'' (Num 9)
     = Inr (IList [Num 1, Undefined, Undefined, Num 9])"
  using add_beyond_end_pads_holes [of "[Num 1]" 3 "Num 9"] by (simp add: numeral_eq_Suc)

text \<open>
  C10. Removing at a segment that addresses no element does not leave the list alone:
  for an index past the end, or a segment \<^verbatim>\<open>parseInt\<close> rejects whose \<open>ToNumber\<close>
  is \<open>NaN\<close>, \<open>+Infinity\<close> or a number not below \<open>size - 1\<close>, the shift loop does
  not run and \<^verbatim>\<open>setSize(size - 1)\<close> drops the last element.
\<close>

theorem remove_unaddressed_drops_last:
  assumes "(\<exists>k. parseInt seg = Some (int k) \<and> length s \<le> k) \<or>
           (parseInt seg = None \<and>
            (toNumber seg = JNaN \<or> toNumber seg = JPosInf \<or>
             (\<exists>q. toNumber seg = JNum q \<and> of_nat (length s) - 1 \<le> q)))"
  shows "anyPatch (IList s) [seg] ''-'' v = Inr (IList (butlast s))"
proof -
  have "removeAt s (tryParseInt seg) = butlast s"
    using assms by (intro removeAt_no_shift) (auto simp: tryParseInt_def split: option.splits)
  then show ?thesis by simp
qed

theorem remove_unaddressed_drops_last_witness:
  "((\<exists>k. parseInt ''abc'' = Some (int k) \<and> length [Num 1, Num 2, Num 3] \<le> k) \<or>
    (parseInt ''abc'' = None \<and>
     (toNumber ''abc'' = JNaN \<or> toNumber ''abc'' = JPosInf \<or>
      (\<exists>q. toNumber ''abc'' = JNum q \<and> of_nat (length [Num 1, Num 2, Num 3]) - 1 \<le> q)))) \<and>
   anyPatch (IList [Num 1, Num 2, Num 3]) [''abc''] ''-'' Undefined = Inr (IList [Num 1, Num 2])"
proof -
  have p: "parseInt ''abc'' = None" by code_simp
  have t: "toNumber ''abc'' = JNaN" by code_simp
  show ?thesis
    using p t remove_unaddressed_drops_last [of "''abc''" "[Num 1, Num 2, Num 3]" Undefined]
    by simp
qed

text \<open>
  C21. A segment \<^verbatim>\<open>parseInt\<close> rejects but \<open>ToNumber\<close> reads as a number \<open>q\<close> with
  \<open>-1 \<le> q < size - 1\<close> (the empty string, white space, \<open>.5\<close>, \<open>-.5\<close>) removes the
  element at \<open>floor q + 1\<close>: the loop test converts the string, \<^verbatim>\<open>++i\<close> makes the
  counter \<open>q + 1\<close>, and the shift runs from there.  So \<open>-\<close> at the segment
  \<open>""\<close> on \<open>[a, b, c]\<close> removes \<open>b\<close>.
\<close>

theorem remove_numeric_string_shifts:
  assumes "parseInt seg = None" and "toNumber seg = JNum q"
    and "-1 \<le> q" and "q < of_nat (length s) - 1"
  shows "anyPatch (IList s) [seg] ''-'' v = Inr (IList (remove_nth (nat (\<lfloor>q\<rfloor> + 1)) s))"
proof -
  have "-1 \<le> \<lfloor>q\<rfloor>" using assms(3) by (simp add: le_floor_iff)
  moreover have "\<lfloor>q\<rfloor> < int (length s) - 1" using assms(4) by (simp add: floor_less_iff)
  ultimately have k: "\<lfloor>q\<rfloor> + 1 = int (nat (\<lfloor>q\<rfloor> + 1))" "nat (\<lfloor>q\<rfloor> + 1) < length s"
    by simp_all
  have "removeAt s (TStr seg) = removeAt s (TInt (\<lfloor>q\<rfloor> + 1))"
    using assms(2-4) by (intro removeAt_numeric_string) simp_all
  also have "\<dots> = remove_nth (nat (\<lfloor>q\<rfloor> + 1)) s"
    using removeAt_in_range [OF k(2)] k(1) by simp
  finally show ?thesis using assms(1) by (simp add: tryParseInt_def)
qed

theorem remove_numeric_string_shifts_witness:
  "parseInt '''' = None \<and> toNumber '''' = JNum 0 \<and> -1 \<le> (0::rat) \<and>
   (0::rat) < of_nat (length [Num 1, Num 2, Num 3]) - 1 \<and>
   anyPatch (IList [Num 1, Num 2, Num 3]) [''''] ''-'' Undefined = Inr (IList [Num 1, Num 3])"
proof -
  have p: "parseInt '''' = None" by code_simp
  have t: "toNumber '''' = JNum 0" by code_simp
  show ?thesis
    using p t remove_numeric_string_shifts [of "''''" 0 "[Num 1, Num 2, Num 3]" Undefined]
    by (simp add: remove_nth_def del: anyPatch.simps)
qed

text \<open>
  C22. A segment \<^verbatim>\<open>parseInt\<close> rejects addresses nothing in a list and raises no
  error either: \<^verbatim>\<open>get\<close> reads \<open>undefined\<close> and \<^verbatim>\<open>set\<close> ignores a non-index
  string, so add, replace and remove through it, and add or replace at it, return the
  list unchanged.  The exceptions are the end marker \<open>-\<close> of an add, and removal
  at the segment itself (C10, C21).
\<close>

theorem string_segment_ignored:
  assumes "parseInt seg = None" and "op \<in> {''+'', ''!='', ''-''}"
    and "(\<exists>r rs. rest = r # rs) \<or> op = ''!='' \<or> (op = ''+'' \<and> seg \<noteq> ''-'')"
  shows "anyPatch (IList s) (seg # rest) op v = Inr (IList s)"
proof -
  have t: "tryParseInt seg = TStr seg" using assms(1) by (simp add: tryParseInt_def)
  have "\<not> isl (anyPatch (baseValue rest) rest op v)"
    using assms(2) by (intro known_op_no_error(1)) simp_all
  then obtain r where "anyPatch (baseValue rest) rest op v = Inr r"
    by (cases "anyPatch (baseValue rest) rest op v") simp_all
  then show ?thesis
    using assms(2,3) t by (auto simp: anyPatch_primitive Let_def split: if_splits)
qed

theorem string_segment_ignored_witness:
  "parseInt ''x'' = None \<and> ''+'' \<in> {''+'', ''!='', ''-''} \<and>
   ((\<exists>r rs. [''0''] = r # rs) \<or> ''+'' = ''!='' \<or> (''+'' = ''+'' \<and> ''x'' \<noteq> ''-'')) \<and>
   anyPatch (IList [Num 1]) [''x'', ''0''] ''+'' (Num 2) = Inr (IList [Num 1])"
proof -
  have p: "parseInt ''x'' = None" by code_simp
  show ?thesis
    using p string_segment_ignored [of "''x''" "''+''" "[''0'']" "[Num 1]" "Num 2"]
    by (simp del: anyPatch.simps)
qed

text \<open>
  C20. A negative index \<open>-k\<close> is wrapped from the end by Immutable.js, and the shift
  loops then copy through the wrapped slots: for \<open>1 \<le> k \<le> size\<close>, remove takes out the
  element at \<open>size - k\<close> and then rotates the list left by one (\<open>[1, 2, 3]\<close> at
  \<open>-1\<close> becomes \<open>[2, 1]\<close>, not \<open>[1, 2]\<close>); add, when that slot holds a value,
  inserts before it and then rotates the list right by one, moving the last element to
  the front.
\<close>

theorem negative_index_rotates:
  assumes "1 \<le> k" and "k \<le> length s"
  shows "anyPatch (IList s) [''-'' @ decimal k] ''-'' v
           = Inr (IList (rotate1 (remove_nth (length s - k) s))) \<and>
         (s ! (length s - k) \<noteq> Undefined \<longrightarrow>
           anyPatch (IList s) [''-'' @ decimal k] ''+'' v
             = Inr (IList (last s # insert_nth (length s - k) v (butlast s))))"
proof -
  have g: "list_get s (TInt (- int k)) = s ! (length s - k)"
    using assms by (simp add: list_get_negative)
  show ?thesis using assms g by (simp add: removeAt_negative insertAt_negative)
qed

theorem negative_index_rotates_witness:
  "1 \<le> (2::nat) \<and> 2 \<le> length [Num 1, Num 2, Num 3, Num 4] \<and>
   anyPatch (IList [Num 1, Num 2, Num 3, Num 4]) [''-2''] ''-'' (Num 9) = Inr (IList [Num 2, Num 4, Num 1]) \<and>
   anyPatch (IList [Num 1, Num 2, Num 3, Num 4]) [''-2''] ''+'' (Num 9) = Inr (IList [Num 4, Num 1, Num 2, Num 9, Num 3])"
proof -
  have d: "''-'' @ decimal 2 = ''-2''" by code_simp
  show ?thesis
    using negative_index_rotates [of 2 "[Num 1, Num 2, Num 3, Num 4]" "Num 9", unfolded d]
    by (simp add: remove_nth_def insert_nth_def del: anyPatch.simps)
qed

text \<open>
  C23. Removing a negative index from an empty list makes the list longer: with the
  segment \<open>-k\<close> the first \<^verbatim>\<open>set\<close> wraps to \<open>-k\<close>, still negative, and prepends
  \<open>k\<close> holes, the rest of the loop copies holes onto holes, and
  \<^verbatim>\<open>setSize(-1)\<close> then cuts one slot from the end, leaving \<open>k - 1\<close> holes.
\<close>

theorem remove_negative_from_empty_grows:
  "anyPatch (IList []) [CHR ''-'' # decimal k] ''-'' v = Inr (IList (replicate (k - 1) Undefined))"
proof (cases "k \<le> 1")
  case True
  then have "shiftLeft [] (- int k) (-1) = []" by (subst shiftLeft.simps) simp
  with True show ?thesis by (simp add: removeAt_def list_setSize_def)
next
  case False
  then show ?thesis by (simp add: removeAt_def list_setSize_def shiftLeft_from_empty)
qed

subsection \<open>Properties of the keyed-container operation\<close>

text \<open>
  C11. On an exhausted path, \<^verbatim>\<open>mapPatch\<close> refines the keyed contract: seen through
  \<open>map_of\<close>, add and replace map the key to the value and remove deletes it, provided
  (for add) the key does not already hold a container.
\<close>

theorem map_exhausted_refines_contract:
  assumes "op \<in> {''+'', ''!='', ''-''}" and "op = ''+'' \<longrightarrow> classify (map_get m k) = Primitive"
  shows "\<exists>m'. anyPatch (IMap m) [k] op v = Inr (IMap m') \<and>
              map_of m' = keyed_contract op k v (map_of m)"
  using assms
  by (auto simp: keyed_contract_def map_of_map_set map_of_map_remove anyPatch_primitive)

theorem map_exhausted_refines_contract_witness:
  "''+'' \<in> {''+'', ''!='', ''-''} \<and>
   classify (map_get [(''a'', Num 1)] ''b'') = Primitive \<and>
   (\<exists>m'. anyPatch (IMap [(''a'', Num 1)]) [''b''] ''+'' (Num 2) = Inr (IMap m') \<and>
         map_of m' = keyed_contract ''+'' ''b'' (Num 2) (map_of [(''a'', Num 1)]))"
proof -
  have c: "classify (map_get [(''a'', Num 1)] ''b'') = Primitive"
    by (simp add: map_get_def)
  show ?thesis
    using c map_exhausted_refines_contract [of "''+''" "[(''a'', Num 1)]" "''b''" "Num 2"]
    by simp
qed

text \<open>
  C12. Adding at a key that already holds a container, with the path exhausted, changes
  nothing: \<^verbatim>\<open>anyPatch\<close> returns a container unchanged on an empty path, and
  \<^verbatim>\<open>mapPatch\<close> stores it back.  The specification says the key is set to the value.
\<close>

theorem add_on_container_key_is_noop:
  assumes "map_of m k = Some c" and "classify c \<noteq> Primitive"
  shows "anyPatch (IMap m) [k] ''+'' v = Inr (IMap m)"
proof -
  have "map_get m k = c" using assms(1) by (rule map_get_Some)
  with assms show ?thesis
    by (simp add: anyPatch_Nil map_set_def update_triv)
qed

theorem add_on_container_key_is_noop_witness:
  "map_of [(''b'', IMap [(''x'', Num 1)])] ''b'' = Some (IMap [(''x'', Num 1)]) \<and>
   classify (IMap [(''x'', Num 1)]) \<noteq> Primitive \<and>
   anyPatch (IMap [(''b'', IMap [(''x'', Num 1)])]) [''b''] ''+'' (Num 10)
     = Inr (IMap [(''b'', IMap [(''x'', Num 1)])])"
  using add_on_container_key_is_noop [of "[(''b'', IMap [(''x'', Num 1)])]" "''b''"
          "IMap [(''x'', Num 1)]" "Num 10"]
  by simp

text \<open>
  C13. Removing below a missing key does not leave the map alone: the missing child is
  \<open>undefined\<close>, \<^verbatim>\<open>primitivePatch\<close> returns \<open>null\<close> for it, and the key is
  created with value \<open>null\<close>.
\<close>

theorem remove_through_missing_key_sets_null:
  assumes "map_of m k = None" and "rest \<noteq> []"
  shows "anyPatch (IMap m) (k # rest) ''-'' u = Inr (IMap (m @ [(k, Null)]))"
  using assms
  by (simp add: map_get_None anyPatch_primitive primitivePatch_known map_set_def update_append_notin)

theorem remove_through_missing_key_sets_null_witness:
  "map_of [(''a'', Num 1)] ''b'' = None \<and> [''c''] \<noteq> [] \<and>
   anyPatch (IMap [(''a'', Num 1)]) [''b'', ''c''] ''-'' Undefined
     = Inr (IMap [(''a'', Num 1), (''b'', Null)])"
  using remove_through_missing_key_sets_null [of "[(''a'', Num 1)]" "''b''" "[''c'']" Undefined]
  by simp

text \<open>
  C14. Auto-vivification: adding two segments deep below a missing key creates the
  intermediate container from the next segment, a list when it matches
  \<^verbatim>\<open>/^\d+$/\<close> (the value lands at that index, holes before it) and a map otherwise.
\<close>

theorem autovivify_next_segment:
  assumes "map_get m k = Undefined"
  shows "anyPatch (IMap m) [k, seg] ''+'' v =
           Inr (IMap (map_set m k
             (if is_index_segment seg
              then IList (replicate (digits_value 10 seg) Undefined @ [v])
              else IMap [(seg, v)])))"
  using assms
  by (simp add: baseValue_single tryParseInt_index_segment list_get_beyond list_set_beyond
                map_get_def map_set_def)

theorem autovivify_next_segment_witness:
  "map_get [(''a'', Num 1)] ''b'' = Undefined \<and>
   anyPatch (IMap [(''a'', Num 1)]) [''b'', ''c''] ''+'' (Num 2)
     = Inr (IMap [(''a'', Num 1), (''b'', IMap [(''c'', Num 2)])])"
proof -
  have u: "map_get [(''a'', Num 1)] ''b'' = Undefined" by (simp add: map_get_def)
  have n: "\<not> is_index_segment ''c''" by (simp add: is_index_segment_def is_ascii_digit_def)
  show ?thesis
    using u n autovivify_next_segment [of "[(''a'', Num 1)]" "''b''" "''c''" "Num 2"]
    by (simp add: map_set_def)
qed

subsection \<open>Errors\<close>

text \<open>
  C15. An unknown operation that reaches a container with path left to consume is an
  \<^verbatim>\<open>Error\<close> thrown by \<^verbatim>\<open>mapPatch\<close> or \<^verbatim>\<open>sequencePatch\<close>.
\<close>

theorem unknown_op_container_error:
  assumes "op \<notin> {''+'', ''!='', ''-''}" and "classify v \<noteq> Primitive" and "p \<noteq> []"
  shows "\<exists>msg. anyPatch v p op val = Inl (UnknownOp msg)"
  using assms by (cases v; cases p) (auto simp: Let_def)

theorem unknown_op_container_error_witness:
  "''copy'' \<notin> {''+'', ''!='', ''-''} \<and> classify (IMap []) \<noteq> Primitive \<and> [''a''] \<noteq> [] \<and>
   (\<exists>msg. anyPatch (IMap []) [''a''] ''copy'' (Num 1) = Inl (UnknownOp msg))"
  using unknown_op_container_error [of "''copy''" "IMap []" "[''a'']" "Num 1"] by simp

text \<open>
  C16. The same unknown operation on a primitive is not an error: \<^verbatim>\<open>primitivePatch\<close>
  falls off its end and the result is \<open>undefined\<close>.  The specification calls an
  unrecognised operation fatal.
\<close>

theorem unknown_op_primitive_undefined:
  assumes "op \<notin> {''+'', ''!='', ''-''}" and "classify v = Primitive" and "p \<noteq> []"
  shows "anyPatch v p op val = Inr Undefined"
  using assms by (simp add: anyPatch_primitive primitivePatch_def)

theorem unknown_op_primitive_undefined_witness:
  "''copy'' \<notin> {''+'', ''!='', ''-''} \<and> classify (Num 3) = Primitive \<and> [''a''] \<noteq> [] \<and>
   anyPatch (Num 3) [''a''] ''copy'' (Num 1) = Inr Undefined"
  using unknown_op_primitive_undefined [of "''copy''" "Num 3" "[''a'']" "Num 1"] by simp

subsection \<open>Shape of the keyed operation on maps\<close>

text \<open>
  C33. Whatever the operation and the rest of the path, a patch below key \<open>k\<close> of a
  map that returns gives a map, and that map agrees with the input at every other key:
  \<^verbatim>\<open>mapPatch\<close> only ever sets or removes \<open>firstPath\<close>.
\<close>

theorem map_patch_touches_only_key:
  assumes "anyPatch (IMap m) (k # rest) op v = Inr r"
  shows "\<exists>m'. r = IMap m' \<and> (\<forall>k'. k' \<noteq> k \<longrightarrow> map_of m' k' = map_of m k')"
  using assms by (auto simp: map_of_map_set map_of_map_remove split: if_splits)

theorem map_patch_touches_only_key_witness:
  "anyPatch (IMap [(''a'', Num 1), (''b'', Num 2)]) [''a''] ''!='' (Num 9)
     = Inr (IMap [(''a'', Num 9), (''b'', Num 2)]) \<and>
   (\<exists>m'. IMap [(''a'', Num 9), (''b'', Num 2)] = IMap m' \<and>
         (\<forall>k'. k' \<noteq> ''a'' \<longrightarrow> map_of m' k' = map_of [(''a'', Num 1), (''b'', Num 2)] k'))"
proof -
  have run: "anyPatch (IMap [(''a'', Num 1), (''b'', Num 2)]) [''a''] ''!='' (Num 9)
     = Inr (IMap [(''a'', Num 9), (''b'', Num 2)])"
    by (simp add: map_set_def)
  show ?thesis using run map_patch_touches_only_key [OF run] by simp
qed

end
