(* ===== verification/Js_Conversion.thy ===== *)
theory Js_Conversion
  imports Immutable_Values
begin

text \<open>
  The conversions of Immutable.js (v3) between plain JavaScript values and immutable
  collections.  \<^verbatim>\<open>eachPatchInternal\<close> passes every patch value through
  \<^verbatim>\<open>Immutable.fromJS\<close> (line 123 of \<^verbatim>\<open>src/src/patch.js\<close>), and the test suite
  builds its inputs with it.  \<^verbatim>\<open>fromJS\<close> (\<^verbatim>\<open>fromJSDefault\<close>) turns an array into a
  \<^verbatim>\<open>List\<close> and a plain object into a \<^verbatim>\<open>Map\<close>, converting their elements, and
  returns every other value as it is: it does not look inside an immutable
  collection.  \<^verbatim>\<open>toJS\<close> goes the other way, into the elements that have a
  \<^verbatim>\<open>toJS\<close> method, so it does not look inside a plain array or object; a record becomes
  the object of its declared keys, each read through \<^verbatim>\<open>get\<close>.  The theory proves that
  the two are inverse on plain JSON values and on record-free immutable trees, and that
  \<^verbatim>\<open>fromJS\<close> keeps the invariant and the absence of records.
\<close>

fun fromJS :: "jsval \<Rightarrow> jsval" where
  "fromJS (JArr xs) = IList (map fromJS xs)"
| "fromJS (JObj kvs) = IMap (map (\<lambda>(k, v). (k, fromJS v)) kvs)"
| "fromJS v = v"

fun toJS :: "jsval \<Rightarrow> jsval" where
  "toJS (IList xs) = JArr (map toJS xs)"
| "toJS (IMap m) = JObj (map (\<lambda>(k, v). (k, toJS v)) m)"
| "toJS (IRecord n d m) =
     JObj (map (\<lambda>(k, dv). (k, case map_of (map (\<lambda>(k', v). (k', toJS v)) m) k of
                                 Some v' \<Rightarrow> v' | None \<Rightarrow> toJS dv)) d)"
| "toJS v = v"

text \<open>
  A plain JSON value (primitives, arrays and objects only), and an immutable tree
  (primitives, lists and maps only), the two sides of the round trip.
\<close>

fun is_json :: "jsval \<Rightarrow> bool" where
  "is_json (JArr xs) = list_all is_json xs"
| "is_json (JObj kvs) = list_all (\<lambda>kv. is_json (snd kv)) kvs"
| "is_json (IList xs) = False"
| "is_json (IMap m) = False"
| "is_json (IRecord n d m) = False"
| "is_json _ = True"

fun is_imm_tree :: "jsval \<Rightarrow> bool" where
  "is_imm_tree (IList xs) = list_all is_imm_tree xs"
| "is_imm_tree (IMap m) = list_all (\<lambda>kv. is_imm_tree (snd kv)) m"
| "is_imm_tree (IRecord n d m) = False"
| "is_imm_tree (JArr xs) = False"
| "is_imm_tree (JObj kvs) = False"
| "is_imm_tree _ = True"

subsection \<open>Lemmas\<close>

lemma fst_comp_map_pair [simp]: "fst \<circ> (\<lambda>(k, v). (k, f v)) = fst"
  by auto

lemma is_imm_tree_fromJS: "is_json j \<Longrightarrow> is_imm_tree (fromJS j)"
  by (induction j rule: fromJS.induct) (auto simp: list_all_iff)

lemma wf_fromJS: "wf v \<Longrightarrow> wf (fromJS v)"
  by (induction v rule: fromJS.induct) (auto simp: list_all_iff)

lemma record_free_fromJS: "record_free v \<Longrightarrow> record_free (fromJS v)"
  by (induction v rule: fromJS.induct) (auto simp: list_all_iff)

lemma toJS_fromJS: "is_json j \<Longrightarrow> toJS (fromJS j) = j"
proof (induction j rule: fromJS.induct)
  case (1 xs)
  then show ?case by (simp add: list_all_iff map_idI)
next
  case (2 kvs)
  then show ?case
    by (auto simp: list_all_iff intro!: map_idI)
qed simp_all

lemma fromJS_toJS: "is_imm_tree v \<Longrightarrow> fromJS (toJS v) = v"
proof (induction v rule: toJS.induct)
  case (1 xs)
  then show ?case by (simp add: list_all_iff map_idI)
next
  case (2 m)
  then show ?case
    by (auto simp: list_all_iff intro!: map_idI)
qed simp_all

subsection \<open>Round trip\<close>

text \<open>
  Round trip of the conversions: \<^verbatim>\<open>toJS\<close> gives back every plain JSON value
  that \<^verbatim>\<open>fromJS\<close> converted (so a patch value sent as JSON reads back unchanged), and
  \<^verbatim>\<open>fromJS\<close> rebuilds every record-free immutable tree from its \<^verbatim>\<open>toJS\<close> image.
\<close>

lemma fromJS_toJS_roundtrip:
  "(is_json j \<longrightarrow> toJS (fromJS j) = j) \<and> (is_imm_tree v \<longrightarrow> fromJS (toJS v) = v)"
  by (simp add: toJS_fromJS fromJS_toJS)

lemma fromJS_toJS_roundtrip_example:
  "is_json (JObj [(''a'', JArr [Num 1, Str ''x'']), (''b'', Null)]) \<and>
   fromJS (JObj [(''a'', JArr [Num 1, Str ''x'']), (''b'', Null)])
     = IMap [(''a'', IList [Num 1, Str ''x'']), (''b'', Null)] \<and>
   toJS (fromJS (JObj [(''a'', JArr [Num 1, Str ''x'']), (''b'', Null)]))
     = JObj [(''a'', JArr [Num 1, Str ''x'']), (''b'', Null)] \<and>
   is_imm_tree (IList [IMap [(''k'', Bool True)]]) \<and>
   fromJS (toJS (IList [IMap [(''k'', Bool True)]])) = IList [IMap [(''k'', Bool True)]]"
  using fromJS_toJS_roundtrip [of "JObj [(''a'', JArr [Num 1, Str ''x'']), (''b'', Null)]"
                                  "IList [IMap [(''k'', Bool True)]]"]
  by simp

end
