(* ===== verification/Batch.thy ===== *)
theory Batch
  imports Patch Js_Conversion
begin

text \<open>
  The batch applier of \<^verbatim>\<open>src/src/patch.js\<close>: \<^verbatim>\<open>eachPatchInternal\<close> (lines 120--126)
  folds \<^verbatim>\<open>anyPatch\<close> over the patches in order, threading the value, and the
  exported \<^verbatim>\<open>eachPatch\<close> (lines 128--138) runs it inside
  \<^verbatim>\<open>value.withMutations(...)\<close>, with a fast path for a single whole-value replace.
  Every patch value goes through \<^verbatim>\<open>Immutable.fromJS\<close> (\<open>fromJS\<close>, theory
  \<open>Js_Conversion\<close>) before \<^verbatim>\<open>anyPatch\<close> sees it; the fast path of \<^verbatim>\<open>eachPatch\<close>
  returns the raw value.
\<close>

record patch =
  patch_op :: op
  patch_path :: "string list"
  patch_value :: jsval

fun eachPatchInternal :: "jsval \<Rightarrow> patch list \<Rightarrow> error + jsval" where
  "eachPatchInternal val [] = Inr val"
| "eachPatchInternal val (p # patches) =
     (case anyPatch val (patch_path p) (patch_op p) (fromJS (patch_value p)) of
        Inl e \<Rightarrow> Inl e
      | Inr val' \<Rightarrow> eachPatchInternal val' patches)"

text \<open>
  \<^verbatim>\<open>withMutations(fn)\<close> of Immutable.js runs \<open>fn\<close> on a mutable copy of the
  collection and returns that copy; what \<open>fn\<close> returns is discarded.  The callback is
  modelled as returning the pair of its JavaScript return value and the final state of
  the copy.  A value without the method (a primitive, \<open>null\<close>, \<open>undefined\<close>) makes
  the call a \<^verbatim>\<open>TypeError\<close>.  In \<^verbatim>\<open>eachPatchInternal\<close>, every operation on the root
  (\<^verbatim>\<open>set\<close>, \<^verbatim>\<open>remove\<close>, \<^verbatim>\<open>push\<close>, \<^verbatim>\<open>setSize\<close>) mutates the copy in place and
  returns it, and \<^verbatim>\<open>anyPatch\<close> returns a container unchanged on an empty path, so the
  final state of the copy is the value the fold returns.
\<close>

definition withMutations :: "jsval \<Rightarrow> (jsval \<Rightarrow> error + (jsval \<times> jsval)) \<Rightarrow> error + jsval" where
  "withMutations v fn =
     (if classify v = Primitive then Inl (TypeError ''value.withMutations is not a function'')
      else map_sum id snd (fn v))"

definition eachPatch :: "jsval \<Rightarrow> patch list \<Rightarrow> error + jsval" where
  "eachPatch val patches =
     withMutations val (\<lambda>mutable.
       if length patches = 1 \<and> patch_op (hd patches) = ''!='' \<and> patch_path (hd patches) = []
       then Inr (patch_value (hd patches), mutable)
       else map_sum id (\<lambda>r. (r, r)) (eachPatchInternal mutable patches))"

subsection \<open>Lemmas on the fold\<close>

lemma eachPatch_container [patch_simps]:
  "classify v \<noteq> Primitive \<Longrightarrow>
   eachPatch v ps =
     (if length ps = 1 \<and> patch_op (hd ps) = ''!='' \<and> patch_path (hd ps) = []
      then Inr v else eachPatchInternal v ps)"
  by (cases "eachPatchInternal v ps") (auto simp: eachPatch_def withMutations_def)

lemma eachPatchInternal_wf:
  "wf v \<Longrightarrow> list_all (\<lambda>p. wf (patch_value p)) ps \<Longrightarrow> eachPatchInternal v ps = Inr r \<Longrightarrow> wf r"
proof (induction v ps rule: eachPatchInternal.induct)
  case (2 val p patches)
  then show ?case
    using wf_fromJS [of "patch_value p"] by (auto split: sum.splits dest: wf_patch(1))
qed simp

lemma eachPatchInternal_no_error:
  "list_all (\<lambda>p. patch_op p \<in> {''+'', ''!='', ''-''}) ps \<Longrightarrow> record_free v \<Longrightarrow>
   list_all (\<lambda>p. record_free (patch_value p)) ps \<Longrightarrow> \<not> isl (eachPatchInternal v ps)"
proof (induction v ps rule: eachPatchInternal.induct)
  case (2 val p patches)
  have op: "patch_op p \<in> {''+'', ''!='', ''-''}" and rv: "record_free (patch_value p)"
    and ops: "list_all (\<lambda>p. patch_op p \<in> {''+'', ''!='', ''-''}) patches"
    and rvs: "list_all (\<lambda>p. record_free (patch_value p)) patches"
    using "2.prems"(1,3) by simp_all
  have "\<not> isl (anyPatch val (patch_path p) (patch_op p) (fromJS (patch_value p)))"
    by (rule known_op_no_error(1) [OF op "2.prems"(2)])
  then obtain val' where step: "anyPatch val (patch_path p) (patch_op p) (fromJS (patch_value p)) = Inr val'"
    by (cases "anyPatch val (patch_path p) (patch_op p) (fromJS (patch_value p))") auto
  have "record_free val'"
    by (rule record_free_patch(1) [OF "2.prems"(2) record_free_fromJS [OF rv] step])
  with "2.IH" [OF step ops _ rvs] step show ?case by (simp del: anyPatch.simps)
qed simp

lemma eachPatchInternal_classify:
  "classify v \<noteq> Primitive \<Longrightarrow> eachPatchInternal v ps = Inr r \<Longrightarrow> classify r = classify v"
proof (induction v ps rule: eachPatchInternal.induct)
  case (2 val p patches)
  then obtain val' where
    step: "anyPatch val (patch_path p) (patch_op p) (fromJS (patch_value p)) = Inr val'" and
    rest: "eachPatchInternal val' patches = Inr r"
    by (auto split: sum.splits)
  from "2.prems"(1) step have "classify val' = classify val"
    by (rule classify_patch_container)
  with "2.IH" [OF step] "2.prems"(1) rest show ?case by simp
qed simp

subsection \<open>Properties of the batch applier\<close>

text \<open>
  C3. Key round trip: on a map without key \<open>k\<close>, a batch that adds \<open>k\<close> maps it to
  the value as \<^verbatim>\<open>Immutable.fromJS\<close> converts it (appended in insertion order), and
  adding then removing \<open>k\<close> in one batch gives back the original map.
\<close>

theorem add_remove_key_roundtrip:
  assumes "map_of m k = None"
  shows "eachPatch (IMap m) [\<lparr>patch_op = ''+'', patch_path = [k], patch_value = x\<rparr>]
           = Inr (IMap (m @ [(k, fromJS x)])) \<and>
         eachPatch (IMap m) [\<lparr>patch_op = ''+'', patch_path = [k], patch_value = x\<rparr>,
                             \<lparr>patch_op = ''-'', patch_path = [k], patch_value = u\<rparr>]
           = Inr (IMap m)"
proof -
  have add: "anyPatch (IMap m) [k] ''+'' (fromJS x) = Inr (IMap (m @ [(k, fromJS x)]))"
    using assms by (simp only: anyPatch_IMap_Cons mapPatch_add_missing_leaf)
  have del: "anyPatch (IMap (m @ [(k, fromJS x)])) [k] ''-'' (fromJS u) = Inr (IMap m)"
    using assms by (simp only: anyPatch_IMap_Cons mapPatch_remove_leaf delete_append_notin)
  show ?thesis
    by (simp add: eachPatch_container add del del: anyPatch.simps)
qed

theorem add_remove_key_roundtrip_witness:
  "map_of [(''a'', Num 1)] ''prop/prop'' = None \<and>
   eachPatch (IMap [(''a'', Num 1)])
     [\<lparr>patch_op = ''+'', patch_path = [''prop/prop''], patch_value = JArr [Num 4]\<rparr>]
     = Inr (IMap [(''a'', Num 1), (''prop/prop'', IList [Num 4])]) \<and>
   eachPatch (IMap [(''a'', Num 1)])
     [\<lparr>patch_op = ''+'', patch_path = [''prop/prop''], patch_value = JArr [Num 4]\<rparr>,
      \<lparr>patch_op = ''-'', patch_path = [''prop/prop''], patch_value = Undefined\<rparr>]
     = Inr (IMap [(''a'', Num 1)])"
  using add_remove_key_roundtrip [of "[(''a'', Num 1)]" "''prop/prop''" "JArr [Num 4]" Undefined]
  by simp

text \<open>
  Invariant of the association-list model: a batch applied to a value whose maps have
  distinct keys, with patch values of the same kind, yields a value whose maps have
  distinct keys, so the lists stand for the maps of Immutable.js.
\<close>

theorem eachPatch_preserves_wf:
  assumes "wf v" and "list_all (\<lambda>p. wf (patch_value p)) ps" and "eachPatch v ps = Inr r"
  shows "wf r"
proof (cases "classify v = Primitive")
  case True
  with assms(3) show ?thesis by (simp add: eachPatch_def withMutations_def)
next
  case False
  show ?thesis
  proof (cases "length ps = 1 \<and> patch_op (hd ps) = ''!='' \<and> patch_path (hd ps) = []")
    case True
    with False assms show ?thesis by (simp add: eachPatch_container)
  next
    case fast: False
    have "eachPatch v ps = eachPatchInternal v ps"
      using eachPatch_container [OF False] by (simp only: fast if_False)
    with assms(3) have "eachPatchInternal v ps = Inr r" by simp
    with assms(1,2) show ?thesis by (rule eachPatchInternal_wf)
  qed
qed

text \<open>
  C4. A batch whose operations are all add, replace or remove never throws when the
  root is a container and neither the root nor a patch value holds a record (only
  \<^verbatim>\<open>Record.set\<close> on an undeclared key can throw then).
\<close>

theorem known_ops_never_fail:
  assumes "classify v \<noteq> Primitive"
    and "list_all (\<lambda>p. patch_op p \<in> {''+'', ''!='', ''-''}) ps"
    and "record_free v" and "list_all (\<lambda>p. record_free (patch_value p)) ps"
  shows "\<not> isl (eachPatch v ps)"
  using assms eachPatchInternal_no_error [OF assms(2,3,4)]
  by (simp add: eachPatch_container)

theorem known_ops_never_fail_witness:
  "classify (IList []) \<noteq> Primitive \<and>
   list_all (\<lambda>p. patch_op p \<in> {''+'', ''!='', ''-''})
     [\<lparr>patch_op = ''-'', patch_path = [''7'', ''x''], patch_value = Undefined\<rparr>] \<and>
   record_free (IList []) \<and>
   list_all (\<lambda>p. record_free (patch_value p))
     [\<lparr>patch_op = ''-'', patch_path = [''7'', ''x''], patch_value = Undefined\<rparr>] \<and>
   \<not> isl (eachPatch (IList [])
     [\<lparr>patch_op = ''-'', patch_path = [''7'', ''x''], patch_value = Undefined\<rparr>])"
  using known_ops_never_fail [of "IList []"
      "[\<lparr>patch_op = ''-'', patch_path = [''7'', ''x''], patch_value = Undefined\<rparr>]"]
  by simp

text \<open>
  C5. The whole-value replace does not replace: \<^verbatim>\<open>withMutations\<close> discards the value
  the fast path returns, and the copy it returns was never changed, so a single
  \<open>replace\<close> at the empty path returns the original root.  The specification says the
  result is the patch's value.
\<close>

theorem root_replace_keeps_root:
  assumes "classify v \<noteq> Primitive"
  shows "eachPatch v [\<lparr>patch_op = ''!='', patch_path = [], patch_value = w\<rparr>] = Inr v"
  using assms by (simp add: eachPatch_container)

theorem root_replace_keeps_root_witness:
  "classify (IMap [(''a'', Num 1)]) \<noteq> Primitive \<and>
   eachPatch (IMap [(''a'', Num 1)])
     [\<lparr>patch_op = ''!='', patch_path = [], patch_value = IList [Num 10]\<rparr>]
     = Inr (IMap [(''a'', Num 1)])"
  using root_replace_keeps_root [of "IMap [(''a'', Num 1)]" "IList [Num 10]"] by simp

text \<open>
  C6. A primitive, \<open>null\<close> or \<open>undefined\<close> root cannot be patched at all, not even by
  the empty batch: \<^verbatim>\<open>value.withMutations\<close> is not a function on it.
\<close>

theorem primitive_root_type_error:
  assumes "classify v = Primitive"
  shows "eachPatch v ps = Inl (TypeError ''value.withMutations is not a function'')"
  using assms by (simp add: eachPatch_def withMutations_def)

theorem primitive_root_type_error_witness:
  "classify (Num 1) = Primitive \<and>
   eachPatch (Num 1) [] = Inl (TypeError ''value.withMutations is not a function'')"
  using primitive_root_type_error [of "Num 1" "[]"] by simp

text \<open>
  The fast path of \<^verbatim>\<open>eachPatch\<close> is redundant: on every input the exported
  function is the plain fold \<^verbatim>\<open>eachPatchInternal\<close> on a container root.
\<close>

theorem eachPatch_fast_path_redundant:
  "eachPatch v ps =
     (if classify v = Primitive then Inl (TypeError ''value.withMutations is not a function'')
      else eachPatchInternal v ps)"
proof (cases "classify v = Primitive")
  case True
  then show ?thesis by (simp add: eachPatch_def withMutations_def)
next
  case False
  then show ?thesis
    by (cases ps) (auto simp: eachPatch_container anyPatch_Nil)
qed

text \<open>
  Batch threading: running the concatenation of two batches is running the first
  and then the second on its result; an error of the first batch stops the run.
\<close>

theorem eachPatchInternal_append:
  "eachPatchInternal v (ps @ qs) =
     (case eachPatchInternal v ps of Inl e \<Rightarrow> Inl e | Inr w \<Rightarrow> eachPatchInternal w qs)"
  by (induction v ps rule: eachPatchInternal.induct) (auto split: sum.splits)

text \<open>The empty batch returns a container root unchanged.\<close>

theorem empty_batch_identity:
  assumes "classify v \<noteq> Primitive"
  shows "eachPatch v [] = Inr v"
  using assms by (simp add: eachPatch_container)

theorem empty_batch_identity_witness:
  "classify (IList [Num 1, Num 2, Num 3]) \<noteq> Primitive \<and>
   eachPatch (IList [Num 1, Num 2, Num 3]) [] = Inr (IList [Num 1, Num 2, Num 3])"
  using empty_batch_identity [of "IList [Num 1, Num 2, Num 3]"] by simp

text \<open>
  C18. The root keeps its kind: a batch applied to a list gives a list and a batch
  applied to a map gives a map.
\<close>

theorem root_kind_preserved:
  assumes "eachPatch v ps = Inr r"
  shows "classify r = classify v"
proof (cases "classify v = Primitive")
  case True
  with assms show ?thesis by (simp add: eachPatch_def withMutations_def)
next
  case False
  with assms show ?thesis
    by (auto simp: eachPatch_container split: if_splits intro: eachPatchInternal_classify)
qed

theorem root_kind_preserved_witness:
  "eachPatch (IMap []) [\<lparr>patch_op = ''+'', patch_path = [''a''], patch_value = IList []\<rparr>]
     = Inr (IMap [(''a'', IList [])]) \<and>
   classify (IMap [(''a'', IList [])]) = classify (IMap [])"
proof -
  have run: "eachPatch (IMap []) [\<lparr>patch_op = ''+'', patch_path = [''a''], patch_value = IList []\<rparr>]
     = Inr (IMap [(''a'', IList [])])"
    by code_simp
  show ?thesis using run root_kind_preserved [OF run] by simp
qed

text \<open>
  The specification's auto-vivification example on a list: adding at \<open>0\<close>, at
  \<open>1\<close> and at \<open>2/0\<close> of an empty list gives \<open>[1, 2, [3]]\<close>, the segment \<open>0\<close>
  after \<open>2\<close> making the created container a list.
\<close>

theorem spec_example_nested_list:
  "eachPatch (IList [])
     [\<lparr>patch_op = ''+'', patch_path = [''0''], patch_value = Num 1\<rparr>,
      \<lparr>patch_op = ''+'', patch_path = [''1''], patch_value = Num 2\<rparr>,
      \<lparr>patch_op = ''+'', patch_path = [''2'', ''0''], patch_value = Num 3\<rparr>]
     = Inr (IList [Num 1, Num 2, IList [Num 3]])"
  by code_simp

text \<open>
  The specification's threading example: adding \<open>a\<close> and then replacing it in the
  same batch leaves the replaced value.
\<close>

theorem spec_example_threading:
  "eachPatch (IMap [])
     [\<lparr>patch_op = ''+'', patch_path = [''a''], patch_value = Num 1\<rparr>,
      \<lparr>patch_op = ''!='', patch_path = [''a''], patch_value = Num 2\<rparr>]
     = Inr (IMap [(''a'', Num 2)])"
  by code_simp

end
