(* ===== verification/Path_Access.thy ===== *)
theory Path_Access
  imports Patch
begin

text \<open>
  Reading a value back along a path, and what the patch operations do to such reads.
  \<open>getIn\<close> follows a path the way \<^verbatim>\<open>anyPatch\<close> descends it: a list segment goes
  through \<^verbatim>\<open>tryParseInt\<close> and \<^verbatim>\<open>List.get\<close>, a map segment through
  \<^verbatim>\<open>Map.get\<close> or \<^verbatim>\<open>Record.get\<close>, and a primitive has nothing below it
  (Immutable's \<^verbatim>\<open>getIn\<close> with \<open>undefined\<close> as the default).  \<open>settable\<close> says a
  path ends at an existing slot: every list segment is a decimal index inside its list,
  every record segment a declared key, and every node above the end is a container.  The
  lemmas are the get-after-replace and frame laws of a path-addressed store.
\<close>

fun getIn :: "jsval \<Rightarrow> string list \<Rightarrow> jsval" where
  "getIn v [] = v"
| "getIn (IList xs) (k # ks) = getIn (list_get xs (tryParseInt k)) ks"
| "getIn (IMap m) (k # ks) = getIn (map_get m k) ks"
| "getIn (IRecord n d m) (k # ks) = getIn (record_get d m k) ks"
| "getIn v (k # ks) = Undefined"

fun settable :: "jsval \<Rightarrow> string list \<Rightarrow> bool" where
  "settable (IList xs) [k] = (is_index_segment k \<and> digits_value 10 k < length xs)"
| "settable (IMap m) [k] = True"
| "settable (IRecord n d m) [k] = record_has d k"
| "settable (IList xs) (k # ks) =
     (is_index_segment k \<and> digits_value 10 k < length xs \<and> settable (xs ! digits_value 10 k) ks)"
| "settable (IMap m) (k # ks) = settable (map_get m k) ks"
| "settable (IRecord n d m) (k # ks) = (record_has d k \<and> settable (record_get d m k) ks)"
| "settable v p = False"

subsection \<open>Lemmas\<close>

lemma map_get_map_set_same [simp]: "map_get (map_set m k c) k = c"
  by (simp add: map_get_def map_of_map_set)

lemma map_get_map_set_other [simp]: "k' \<noteq> k \<Longrightarrow> map_get (map_set m k c) k' = map_get m k'"
  by (simp add: map_get_def map_of_map_set)

lemma map_get_map_remove_same [simp]: "map_get (map_remove m k) k = Undefined"
  by (simp add: map_get_def map_of_map_remove)

lemma list_index_segment:
  assumes "is_index_segment k" and "digits_value 10 k < length xs"
  shows "list_get xs (tryParseInt k) = xs ! digits_value 10 k"
    and "list_set xs (tryParseInt k) c = xs[digits_value 10 k := c]"
  using assms by (simp_all add: tryParseInt_index_segment list_get_nat list_set_nat)

lemma settable_IMap_Cons:
  "p \<noteq> [] \<Longrightarrow> settable (IMap m) (k # p) = settable (map_get m k) p"
  by (cases p) simp_all

lemma settable_IRecord_Cons:
  "p \<noteq> [] \<Longrightarrow> settable (IRecord n d m) (k # p) = (record_has d k \<and> settable (record_get d m k) p)"
  by (cases p) simp_all

lemma settable_IList_Cons:
  "p \<noteq> [] \<Longrightarrow> settable (IList xs) (k # p) =
     (is_index_segment k \<and> digits_value 10 k < length xs \<and> settable (xs ! digits_value 10 k) p)"
  by (cases p) simp_all

text \<open>
  The replace and remove steps below a path with segments left: \<^verbatim>\<open>anyPatch\<close>
  patches the child and stores it back with \<^verbatim>\<open>set\<close>.
\<close>

lemma descend_step_IMap:
  "ks \<noteq> [] \<Longrightarrow> op \<in> {''!='', ''-''} \<Longrightarrow>
   anyPatch (IMap m) (k # ks) op w =
     map_sum id (\<lambda>c. IMap (map_set m k c)) (anyPatch (map_get m k) ks op w)"
  by auto

lemma descend_step_IRecord:
  "ks \<noteq> [] \<Longrightarrow> op \<in> {''!='', ''-''} \<Longrightarrow>
   anyPatch (IRecord n d m) (k # ks) op w =
     sum_bind (anyPatch (record_get d m k) ks op w) (record_set n d m k)"
  by auto

lemma getIn_record_set:
  assumes "record_set n d m k c = Inr r"
  shows "getIn r (k # q) = getIn c q"
proof -
  obtain m' where r: "r = IRecord n d m'" using record_set_shape [OF assms] by blast
  have "keyed_get r k = c" using assms keyed_get_set_same [of "IRecord n d m" k c r] by simp
  with r show ?thesis by simp
qed

lemma descend_step_IList:
  assumes "ks \<noteq> []" and "op \<in> {''!='', ''-''}"
    and "is_index_segment k" and "digits_value 10 k < length xs"
  shows "anyPatch (IList xs) (k # ks) op w =
           map_sum id (\<lambda>c. IList (xs[digits_value 10 k := c]))
             (anyPatch (xs ! digits_value 10 k) ks op w)"
  using assms by (auto simp: Let_def list_index_segment(1,2) [symmetric])

text \<open>
  Reading through a path one segment at a time, and what a settable path says of the
  nodes above its end.
\<close>

lemma getIn_Cons: "getIn v (x # q) = getIn (getIn v [x]) q"
  by (cases v; cases q) simp_all

lemma getIn_append: "getIn v (xs @ q) = getIn (getIn v xs) q"
proof (induction xs arbitrary: v)
  case (Cons x xs)
  then show ?case using getIn_Cons [of v x "xs @ q"] getIn_Cons [of v x xs] by simp
qed simp

lemma settable_not_Undefined: "settable v p \<Longrightarrow> v \<noteq> Undefined"
  by (cases p) auto

lemma settable_child: "settable v (x # p) \<Longrightarrow> p \<noteq> [] \<Longrightarrow> settable (getIn v [x]) p"
  by (cases v) (auto simp: settable_IList_Cons settable_IMap_Cons settable_IRecord_Cons
                           list_index_segment)

lemma settable_prefix: "settable v (xs @ p) \<Longrightarrow> p \<noteq> [] \<Longrightarrow> settable (getIn v xs) p"
proof (induction xs arbitrary: v)
  case (Cons x xs)
  then have "settable (getIn v [x]) (xs @ p)" using settable_child [of v x "xs @ p"] by simp
  with Cons.IH [OF _ Cons.prems(2)] show ?case using getIn_Cons [of v x xs] by simp
qed simp

text \<open>
  The add step below a path with segments left, at a child that is set: no
  auto-vivification, the child is patched and stored back as replace and remove do.
\<close>

lemma descend_step_add_IList:
  assumes "ks \<noteq> []" and "is_index_segment k" and "digits_value 10 k < length xs"
    and "xs ! digits_value 10 k \<noteq> Undefined"
  shows "anyPatch (IList xs) (k # ks) ''+'' w =
           map_sum id (\<lambda>c. IList (xs[digits_value 10 k := c]))
             (anyPatch (xs ! digits_value 10 k) ks ''+'' w)"
  using assms by (auto simp: Let_def list_index_segment(1,2) [symmetric])

lemma descend_step_add_keyed:
  "ks \<noteq> [] \<Longrightarrow> classify v = Keyed \<Longrightarrow> keyed_get v k \<noteq> Undefined \<Longrightarrow>
   anyPatch v (k # ks) ''+'' w = sum_bind (anyPatch (keyed_get v k) ks ''+'' w) (keyed_set v k)"
  by (cases v) auto

text \<open>
  One descent step of any known operation below a settable path: when the child's
  patch succeeds, the parent's does, and reads through the patched segment see the
  patched child.
\<close>

lemma descend_store:
  assumes "settable v (x # p)" and "p \<noteq> []" and "op \<in> {''+'', ''!='', ''-''}"
    and "anyPatch (getIn v [x]) p op w = Inr c"
  shows "\<exists>r. anyPatch v (x # p) op w = Inr r \<and> (\<forall>q. getIn r (x # q) = getIn c q)"
proof (cases v)
  case (IList xs)
  with assms(1,2) have ik: "is_index_segment x" and lt: "digits_value 10 x < length xs"
    and st: "settable (xs ! digits_value 10 x) p"
    by (simp_all add: settable_IList_Cons)
  have nu: "xs ! digits_value 10 x \<noteq> Undefined" using settable_not_Undefined [OF st] .
  have ch: "anyPatch (xs ! digits_value 10 x) p op w = Inr c"
    using assms(4) IList ik lt by (simp add: list_index_segment del: anyPatch.simps)
  have "anyPatch v (x # p) op w = Inr (IList (xs[digits_value 10 x := c]))"
    using assms(3) IList ch descend_step_IList [OF assms(2) _ ik lt, of op w]
          descend_step_add_IList [OF assms(2) ik lt nu, of w]
    by (auto simp del: anyPatch.simps)
  then show ?thesis using IList ik lt by (simp add: list_index_segment)
next
  case (IMap m)
  with assms(1,2) have st: "settable (map_get m x) p" by (simp add: settable_IMap_Cons)
  have nu: "keyed_get v x \<noteq> Undefined" using IMap settable_not_Undefined [OF st] by simp
  have ch: "anyPatch (map_get m x) p op w = Inr c" using assms(4) IMap by simp
  have "anyPatch v (x # p) op w = Inr (IMap (map_set m x c))"
    using assms(3) IMap ch descend_step_IMap [OF assms(2), of op m x w]
          descend_step_add_keyed [OF assms(2) _ nu, of w]
    by (auto simp del: anyPatch.simps)
  then show ?thesis using IMap by simp
next
  case (IRecord n d m)
  with assms(1,2) have hk: "record_has d x" and st: "settable (record_get d m x) p"
    by (simp_all add: settable_IRecord_Cons)
  have nu: "keyed_get v x \<noteq> Undefined" using IRecord settable_not_Undefined [OF st] by simp
  have ch: "anyPatch (record_get d m x) p op w = Inr c" using assms(4) IRecord by simp
  obtain r where r: "record_set n d m x c = Inr r" using record_set_declared [OF hk] by blast
  have "anyPatch v (x # p) op w = Inr r"
    using assms(3) IRecord ch r descend_step_IRecord [OF assms(2), of op n d m x w]
          descend_step_add_keyed [OF assms(2) _ nu, of w]
    by (auto simp del: anyPatch.simps)
  then show ?thesis using getIn_record_set [OF r] by blast
qed (use assms(1) in simp_all)

text \<open>
  Patching at a path through a settable prefix is patching the subtree the prefix
  reaches and storing it back: the result read at the prefix is the patched subtree.
\<close>

lemma patch_below_prefix:
  assumes "settable v (xs @ z # zs)" and "op \<in> {''+'', ''!='', ''-''}"
    and "anyPatch (getIn v xs) (z # zs) op w = Inr c"
  shows "\<exists>r. anyPatch v (xs @ z # zs) op w = Inr r \<and> getIn r xs = c"
  using assms(1,3)
proof (induction xs arbitrary: v)
  case (Cons x xs)
  have s1: "settable v (x # (xs @ z # zs))" using Cons.prems(1) by simp
  have st: "settable (getIn v [x]) (xs @ z # zs)" using settable_child [OF s1] by simp
  have "anyPatch (getIn (getIn v [x]) xs) (z # zs) op w = Inr c"
    using Cons.prems(2) getIn_Cons [of v x xs] by simp
  then obtain c' where c': "anyPatch (getIn v [x]) (xs @ z # zs) op w = Inr c'"
    and g: "getIn c' xs = c"
    using Cons.IH [OF st] by blast
  obtain r where "anyPatch v (x # (xs @ z # zs)) op w = Inr r" and "\<forall>q. getIn r (x # q) = getIn c' q"
    using descend_store [OF s1 _ assms(2) c'] by blast
  with g show ?case by auto
qed simp

text \<open>Every known operation along a settable path succeeds, records included.\<close>

lemma settable_patch_exists:
  "settable v p \<Longrightarrow> op \<in> {''+'', ''!='', ''-''} \<Longrightarrow> \<exists>r. anyPatch v p op w = Inr r"
proof (induction p arbitrary: v)
  case (Cons x p)
  show ?case
  proof (cases "p = []")
    case True
    then show ?thesis
      using Cons.prems by (cases v) (auto simp: Let_def list_index_segment record_set_def anyPatch_Nil)
  next
    case False
    obtain c where "anyPatch (getIn v [x]) p op w = Inr c"
      using Cons.IH [OF settable_child [OF Cons.prems(1) False] Cons.prems(2)] by blast
    then show ?thesis using descend_store [OF Cons.prems(1) False Cons.prems(2)] by blast
  qed
qed simp

text \<open>The last step of a path at a keyed container, a map or a record.\<close>

lemma getIn_Cons_keyed: "classify v = Keyed \<Longrightarrow> getIn v (y # ys) = getIn (keyed_get v y) ys"
  by (cases v) simp_all

lemma keyed_patch_step:
  "classify v = Keyed \<Longrightarrow> op \<in> {''+'', ''!='', ''-''} \<Longrightarrow> anyPatch v (z # zs) op w = Inr r \<Longrightarrow>
   (\<exists>c. keyed_set v z c = Inr r) \<or> keyed_remove v z = Inr r"
  by (cases v; cases zs) (auto split: if_splits)

lemma keyed_get_remove_other:
  "keyed_remove v k = Inr r \<Longrightarrow> k' \<noteq> k \<Longrightarrow> keyed_get r k' = keyed_get v k'"
  by (cases v) (auto simp: record_remove_def record_get_def map_get_def map_of_map_remove)

lemma list_get_update_other:
  "j \<noteq> i \<Longrightarrow> list_get (xs[i := c]) (TInt (int j)) = list_get xs (TInt (int j))"
  by (cases "j < length xs") (simp_all add: list_get_nat list_get_beyond)

text \<open>
  The last step of a patch at a fork: any known operation at a map or record keeps
  every other key; a replace at a list keeps every other index.
\<close>

lemma patch_fork_step:
  assumes "settable u (z # zs)" and "op \<in> {''+'', ''!='', ''-''}"
    and "anyPatch u (z # zs) op w = Inr c"
    and "(classify u = Keyed \<and> y \<noteq> z) \<or>
         (op = ''!='' \<and> classify u = Indexed \<and> is_index_segment y \<and>
          digits_value 10 y \<noteq> digits_value 10 z)"
  shows "getIn c (y # q) = getIn u (y # q)"
proof (cases "classify u = Keyed")
  case True
  with assms(4) have yz: "y \<noteq> z" by auto
  have "keyed_get c y = keyed_get u y \<and> classify c = Keyed"
    using keyed_patch_step [OF True assms(2,3)]
          keyed_get_set_other [OF _ yz] keyed_set_Keyed keyed_get_remove_other [OF _ yz] keyed_remove_Keyed
    by blast
  then show ?thesis using getIn_Cons_keyed [OF True] getIn_Cons_keyed [of c y q] by simp
next
  case False
  with assms(4) have iy: "is_index_segment y" and ne: "digits_value 10 y \<noteq> digits_value 10 z"
    and ix: "classify u = Indexed" and op: "op = ''!=''" by auto
  then obtain ys where u: "u = IList ys" by (cases u) simp_all
  with assms(1) have ik: "is_index_segment z" and lt: "digits_value 10 z < length ys"
    by (cases zs; simp)+
  obtain c' where c: "c = IList (ys[digits_value 10 z := c'])"
  proof (cases zs)
    case Nil
    then show ?thesis using that assms(3) op u ik lt by (auto simp: list_index_segment)
  next
    case (Cons z' zs')
    then have "Inr c = map_sum id (\<lambda>c. IList (ys[digits_value 10 z := c]))
                         (anyPatch (ys ! digits_value 10 z) zs ''!='' w)"
      using assms(3) op u descend_step_IList [of zs "''!=''" z ys w] ik lt by (simp del: anyPatch.simps)
    then show ?thesis using that by (cases "anyPatch (ys ! digits_value 10 z) zs ''!='' w") auto
  qed
  show ?thesis
    using c u ne list_get_update_other [OF ne, of ys c']
    by (simp add: tryParseInt_index_segment [OF iy])
qed

subsection \<open>Get after set, and the frame\<close>

text \<open>The last step of a replace: the slot it ends at reads back the new value.\<close>

lemma replace_leaf:
  assumes "settable u [k]"
  shows "\<exists>c. anyPatch u [k] ''!='' w = Inr c \<and> getIn c [k] = w"
proof (cases u)
  case (IRecord n d m)
  then obtain c where c: "record_set n d m k w = Inr c"
    using assms record_set_declared by fastforce
  then show ?thesis using IRecord getIn_record_set [OF c, of "[]"] by simp
qed (use assms in \<open>simp_all add: list_index_segment\<close>)

text \<open>
  C24. Get after replace: replacing at a settable path succeeds, and reading the path
  back gives the new value, through lists and maps alike.
\<close>

theorem replace_then_get:
  "settable v p \<Longrightarrow> \<exists>r. anyPatch v p ''!='' w = Inr r \<and> getIn r p = w"
proof -
  assume s: "settable v p"
  then have "p \<noteq> []" by (cases p) auto
  then obtain xs k where p: "p = xs @ [k]" by (cases p rule: rev_cases) auto
  have su: "settable (getIn v xs) [k]" using settable_prefix [of v xs "[k]"] s p by simp
  obtain c where c: "anyPatch (getIn v xs) [k] ''!='' w = Inr c" and g: "getIn c [k] = w"
    using replace_leaf [OF su] by blast
  have s': "settable v (xs @ [k])" using s p by simp
  obtain r where "anyPatch v (xs @ [k]) ''!='' w = Inr r" and "getIn r xs = c"
    using patch_below_prefix [OF s' _ c] by auto
  then show ?thesis using p g by (auto simp: getIn_append)
qed

theorem replace_then_get_witness:
  "settable (IMap [(''a'', IList [Num 1, IMap [(''b'', Num 2)]])]) [''a'', ''1'', ''b''] \<and>
   (\<exists>r. anyPatch (IMap [(''a'', IList [Num 1, IMap [(''b'', Num 2)]])]) [''a'', ''1'', ''b''] ''!='' (Num 7)
          = Inr r \<and> getIn r [''a'', ''1'', ''b''] = Num 7)"
proof -
  have s: "settable (IMap [(''a'', IList [Num 1, IMap [(''b'', Num 2)]])]) [''a'', ''1'', ''b'']"
    by (simp add: map_get_def is_index_segment_def is_ascii_digit_def digits_value_def
                  digit_value_def)
  show ?thesis using s replace_then_get [OF s] by blast
qed

text \<open>
  C25. Frame: a patch at a settable path does not change what is read along any other
  path that leaves it at a fork.  At a map or record, any known operation keeps every
  other key; at a list, a replace keeps every other decimal index (add and remove there
  shift the siblings, C8).
\<close>

theorem replace_frame:
  assumes "settable v (xs @ z # zs)" and "op \<in> {''+'', ''!='', ''-''}"
    and "(classify (getIn v xs) = Keyed \<and> y \<noteq> z) \<or>
         (op = ''!='' \<and> classify (getIn v xs) = Indexed \<and> is_index_segment y \<and>
          digits_value 10 y \<noteq> digits_value 10 z)"
    and "anyPatch v (xs @ z # zs) op w = Inr r"
  shows "getIn r (xs @ y # ys) = getIn v (xs @ y # ys)"
proof -
  have su: "settable (getIn v xs) (z # zs)" using settable_prefix [OF assms(1)] by simp
  obtain c where c: "anyPatch (getIn v xs) (z # zs) op w = Inr c"
    using settable_patch_exists [OF su assms(2)] by blast
  obtain r' where r': "anyPatch v (xs @ z # zs) op w = Inr r'" and g: "getIn r' xs = c"
    using patch_below_prefix [OF assms(1,2) c] by blast
  have "r = r'" using r' assms(4) by simp
  then show ?thesis
    using g patch_fork_step [OF su assms(2) c assms(3)] by (simp add: getIn_append)
qed

theorem replace_frame_witness:
  "settable (IList [IMap [(''a'', Num 1), (''b'', Num 2)]]) ([''0''] @ ''a'' # []) \<and> ''-'' \<in> {''+'', ''!='', ''-''} \<and>
   ((classify (getIn (IList [IMap [(''a'', Num 1), (''b'', Num 2)]]) [''0'']) = Keyed \<and> ''b'' \<noteq> ''a'') \<or>
    (''-'' = ''!='' \<and> classify (getIn (IList [IMap [(''a'', Num 1), (''b'', Num 2)]]) [''0'']) = Indexed \<and>
     is_index_segment ''b'' \<and> digits_value 10 ''b'' \<noteq> digits_value 10 ''a'')) \<and>
   anyPatch (IList [IMap [(''a'', Num 1), (''b'', Num 2)]]) ([''0''] @ ''a'' # []) ''-'' Null = Inr (IList [IMap [(''b'', Num 2)]]) \<and>
   getIn (IList [IMap [(''b'', Num 2)]]) ([''0''] @ ''b'' # []) = getIn (IList [IMap [(''a'', Num 1), (''b'', Num 2)]]) ([''0''] @ ''b'' # [])"
proof -
  have seg: "is_index_segment ''0''" "digits_value 10 ''0'' = 0"
    by (simp_all add: is_index_segment_def is_ascii_digit_def digits_value_def digit_value_def)
  have t: "tryParseInt ''0'' = TInt 0" using tryParseInt_index_segment [OF seg(1)] seg by simp
  have g: "getIn (IList [IMap [(''a'', Num 1), (''b'', Num 2)]]) [''0''] = IMap [(''a'', Num 1), (''b'', Num 2)]"
    by (simp add: t list_get_def wrapIndex_def)
  have s: "settable (IList [IMap [(''a'', Num 1), (''b'', Num 2)]]) ([''0''] @ ''a'' # [])" using seg by simp
  have f: "(classify (getIn (IList [IMap [(''a'', Num 1), (''b'', Num 2)]]) [''0'']) = Keyed \<and> ''b'' \<noteq> ''a'') \<or>
    (''-'' = ''!='' \<and> classify (getIn (IList [IMap [(''a'', Num 1), (''b'', Num 2)]]) [''0'']) = Indexed \<and>
     is_index_segment ''b'' \<and> digits_value 10 ''b'' \<noteq> digits_value 10 ''a'')"
    using g by simp
  have run: "anyPatch (IList [IMap [(''a'', Num 1), (''b'', Num 2)]]) ([''0''] @ ''a'' # []) ''-'' Null = Inr (IList [IMap [(''b'', Num 2)]])"
    by (simp add: t map_get_def map_set_def map_remove_def list_set_def list_get_def wrapIndex_def)
  have op: "''-'' \<in> {''+'', ''!='', ''-''}" by simp
  show ?thesis using s op f run replace_frame [OF s op f run, of "[]"] by simp
qed

text \<open>
  C26. Get after remove: removing at a settable path whose last container is keyed
  succeeds, and reading the path back gives what an unset key reads as: \<open>undefined\<close>
  in a map, the declared default in a record.
\<close>

theorem remove_then_get_default:
  assumes "settable v (xs @ [k])" and "classify (getIn v xs) = Keyed"
  shows "\<exists>r. anyPatch v (xs @ [k]) ''-'' u = Inr r \<and>
             getIn r (xs @ [k]) = (case getIn v xs of IRecord n d m \<Rightarrow> map_get d k | _ \<Rightarrow> Undefined)"
proof -
  have su: "settable (getIn v xs) [k]" using settable_prefix [OF assms(1)] by simp
  obtain c where c: "anyPatch (getIn v xs) [k] ''-'' u = Inr c"
    and g: "getIn c [k] = (case getIn v xs of IRecord n d m \<Rightarrow> map_get d k | _ \<Rightarrow> Undefined)"
    using su assms(2) by (cases "getIn v xs") (auto simp: record_remove_def record_get_remove_same)
  obtain r where "anyPatch v (xs @ [k]) ''-'' u = Inr r" and "getIn r xs = c"
    using patch_below_prefix [OF assms(1) _ c] by auto
  then show ?thesis using g by (auto simp: getIn_append)
qed

theorem remove_then_get_default_witness:
  "settable (IList [IRecord ''Point'' [(''x'', Num 0), (''y'', Num 0)] [(''x'', Num 5)]]) ([''0''] @ [''x'']) \<and>
   classify (getIn (IList [IRecord ''Point'' [(''x'', Num 0), (''y'', Num 0)] [(''x'', Num 5)]]) [''0'']) = Keyed \<and>
   (\<exists>r. anyPatch (IList [IRecord ''Point'' [(''x'', Num 0), (''y'', Num 0)] [(''x'', Num 5)]]) ([''0''] @ [''x'']) ''-'' Undefined = Inr r \<and>
        getIn r ([''0''] @ [''x'']) = Num 0)"
proof -
  have seg: "is_index_segment ''0''" "digits_value 10 ''0'' = 0"
    by (simp_all add: is_index_segment_def is_ascii_digit_def digits_value_def digit_value_def)
  have g: "getIn (IList [IRecord ''Point'' [(''x'', Num 0), (''y'', Num 0)] [(''x'', Num 5)]]) [''0''] = IRecord ''Point'' [(''x'', Num 0), (''y'', Num 0)] [(''x'', Num 5)]"
    using seg by (simp add: tryParseInt_index_segment list_get_def wrapIndex_def)
  have s: "settable (IList [IRecord ''Point'' [(''x'', Num 0), (''y'', Num 0)] [(''x'', Num 5)]]) ([''0''] @ [''x''])"
    using seg by (simp add: record_has_def)
  have t: "tryParseInt ''0'' = TInt 0" using seg by (simp add: tryParseInt_index_segment)
  show ?thesis using s g remove_then_get_default [OF s, of Undefined]
    by (simp add: t list_get_def list_set_def wrapIndex_def map_get_def record_has_def)
qed

subsection \<open>Get after add along a created path\<close>

lemma list_get_created_slot:
  "list_get (list_set [] (TInt (int n)) c) (TInt (int n)) = c"
  by (simp add: list_set_beyond list_get_nat nth_append)

text \<open>
  Adding along a path into the container \<^verbatim>\<open>baseValue\<close> creates for it builds every
  missing container below, and the path then reads back the value.
\<close>

lemma add_into_created:
  "\<exists>r. anyPatch (baseValue (k # rest)) (k # rest) ''+'' v = Inr r \<and> getIn r (k # rest) = v"
proof (induction rest arbitrary: k)
  case Nil
  show ?case
    by (auto simp: baseValue_def tryParseInt_index_segment list_get_created_slot list_get_beyond
                   map_get_def map_of_map_set)
next
  case (Cons k' rest')
  obtain c where c: "anyPatch (baseValue (k' # rest')) (k' # rest') ''+'' v = Inr c"
    and g: "getIn c (k' # rest') = v"
    using Cons.IH by blast
  show ?case
  proof (cases "is_index_segment k")
    case True
    then show ?thesis
      using c g by (auto simp: baseValue_def [of "k # _"] tryParseInt_index_segment
                               list_get_created_slot list_get_beyond)
  next
    case False
    then show ?thesis
      using c g by (auto simp: baseValue_def [of "k # _"] map_get_def map_of_map_set)
  qed
qed

text \<open>
  C32. Get after add at a missing key: adding below a key that a map does not hold
  succeeds, whatever the rest of the path, and reading the path back gives the value;
  the containers on the way are created as lists (holes before the index) or maps.
\<close>

theorem add_missing_key_then_get:
  assumes "map_get m k = Undefined"
  shows "\<exists>r. anyPatch (IMap m) (k # rest) ''+'' v = Inr r \<and> getIn r (k # rest) = v"
proof (cases rest)
  case Nil
  with assms show ?thesis by simp
next
  case (Cons k' rest')
  obtain c where c: "anyPatch (baseValue (k' # rest')) (k' # rest') ''+'' v = Inr c"
    and g: "getIn c (k' # rest') = v"
    using add_into_created by blast
  with assms Cons show ?thesis by simp
qed

theorem add_missing_key_then_get_witness:
  "map_get [(''a'', Num 1)] ''b'' = Undefined \<and>
   (\<exists>r. anyPatch (IMap [(''a'', Num 1)]) [''b'', ''2'', ''c''] ''+'' (Num 7) = Inr r \<and>
        getIn r [''b'', ''2'', ''c''] = Num 7)"
proof -
  have u: "map_get [(''a'', Num 1)] ''b'' = Undefined" by (simp add: map_get_def)
  show ?thesis using u add_missing_key_then_get [OF u, of "[''2'', ''c'']" "Num 7"] by simp
qed



subsection \<open>Add and remove at a list fork\<close>

text \<open>
  C8. Shift at a list fork: below a settable path, removing index \<open>i\<close> of the list the
  path reaches succeeds and leaves that list with element \<open>i\<close> taken out and the later
  ones moved down; adding at an index that holds an element inserts before it and moves
  the later ones up.  Everything above the list is kept, records included.
\<close>

theorem list_fork_shifts:
  assumes "settable v (xs @ [z])" and "getIn v xs = IList ys"
  shows "(\<exists>r. anyPatch v (xs @ [z]) ''-'' u = Inr r \<and>
              getIn r xs = IList (remove_nth (digits_value 10 z) ys)) \<and>
         (ys ! digits_value 10 z \<noteq> Undefined \<longrightarrow>
           (\<exists>r. anyPatch v (xs @ [z]) ''+'' u = Inr r \<and>
                getIn r xs = IList (insert_nth (digits_value 10 z) u ys)))"
proof -
  have "settable (IList ys) [z]" using settable_prefix [OF assms(1)] assms(2) by simp
  then have ik: "is_index_segment z" and lt: "digits_value 10 z < length ys" by simp_all
  have t: "tryParseInt z = TInt (int (digits_value 10 z))" by (rule tryParseInt_index_segment [OF ik])
  have rm: "anyPatch (getIn v xs) [z] ''-'' u = Inr (IList (remove_nth (digits_value 10 z) ys))"
    using assms(2) lt by (simp add: t removeAt_in_range)
  have ad: "ys ! digits_value 10 z \<noteq> Undefined \<Longrightarrow>
            anyPatch (getIn v xs) [z] ''+'' u = Inr (IList (insert_nth (digits_value 10 z) u ys))"
    using assms(2) lt by (simp add: t list_get_nat insertAt_in_range)
  show ?thesis
    using patch_below_prefix [OF assms(1) _ rm] patch_below_prefix [OF assms(1) _ ad] by simp
qed

theorem list_fork_shifts_witness:
  "settable (IMap [(''a'', IList [Num 1, Num 2, Num 3])]) ([''a''] @ [''1'']) \<and>
   getIn (IMap [(''a'', IList [Num 1, Num 2, Num 3])]) [''a''] = IList [Num 1, Num 2, Num 3] \<and>
   (\<exists>r. anyPatch (IMap [(''a'', IList [Num 1, Num 2, Num 3])]) ([''a''] @ [''1'']) ''-'' (Num 9) = Inr r \<and>
        getIn r [''a''] = IList [Num 1, Num 3]) \<and>
   (\<exists>r. anyPatch (IMap [(''a'', IList [Num 1, Num 2, Num 3])]) ([''a''] @ [''1'']) ''+'' (Num 9) = Inr r \<and>
        getIn r [''a''] = IList [Num 1, Num 9, Num 2, Num 3])"
proof -
  have seg: "is_index_segment ''1''" "digits_value 10 ''1'' = 1"
    by (simp_all add: is_index_segment_def is_ascii_digit_def digits_value_def digit_value_def)
  have s: "settable (IMap [(''a'', IList [Num 1, Num 2, Num 3])]) ([''a''] @ [''1''])"
    using seg by (simp add: map_get_def)
  have g: "getIn (IMap [(''a'', IList [Num 1, Num 2, Num 3])]) [''a''] = IList [Num 1, Num 2, Num 3]"
    by (simp add: map_get_def)
  show ?thesis
    using s g list_fork_shifts [OF s g, of "Num 9"] seg
    by (simp add: remove_nth_def insert_nth_def)
qed

end
