(* ===== verification/Records.thy ===== *)
theory Records
  imports Batch
begin

text \<open>
  Immutable.js records in the patch code.  \<^verbatim>\<open>anyPatch\<close> (lines 92--118 of
  \<^verbatim>\<open>src/src/patch.js\<close>) sends a record, like a map, to \<^verbatim>\<open>mapPatch\<close>, whose
  \<^verbatim>\<open>get\<close>, \<^verbatim>\<open>set\<close> and \<^verbatim>\<open>remove\<close> are then the record's own (see
  \<open>Immutable_Values\<close>): a record keeps its declared keys, so setting any other key
  throws and removing one is ignored.  This theory proves what that does to patches and
  batches: records keep their type, an undeclared key is an error for add and replace,
  and the only error a batch of known operations can raise is that one.
\<close>

subsection \<open>Errors of known operations\<close>

lemma known_op_error_unknown_key:
  "op \<in> {''+'', ''!='', ''-''} \<Longrightarrow> anyPatch v p op val = Inl e \<Longrightarrow> \<exists>msg. e = UnknownKey msg"
  "op \<in> {''+'', ''!='', ''-''} \<Longrightarrow> classify mp = Keyed \<Longrightarrow> mapPatch mp k rest op val = Inl e \<Longrightarrow>
   \<exists>msg. e = UnknownKey msg"
  "op \<in> {''+'', ''!='', ''-''} \<Longrightarrow> sequencePatch s k rest op val = Inl e \<Longrightarrow>
   \<exists>msg. e = UnknownKey msg"
proof (induction v p op val and mp k rest op val and s k rest op val
       arbitrary: e and e and e rule: anyPatch_mapPatch_sequencePatch.induct)
  case (11 mp firstPath restPath op val)
  then show ?case
    by (auto dest: keyed_set_error keyed_remove_Inl split: if_splits)
next
  case (12 sequence firstPath0 restPath op val)
  then show ?case by (auto simp: Let_def split: if_splits)
qed (auto split: list.splits if_splits)

lemma record_patch_shape:
  "anyPatch (IRecord n d m) p op val = Inr r \<Longrightarrow> \<exists>m'. r = IRecord n d m'"
  by (cases p) (auto simp: record_remove_def dest: record_set_shape split: if_splits)

lemma eachPatchInternal_record:
  "eachPatchInternal (IRecord n d m) ps = Inr r \<Longrightarrow> \<exists>m'. r = IRecord n d m'"
proof (induction ps arbitrary: m)
  case (Cons p ps)
  then obtain r1 where r1: "anyPatch (IRecord n d m) (patch_path p) (patch_op p) (fromJS (patch_value p)) = Inr r1"
    and rest: "eachPatchInternal r1 ps = Inr r"
    by (auto split: sum.splits simp del: anyPatch.simps)
  obtain m1 where "r1 = IRecord n d m1" using record_patch_shape [OF r1] by blast
  with Cons.IH rest show ?case by blast
qed auto

lemma eachPatchInternal_error_unknown_key:
  "list_all (\<lambda>p. patch_op p \<in> {''+'', ''!='', ''-''}) ps \<Longrightarrow> eachPatchInternal v ps = Inl e \<Longrightarrow>
   \<exists>msg. e = UnknownKey msg"
proof (induction v ps rule: eachPatchInternal.induct)
  case (2 val p patches)
  then show ?case
    using known_op_error_unknown_key(1) [of "patch_op p" val "patch_path p" "fromJS (patch_value p)"]
    by (auto split: sum.splits simp del: anyPatch.simps)
qed simp

subsection \<open>Properties\<close>

text \<open>
  C27. Add and replace at an undeclared key of a record throw the record's
  \<^verbatim>\<open>Error\<close>, whatever is left of the path: the key reads as \<open>undefined\<close>, the
  child is computed (auto-vivified for add), and \<^verbatim>\<open>set\<close> then refuses the key.  So
  does a remove below the key.  The specification promises that known operations do
  not fail.
\<close>

theorem undeclared_key_set_throws:
  assumes "\<not> record_has d k" and "op \<in> {''+'', ''!=''} \<or> (op = ''-'' \<and> rest \<noteq> [])"
  shows "anyPatch (IRecord n d m) (k # rest) op v =
           Inl (UnknownKey (''Cannot set unknown key '' @ [CHR 0x22] @ k @ [CHR 0x22] @ '' on '' @ n))"
proof -
  have g: "record_get d m k = Undefined" using assms(1) by (simp add: record_get_def)
  have known: "op \<in> {''+'', ''!='', ''-''}" using assms(2) by auto
  have "\<not> isl (anyPatch (baseValue rest) rest op v)"
    using known_op_no_error(1) [OF known record_free_baseValue] .
  then obtain c where c: "anyPatch (baseValue rest) rest op v = Inr c"
    by (cases "anyPatch (baseValue rest) rest op v") auto
  show ?thesis
    using assms g c by (auto simp: record_set_def anyPatch_primitive)
qed

theorem undeclared_key_set_throws_witness:
  "\<not> record_has [(''x'', Num 0)] ''z'' \<and>
   (''+'' \<in> {''+'', ''!=''} \<or> (''+'' = ''-'' \<and> [''a''] \<noteq> [])) \<and>
   anyPatch (IRecord ''Point'' [(''x'', Num 0)] []) [''z'', ''a''] ''+'' (Num 1) =
     Inl (UnknownKey ''Cannot set unknown key \"z\" on Point'')"
proof -
  have h: "\<not> record_has [(''x'', Num 0)] ''z''" by (simp add: record_has_def)
  show ?thesis
    using h undeclared_key_set_throws [of "[(''x'', Num 0)]" "''z''" "''+''" "[''a'']" "''Point''" "[]" "Num 1"]
    by simp
qed

text \<open>
  C28. Removing an undeclared key of a record, with the path exhausted, is silently
  ignored: \<^verbatim>\<open>Record.remove\<close> returns the record itself, where a map would lose
  the key and a set at the same key throws.
\<close>

theorem undeclared_key_remove_ignored:
  assumes "\<not> record_has d k"
  shows "anyPatch (IRecord n d m) [k] ''-'' u = Inr (IRecord n d m)"
  using assms by (simp add: record_remove_def)

theorem undeclared_key_remove_ignored_witness:
  "\<not> record_has [(''x'', Num 0)] ''z'' \<and>
   anyPatch (IRecord ''Point'' [(''x'', Num 0)] [(''x'', Num 3)]) [''z''] ''-'' Undefined =
     Inr (IRecord ''Point'' [(''x'', Num 0)] [(''x'', Num 3)])"
proof -
  have h: "\<not> record_has [(''x'', Num 0)] ''z''" by (simp add: record_has_def)
  show ?thesis
    using h undeclared_key_remove_ignored [OF h, of "''Point''" "[(''x'', Num 3)]" Undefined] by simp
qed

text \<open>
  C29. A batch applied to a record root yields a record of the same record type: the
  name and the declared keys with their defaults are those of the root, only the set
  values change.
\<close>

theorem record_batch_keeps_type:
  "eachPatch (IRecord n d m) ps = Inr r \<Longrightarrow> \<exists>m'. r = IRecord n d m'"
  by (auto simp: eachPatch_container split: if_splits dest: eachPatchInternal_record)

theorem record_batch_keeps_type_witness:
  "eachPatch (IRecord ''Point'' [(''x'', Num 0), (''y'', Num 0)] [])
     [\<lparr>patch_op = ''!='', patch_path = [''x''], patch_value = Num 5\<rparr>]
     = Inr (IRecord ''Point'' [(''x'', Num 0), (''y'', Num 0)] [(''x'', Num 5)]) \<and>
   (\<exists>m'. IRecord ''Point'' [(''x'', Num 0), (''y'', Num 0)] [(''x'', Num 5)]
          = IRecord ''Point'' [(''x'', Num 0), (''y'', Num 0)] m')"
proof -
  have run: "eachPatch (IRecord ''Point'' [(''x'', Num 0), (''y'', Num 0)] [])
     [\<lparr>patch_op = ''!='', patch_path = [''x''], patch_value = Num 5\<rparr>]
     = Inr (IRecord ''Point'' [(''x'', Num 0), (''y'', Num 0)] [(''x'', Num 5)])"
    by code_simp
  show ?thesis using run record_batch_keeps_type [OF run] by simp
qed

text \<open>
  C30. The only error a batch of add, replace and remove operations on a container
  root can raise is the record's unknown-key \<^verbatim>\<open>Error\<close>: the patch code's own
  unknown-operation errors and the \<^verbatim>\<open>TypeError\<close>s cannot occur.
\<close>

theorem batch_errors_are_unknown_keys:
  assumes "classify v \<noteq> Primitive"
    and "list_all (\<lambda>p. patch_op p \<in> {''+'', ''!='', ''-''}) ps"
    and "eachPatch v ps = Inl e"
  shows "\<exists>msg. e = UnknownKey msg"
  using assms eachPatchInternal_error_unknown_key [OF assms(2)]
  by (auto simp: eachPatch_container split: if_splits)

theorem batch_errors_are_unknown_keys_witness:
  "classify (IRecord ''Point'' [(''x'', Num 0)] []) \<noteq> Primitive \<and>
   list_all (\<lambda>p. patch_op p \<in> {''+'', ''!='', ''-''})
     [\<lparr>patch_op = ''+'', patch_path = [''z''], patch_value = Num 1\<rparr>] \<and>
   eachPatch (IRecord ''Point'' [(''x'', Num 0)] [])
     [\<lparr>patch_op = ''+'', patch_path = [''z''], patch_value = Num 1\<rparr>]
     = Inl (UnknownKey ''Cannot set unknown key \"z\" on Point'') \<and>
   (\<exists>msg. UnknownKey ''Cannot set unknown key \"z\" on Point'' = UnknownKey msg)"
proof -
  have run: "eachPatch (IRecord ''Point'' [(''x'', Num 0)] [])
     [\<lparr>patch_op = ''+'', patch_path = [''z''], patch_value = Num 1\<rparr>]
     = Inl (UnknownKey ''Cannot set unknown key \"z\" on Point'')"
    by code_simp
  show ?thesis
    using run batch_errors_are_unknown_keys [of "IRecord ''Point'' [(''x'', Num 0)] []" _ , OF _ _ run]
    by simp
qed

end
