(* ===== verification/Batch_Steps.thy ===== *)
theory Batch_Steps
  imports Batch
begin

text \<open>
  The loop of \<^verbatim>\<open>eachPatchInternal\<close> (lines 121--124 of \<^verbatim>\<open>src/src/patch.js\<close>)
  as a small-step transition system: a state is the current value and the patches
  still to apply, and one step is one iteration of \<^verbatim>\<open>for (const patch of patches)\<close>,
  which replaces the value by what \<^verbatim>\<open>anyPatch\<close> returns.  An iteration whose
  \<^verbatim>\<open>anyPatch\<close> throws has no step.  The theory proves that the fold
  \<open>eachPatchInternal\<close> refines this system and that, without records, every run
  of known operations reaches the final state.
\<close>

type_synonym batch_state = "jsval \<times> patch list"

inductive batch_step :: "batch_state \<Rightarrow> batch_state \<Rightarrow> bool" where
  apply_patch:
    "anyPatch v (patch_path p) (patch_op p) (fromJS (patch_value p)) = Inr v' \<Longrightarrow>
     batch_step (v, p # ps) (v', ps)"

code_pred batch_step .

inductive_cases batch_step_NilE [elim!]: "batch_step (v, []) t"
inductive_cases batch_step_ConsE: "batch_step (v, p # ps) t"
inductive_simps batch_step_Cons_simps: "batch_step (v, p # ps) t"

subsection \<open>Steps and the fold\<close>

lemma batch_step_deterministic: "batch_step s t \<Longrightarrow> batch_step s u \<Longrightarrow> t = u"
  by (induction rule: batch_step.induct) (auto elim: batch_step_ConsE)

lemma batch_step_eachPatchInternal:
  "batch_step (v, ps) (v', ps') \<Longrightarrow> eachPatchInternal v ps = eachPatchInternal v' ps'"
  by (erule batch_step.cases) (simp del: anyPatch.simps)

lemma eachPatchInternal_reaches:
  "eachPatchInternal v ps = Inr r \<Longrightarrow> batch_step\<^sup>*\<^sup>* (v, ps) (r, [])"
proof (induction v ps rule: eachPatchInternal.induct)
  case (2 val p patches)
  then obtain val' where step: "anyPatch val (patch_path p) (patch_op p) (fromJS (patch_value p)) = Inr val'"
    and rest: "eachPatchInternal val' patches = Inr r"
    by (auto split: sum.splits simp del: anyPatch.simps)
  have st: "batch_step (val, p # patches) (val', patches)" using step by (rule apply_patch)
  show ?case by (rule converse_rtranclp_into_rtranclp [OF st "2.IH" [OF step rest]])
qed simp

lemma reaches_eachPatchInternal:
  "batch_step\<^sup>*\<^sup>* s t \<Longrightarrow> eachPatchInternal (fst s) (snd s) = eachPatchInternal (fst t) (snd t)"
proof (induction rule: rtranclp_induct)
  case (step t u)
  then show ?case
    using batch_step_eachPatchInternal [of "fst t" "snd t" "fst u" "snd u"] by simp
qed simp

subsection \<open>Properties\<close>

text \<open>
  Refinement: the fold \<^verbatim>\<open>eachPatchInternal\<close> returns \<open>r\<close> exactly when the
  iterations of its loop lead from the value and the whole batch to \<open>r\<close> with no patch
  left.
\<close>

theorem eachPatchInternal_refines_steps:
  "eachPatchInternal v ps = Inr r \<longleftrightarrow> batch_step\<^sup>*\<^sup>* (v, ps) (r, [])"
proof
  assume "eachPatchInternal v ps = Inr r"
  then show "batch_step\<^sup>*\<^sup>* (v, ps) (r, [])" by (rule eachPatchInternal_reaches)
next
  assume "batch_step\<^sup>*\<^sup>* (v, ps) (r, [])"
  then show "eachPatchInternal v ps = Inr r"
    using reaches_eachPatchInternal by fastforce
qed

end
