(* ===== verification/Immutable_Equality.thy ===== *)
theory Immutable_Equality
  imports Immutable_Values
begin

text \<open>
  \<^verbatim>\<open>Immutable.is(a, b)\<close> of Immutable.js v3, the equality the test suite asserts
  with.  Two values are \<^verbatim>\<open>is\<close>-equal when they are \<^verbatim>\<open>===\<close> (for primitives
  value equality; for plain arrays and objects reference identity, read as equality of
  values as elsewhere in the model), or when both are collections and \<^verbatim>\<open>deepEqual\<close>
  holds: the same keyed/indexed kind, the same size, and
  \<^item> for ordered collections (a \<^verbatim>\<open>List\<close>) the elements \<^verbatim>\<open>is\<close>-equal in order;
  \<^item> for unordered keyed ones (a \<^verbatim>\<open>Map\<close>, or a record, which is a keyed collection of
    its declared keys) every entry \<open>(k, v)\<close> of the second has
    \<^verbatim>\<open>is(a.get(k, NOT_SET), v)\<close>, a missing key never matching.
  So map equality does not depend on insertion order, and a record equals a map or a
  record of another type with the same entries.
\<close>

fun keyed_entries :: "jsval \<Rightarrow> (string \<times> jsval) list" where
  "keyed_entries (IMap m) = m"
| "keyed_entries (IRecord n d m) = map (\<lambda>(k, dv). (k, record_get d m k)) d"
| "keyed_entries v = []"

fun list_elems :: "jsval \<Rightarrow> jsval list" where
  "list_elems (IList xs) = xs"
| "list_elems v = []"

function imm_is :: "jsval \<Rightarrow> jsval \<Rightarrow> bool" where
  "imm_is v w =
     (if classify v = Indexed \<and> classify w = Indexed
      then length (list_elems v) = length (list_elems w) \<and>
           (\<forall>p \<in> set (zip (list_elems v) (list_elems w)). imm_is (fst p) (snd p))
      else if classify v = Keyed \<and> classify w = Keyed
      then length (keyed_entries v) = length (keyed_entries w) \<and>
           (\<forall>kv \<in> set (keyed_entries w).
              case map_of (keyed_entries v) (fst kv) of
                None \<Rightarrow> False
              | Some x \<Rightarrow> imm_is x (snd kv))
      else v = w)"
  by auto
termination
proof -
  text \<open>The children \<^verbatim>\<open>deepEqual\<close> compares are smaller than their collection.\<close>
  have ml: "\<And>m k x. map_of m k = Some x \<Longrightarrow> size x < Suc (size_list (size_prod (\<lambda>x. 0) size) m)"
    by (auto dest!: map_of_SomeD split_list simp: size_list_append)
  have kl: "\<And>v k x. map_of (keyed_entries v) k = Some x \<Longrightarrow> size x < size v"
  proof -
    fix v k x
    assume kx: "map_of (keyed_entries v) k = Some x"
    show "size x < size v"
    proof (cases v)
      case (IMap m)
      with kx ml show ?thesis by simp
    next
      case (IRecord n d m)
      with kx have x: "x = record_get d m k" by (auto dest!: map_of_SomeD)
      show ?thesis
        unfolding IRecord x record_get_def map_get_def by (auto split: option.splits dest!: ml)
    qed (use kx in simp_all)
  qed
  have ll: "\<And>v w p. p \<in> set (zip (list_elems v) (list_elems w)) \<Longrightarrow> size (fst p) < size v"
  proof -
    fix v w :: jsval and p :: "jsval \<times> jsval"
    assume "p \<in> set (zip (list_elems v) (list_elems w))"
    then have el: "fst p \<in> set (list_elems v)"
      using set_zip_leftD [of "fst p" "snd p" "list_elems v" "list_elems w"] by simp
    then obtain xs where "v = IList xs" by (cases v) simp_all
    with el show "size (fst p) < size v" by (auto dest!: split_list simp: size_list_append)
  qed
  show ?thesis
    by (relation "measure (\<lambda>(v, w). size v)") (auto dest: kl ll)
qed

declare imm_is.simps [simp del]

subsection \<open>The two cases of \<^verbatim>\<open>deepEqual\<close>\<close>

lemma imm_is_lists: "imm_is (IList xs) (IList ys) = list_all2 imm_is xs ys"
  by (subst imm_is.simps) (auto simp: list_all2_iff)

lemma imm_is_keyed:
  assumes "classify v = Keyed" and "classify w = Keyed"
  shows "imm_is v w =
           (length (keyed_entries v) = length (keyed_entries w) \<and>
            (\<forall>kv \<in> set (keyed_entries w). \<exists>x. map_of (keyed_entries v) (fst kv) = Some x \<and>
                                              imm_is x (snd kv)))"
  using assms by (subst imm_is.simps) (auto split: option.splits)

lemma imm_is_primitive:
  "classify v = Primitive \<or> classify w = Primitive \<Longrightarrow> imm_is v w = (v = w)"
  by (subst imm_is.simps) auto

lemma imm_is_classify: "imm_is v w \<Longrightarrow> classify v = classify w"
  by (subst (asm) imm_is.simps) (auto split: if_splits)

lemma classify_Indexed: "classify v = Indexed \<Longrightarrow> \<exists>xs. v = IList xs"
  by (cases v) simp_all

lemma classify_cases [case_names Indexed Keyed Primitive]:
  obtains xs where "v = IList xs" | "classify v = Keyed" | "classify v = Primitive"
  by (cases v) auto

subsection \<open>Entries of keyed values\<close>

lemma keyed_entries_smaller: "kv \<in> set (keyed_entries v) \<Longrightarrow> size (snd kv) < size v"
proof (cases v)
  case (IMap m)
  assume "kv \<in> set (keyed_entries v)"
  with IMap show ?thesis by (cases kv) (auto dest!: split_list simp: size_list_append)
next
  case (IRecord n d m)
  assume "kv \<in> set (keyed_entries v)"
  with IRecord obtain k dv where "(k, dv) \<in> set d" and kv: "kv = (k, record_get d m k)" by auto
  then show ?thesis using IRecord
    by (auto simp: record_get_def map_get_def split: option.splits
             dest!: map_of_SomeD split_list simp: size_list_append)
qed simp_all

lemma keyed_entries_wf: "wf v \<Longrightarrow> kv \<in> set (keyed_entries v) \<Longrightarrow> wf (snd kv)"
  by (cases v) (auto simp: list_all_iff intro: pred_keyed_get)

lemma keyed_entries_distinct: "wf v \<Longrightarrow> distinct (map fst (keyed_entries v))"
  by (cases v) (simp_all add: case_prod_beta comp_def)

lemma keyed_entries_lookup:
  "wf v \<Longrightarrow> kv \<in> set (keyed_entries v) \<Longrightarrow> map_of (keyed_entries v) (fst kv) = Some (snd kv)"
  using keyed_entries_distinct [of v] by (cases kv) simp

text \<open>Equal sizes and one key set inside the other make the key sets equal.\<close>

lemma keys_eq_of_subset:
  assumes "distinct (map fst a)" and "distinct (map fst b)" and "length a = length b"
    and "fst ` set b \<subseteq> fst ` set a"
  shows "fst ` set a = fst ` set b"
proof -
  have "card (fst ` set a) = length a" using distinct_card [OF assms(1)] by simp
  moreover have "card (fst ` set b) = length b" using distinct_card [OF assms(2)] by simp
  ultimately have "card (fst ` set a) = card (fst ` set b)" using assms(3) by simp
  with assms(4) show ?thesis using card_subset_eq [of "fst ` set a" "fst ` set b"] by simp
qed

lemma list_elem_smaller: "x \<in> set xs \<Longrightarrow> size x < size (IList xs)"
  by (auto dest!: split_list simp: size_list_append)

subsection \<open>\<^verbatim>\<open>Immutable.is\<close> is an equivalence on well-formed values\<close>

lemma imm_is_refl: "wf v \<Longrightarrow> imm_is v v"
proof (induction v rule: measure_induct_rule [of size])
  case (less v)
  show ?case
  proof (cases v rule: classify_cases)
    case (Indexed xs)
    have "list_all2 imm_is xs xs"
    proof (rule list.rel_refl_strong)
      fix x assume x: "x \<in> set xs"
      have "wf x" using less.prems Indexed x by (simp add: list_all_iff)
      then show "imm_is x x" using less.IH [of x] list_elem_smaller [OF x] Indexed by simp
    qed
    then show ?thesis unfolding Indexed imm_is_lists .
  next
    case Keyed
    have "\<forall>kv \<in> set (keyed_entries v). \<exists>x. map_of (keyed_entries v) (fst kv) = Some x \<and> imm_is x (snd kv)"
    proof
      fix kv assume kv: "kv \<in> set (keyed_entries v)"
      have "imm_is (snd kv) (snd kv)"
        by (rule less.IH [OF keyed_entries_smaller [OF kv] keyed_entries_wf [OF less.prems kv]])
      with keyed_entries_lookup [OF less.prems kv]
      show "\<exists>x. map_of (keyed_entries v) (fst kv) = Some x \<and> imm_is x (snd kv)" by blast
    qed
    with Keyed show ?thesis by (simp add: imm_is_keyed)
  qed (simp add: imm_is_primitive)
qed

lemma imm_is_sym: "wf v \<Longrightarrow> wf w \<Longrightarrow> imm_is v w \<Longrightarrow> imm_is w v"
proof (induction v arbitrary: w rule: measure_induct_rule [of size])
  case (less v)
  show ?case
  proof (cases v rule: classify_cases)
    case (Indexed xs)
    obtain ys where w: "w = IList ys"
      using classify_Indexed imm_is_classify [OF less.prems(3)] Indexed by fastforce
    have "list_all2 imm_is xs ys" using less.prems(3) unfolding Indexed w imm_is_lists .
    then have len: "length xs = length ys" and el: "\<forall>i < length xs. imm_is (xs ! i) (ys ! i)"
      by (simp_all add: list_all2_conv_all_nth)
    have "\<forall>i < length ys. imm_is (ys ! i) (xs ! i)"
    proof (intro allI impI)
      fix i assume i: "i < length ys"
      then have xi: "xs ! i \<in> set xs" and yi: "ys ! i \<in> set ys" using len by simp_all
      have "wf (xs ! i)" using less.prems(1) Indexed xi by (simp add: list_all_iff)
      moreover have "wf (ys ! i)" using less.prems(2) w yi by (simp add: list_all_iff)
      ultimately show "imm_is (ys ! i) (xs ! i)"
        using less.IH [OF _ _ _ el [rule_format]] list_elem_smaller [OF xi] Indexed i len by simp
    qed
    with len have "list_all2 imm_is ys xs" by (simp add: list_all2_conv_all_nth)
    then show ?thesis unfolding Indexed w imm_is_lists .
  next
    case Keyed
    have kw: "classify w = Keyed" using imm_is_classify [OF less.prems(3)] Keyed by simp
    let ?ev = "keyed_entries v" and ?ew = "keyed_entries w"
    from less.prems(3) Keyed kw have len: "length ?ev = length ?ew"
      and hyp: "\<forall>kv \<in> set ?ew. \<exists>x. map_of ?ev (fst kv) = Some x \<and> imm_is x (snd kv)"
      by (simp_all add: imm_is_keyed)
    have "fst ` set ?ew \<subseteq> fst ` set ?ev"
      using hyp by (force dest: map_of_SomeD)
    then have keys: "fst ` set ?ev = fst ` set ?ew"
      using keys_eq_of_subset keyed_entries_distinct less.prems(1,2) len by blast
    have "\<forall>kv \<in> set ?ev. \<exists>y. map_of ?ew (fst kv) = Some y \<and> imm_is y (snd kv)"
    proof
      fix kv assume kv: "kv \<in> set ?ev"
      then obtain y where ky: "(fst kv, y) \<in> set ?ew" using keys by force
      have lw: "map_of ?ew (fst kv) = Some y"
        using keyed_entries_lookup [OF less.prems(2) ky] by simp
      from hyp ky obtain x where "map_of ?ev (fst kv) = Some x" and xy: "imm_is x y" by force
      then have "x = snd kv" using keyed_entries_lookup [OF less.prems(1) kv] by simp
      with xy have "imm_is (snd kv) y" by simp
      then have "imm_is y (snd kv)"
        using less.IH [OF keyed_entries_smaller [OF kv] keyed_entries_wf [OF less.prems(1) kv]
                          keyed_entries_wf [OF less.prems(2) ky]] by simp
      with lw show "\<exists>y. map_of ?ew (fst kv) = Some y \<and> imm_is y (snd kv)" by blast
    qed
    with Keyed kw len show ?thesis by (simp add: imm_is_keyed)
  next
    case Primitive
    with less.prems(3) show ?thesis by (simp add: imm_is_primitive)
  qed
qed

lemma imm_is_trans: "imm_is u v \<Longrightarrow> imm_is v w \<Longrightarrow> imm_is u w"
proof (induction u arbitrary: v w rule: measure_induct_rule [of size])
  case (less u)
  show ?case
  proof (cases u rule: classify_cases)
    case (Indexed xs)
    obtain ys where v: "v = IList ys"
      using classify_Indexed imm_is_classify [OF less.prems(1)] Indexed by fastforce
    obtain zs where w: "w = IList zs"
      using classify_Indexed imm_is_classify [OF less.prems(2)] v by fastforce
    have "list_all2 imm_is xs ys" using less.prems(1) unfolding Indexed v imm_is_lists .
    moreover have "list_all2 imm_is ys zs" using less.prems(2) unfolding v w imm_is_lists .
    ultimately
    have l1: "length xs = length ys" and e1: "\<forall>i < length xs. imm_is (xs ! i) (ys ! i)"
      and l2: "length ys = length zs" and e2: "\<forall>i < length ys. imm_is (ys ! i) (zs ! i)"
      by (simp_all add: list_all2_conv_all_nth)
    have "\<forall>i < length xs. imm_is (xs ! i) (zs ! i)"
    proof (intro allI impI)
      fix i assume i: "i < length xs"
      then have "xs ! i \<in> set xs" by simp
      then show "imm_is (xs ! i) (zs ! i)"
        using less.IH [OF _ e1 [rule_format, OF i] e2 [rule_format]] list_elem_smaller Indexed i l1
        by simp
    qed
    with l1 l2 have "list_all2 imm_is xs zs" by (simp add: list_all2_conv_all_nth)
    then show ?thesis unfolding Indexed w imm_is_lists .
  next
    case Keyed
    have kv: "classify v = Keyed" using imm_is_classify [OF less.prems(1)] Keyed by simp
    have kw: "classify w = Keyed" using imm_is_classify [OF less.prems(2)] kv by simp
    let ?eu = "keyed_entries u" and ?ev = "keyed_entries v" and ?ew = "keyed_entries w"
    from less.prems Keyed kv kw
    have l1: "length ?eu = length ?ev"
      and h1: "\<forall>kv \<in> set ?ev. \<exists>x. map_of ?eu (fst kv) = Some x \<and> imm_is x (snd kv)"
      and l2: "length ?ev = length ?ew"
      and h2: "\<forall>kv \<in> set ?ew. \<exists>x. map_of ?ev (fst kv) = Some x \<and> imm_is x (snd kv)"
      by (simp_all add: imm_is_keyed)
    have "\<forall>kw \<in> set ?ew. \<exists>x. map_of ?eu (fst kw) = Some x \<and> imm_is x (snd kw)"
    proof
      fix e assume e: "e \<in> set ?ew"
      with h2 obtain y where y: "map_of ?ev (fst e) = Some y" and yz: "imm_is y (snd e)" by blast
      from h1 map_of_SomeD [OF y] obtain x where x: "map_of ?eu (fst e) = Some x"
        and xy: "imm_is x y" by force
      have "size x < size u"
        using keyed_entries_smaller [OF map_of_SomeD [OF x]] by simp
      with xy yz have "imm_is x (snd e)" by (blast intro: less.IH)
      with x show "\<exists>x. map_of ?eu (fst e) = Some x \<and> imm_is x (snd e)" by blast
    qed
    with Keyed kw l1 l2 show ?thesis by (simp add: imm_is_keyed)
  next
    case Primitive
    with less.prems show ?thesis by (simp add: imm_is_primitive)
  qed
qed

text \<open>
  \<^verbatim>\<open>Immutable.is\<close> is an equivalence relation on well-formed values (reflexive
  and symmetric where maps and records have distinct keys, transitive everywhere), so
  the test suite's assertions compare results up to a genuine equality: the one that
  ignores the insertion order of maps and sees a record as the map of its fields.
\<close>

lemma imm_is_equivalence:
  "(wf v \<longrightarrow> imm_is v v) \<and> (wf v \<and> wf w \<and> imm_is v w \<longrightarrow> imm_is w v) \<and>
   (imm_is u v \<and> imm_is v w \<longrightarrow> imm_is u w)"
  by (blast intro: imm_is_refl imm_is_sym imm_is_trans)

lemma imm_is_equivalence_example:
  "wf (IMap [(''a'', Num 1), (''b'', Num 2)]) \<and>
   wf (IMap [(''b'', Num 2), (''a'', Num 1)]) \<and>
   imm_is (IMap [(''a'', Num 1), (''b'', Num 2)]) (IMap [(''a'', Num 1), (''b'', Num 2)]) \<and>
   imm_is (IMap [(''a'', Num 1), (''b'', Num 2)]) (IMap [(''b'', Num 2), (''a'', Num 1)]) \<and>
   imm_is (IMap [(''b'', Num 2), (''a'', Num 1)]) (IMap [(''a'', Num 1), (''b'', Num 2)]) \<and>
   imm_is (IMap [(''b'', Num 2), (''a'', Num 1)])
     (IRecord ''R'' [(''a'', Num 0), (''b'', Num 2)] [(''a'', Num 1)]) \<and>
   imm_is (IMap [(''a'', Num 1), (''b'', Num 2)])
     (IRecord ''R'' [(''a'', Num 0), (''b'', Num 2)] [(''a'', Num 1)])"
proof -
  have uv: "imm_is (IMap [(''a'', Num 1), (''b'', Num 2)]) (IMap [(''b'', Num 2), (''a'', Num 1)])"
    by code_simp
  have vw: "imm_is (IMap [(''b'', Num 2), (''a'', Num 1)])
              (IRecord ''R'' [(''a'', Num 0), (''b'', Num 2)] [(''a'', Num 1)])"
    by code_simp
  have wf: "wf (IMap [(''a'', Num 1), (''b'', Num 2)])" "wf (IMap [(''b'', Num 2), (''a'', Num 1)])"
    by simp_all
  let ?u = "IMap [(''a'', Num 1), (''b'', Num 2)]" and ?v = "IMap [(''b'', Num 2), (''a'', Num 1)]"
    and ?w = "IRecord ''R'' [(''a'', Num 0), (''b'', Num 2)] [(''a'', Num 1)]"
  have r: "imm_is ?u ?u" and s: "imm_is ?v ?u"
    using imm_is_equivalence [of ?u ?v ?u] uv wf by blast+
  have t: "imm_is ?u ?w"
    using imm_is_equivalence [of ?v ?w ?u] uv vw by blast
  show ?thesis using wf r uv s vw t by blast
qed

subsection \<open>\<^verbatim>\<open>Immutable.is\<close> on maps\<close>

text \<open>
  On maps with distinct keys, \<^verbatim>\<open>Immutable.is\<close> says: the same keys, and
  \<^verbatim>\<open>is\<close>-equal values at each of them.
\<close>

lemma imm_is_maps:
  assumes d1: "distinct (map fst m1)" and d2: "distinct (map fst m2)"
  shows "imm_is (IMap m1) (IMap m2) =
           (dom (map_of m1) = dom (map_of m2) \<and>
            (\<forall>k x y. map_of m1 k = Some x \<longrightarrow> map_of m2 k = Some y \<longrightarrow> imm_is x y))"
proof
  assume "imm_is (IMap m1) (IMap m2)"
  then have len: "length m1 = length m2"
    and hyp: "\<forall>kv \<in> set m2. \<exists>x. map_of m1 (fst kv) = Some x \<and> imm_is x (snd kv)"
    by (simp_all add: imm_is_keyed)
  have "fst ` set m2 \<subseteq> fst ` set m1" using hyp by (force dest: map_of_SomeD)
  then have "fst ` set m1 = fst ` set m2" using keys_eq_of_subset [OF d1 d2 len] by blast
  moreover have "\<forall>k x y. map_of m1 k = Some x \<longrightarrow> map_of m2 k = Some y \<longrightarrow> imm_is x y"
  proof (intro allI impI)
    fix k x y assume x: "map_of m1 k = Some x" and y: "map_of m2 k = Some y"
    from hyp map_of_SomeD [OF y] obtain x' where "map_of m1 k = Some x'" and "imm_is x' y" by force
    with x show "imm_is x y" by simp
  qed
  ultimately show "dom (map_of m1) = dom (map_of m2) \<and>
      (\<forall>k x y. map_of m1 k = Some x \<longrightarrow> map_of m2 k = Some y \<longrightarrow> imm_is x y)"
    by (simp add: dom_map_of_conv_image_fst)
next
  assume h: "dom (map_of m1) = dom (map_of m2) \<and>
      (\<forall>k x y. map_of m1 k = Some x \<longrightarrow> map_of m2 k = Some y \<longrightarrow> imm_is x y)"
  then have keys: "fst ` set m1 = fst ` set m2" by (simp add: dom_map_of_conv_image_fst)
  have "length m1 = length m2"
    using distinct_card [OF d1] distinct_card [OF d2] keys by simp
  moreover have "\<forall>kv \<in> set m2. \<exists>x. map_of m1 (fst kv) = Some x \<and> imm_is x (snd kv)"
  proof
    fix kv assume kv: "kv \<in> set m2"
    have y: "map_of m2 (fst kv) = Some (snd kv)" using d2 kv by (cases kv) simp
    then have "fst kv \<in> dom (map_of m1)" using h by blast
    then obtain x where x: "map_of m1 (fst kv) = Some x" by blast
    with h y show "\<exists>x. map_of m1 (fst kv) = Some x \<and> imm_is x (snd kv)" by blast
  qed
  ultimately show "imm_is (IMap m1) (IMap m2)" by (simp add: imm_is_keyed)
qed

lemma imm_is_map_set:
  assumes "wf (IMap m1)" and "wf (IMap m2)" and "imm_is (IMap m1) (IMap m2)" and "imm_is c1 c2"
  shows "imm_is (IMap (map_set m1 k c1)) (IMap (map_set m2 k c2))"
proof -
  have d: "distinct (map fst (map_set m1 k c1))" "distinct (map fst (map_set m2 k c2))"
    using assms(1,2) by (simp_all add: map_set_def distinct_update)
  from assms(1-3) have h: "dom (map_of m1) = dom (map_of m2)"
    and e: "\<forall>k x y. map_of m1 k = Some x \<longrightarrow> map_of m2 k = Some y \<longrightarrow> imm_is x y"
    by (simp_all add: imm_is_maps)
  show ?thesis
    using h e assms(4) by (simp add: imm_is_maps [OF d] map_of_map_set)
qed

lemma imm_is_map_remove:
  assumes "wf (IMap m1)" and "wf (IMap m2)" and "imm_is (IMap m1) (IMap m2)"
  shows "imm_is (IMap (map_remove m1 k)) (IMap (map_remove m2 k))"
proof -
  have d: "distinct (map fst (map_remove m1 k))" "distinct (map fst (map_remove m2 k))"
    using assms(1,2) wf_alist_map_remove by simp_all
  from assms have h: "dom (map_of m1) = dom (map_of m2)"
    and e: "\<forall>k x y. map_of m1 k = Some x \<longrightarrow> map_of m2 k = Some y \<longrightarrow> imm_is x y"
    by (simp_all add: imm_is_maps)
  show ?thesis
    using h e by (simp add: imm_is_maps [OF d] map_of_map_remove)
qed

lemma imm_is_map_get:
  assumes "wf (IMap m1)" and "wf (IMap m2)" and "imm_is (IMap m1) (IMap m2)"
  shows "imm_is (map_get m1 k) (map_get m2 k)"
proof -
  from assms have h: "dom (map_of m1) = dom (map_of m2)"
    and e: "\<forall>k x y. map_of m1 k = Some x \<longrightarrow> map_of m2 k = Some y \<longrightarrow> imm_is x y"
    by (simp_all add: imm_is_maps)
  show ?thesis
  proof (cases "map_of m1 k")
    case None
    with h have "map_of m2 k = None" by auto
    with None show ?thesis by (simp add: map_get_def imm_is_primitive)
  next
    case (Some x)
    with h obtain y where "map_of m2 k = Some y" by force
    with Some e show ?thesis by (simp add: map_get_def)
  qed
qed

end
