(* ===== verification/Test_Suite.thy ===== *)
theory Test_Suite
  imports Batch Immutable_Equality
begin

text \<open>
  The repository's test suite (\<^verbatim>\<open>src/tests/mapPatch.test.js\<close>,
  \<^verbatim>\<open>primitiveTypePatch.test.js\<close>, \<^verbatim>\<open>sequencePatch.test.js\<close>) run against the
  model.  Every \<^verbatim>\<open>it(...)\<close> block is one definition, named after the test, whose value
  is whether the test passes: the input built as the test builds it (a literal
  \<^verbatim>\<open>Immutable.Map\<close>/\<^verbatim>\<open>List\<close> as \<open>IMap\<close>/\<open>IList\<close>, \<^verbatim>\<open>Immutable.fromJS(...)\<close> as
  \<open>fromJS\<close> of the plain value, a plain object or array as \<open>JObj\<close>/\<open>JArr\<close>), the
  patches as \<open>patch\<close> records (a missing \<^verbatim>\<open>value\<close> is \<open>Undefined\<close>; the empty
  \<^verbatim>\<open>Immutable.List()\<close> of patches is the empty list, which the code treats alike), and
  the assertion on the result of \<^verbatim>\<open>eachPatch\<close>.  A thrown error fails the test.
  The assertions are \<^verbatim>\<open>assert.ok(Immutable.is(result, expected))\<close> (\<open>test_is\<close>),
  \<^verbatim>\<open>assert.deepEqual\<close> and \<^verbatim>\<open>assert.equal\<close> on a result (\<open>test_deepEqual\<close>,
  \<open>test_equal\<close>, which the model reads as equality of values and which are only reached
  by tests whose patch throws), and \<^verbatim>\<open>assert.deepEqual(result.toJS(), expected.toJS())\<close>
  (\<open>test_deepEqual_toJS\<close>).
\<close>

definition test_is :: "error + jsval \<Rightarrow> jsval \<Rightarrow> bool" where
  "test_is result expected = (case result of Inl e \<Rightarrow> False | Inr r \<Rightarrow> imm_is r expected)"

definition test_deepEqual :: "error + jsval \<Rightarrow> jsval \<Rightarrow> bool" where
  "test_deepEqual result expected = (case result of Inl e \<Rightarrow> False | Inr r \<Rightarrow> r = expected)"

definition test_equal :: "error + jsval \<Rightarrow> jsval \<Rightarrow> bool" where
  "test_equal result expected = (case result of Inl e \<Rightarrow> False | Inr r \<Rightarrow> r = expected)"

definition test_deepEqual_toJS :: "error + jsval \<Rightarrow> jsval \<Rightarrow> bool" where
  "test_deepEqual_toJS result expected =
     (case result of Inl e \<Rightarrow> False | Inr r \<Rightarrow> toJS r = toJS expected)"

subsection \<open>\<^verbatim>\<open>mapPatch.test.js\<close>\<close>

text \<open>\<^verbatim>\<open>returns same Map when ops are empty\<close> (lines 8--15).\<close>

definition map_returns_same_map :: bool where
  "map_returns_same_map =
     (case eachPatch (IMap [(''a'', Num 1), (''b'', Num 2)]) [] of Inl e \<Rightarrow> False | Inr r \<Rightarrow> imm_is (IMap [(''a'', Num 1), (''b'', Num 2)]) r)"

text \<open>\<^verbatim>\<open>adds missing value in empty map\<close> (lines 17--27).\<close>

definition map_adds_missing_in_empty :: bool where
  "map_adds_missing_in_empty =
     test_is (eachPatch (IMap [])
       [\<lparr>patch_op = ''+'', patch_path = [''a''], patch_value = Num 1\<rparr>])
     (IMap [(''a'', Num 1)])"

text \<open>\<^verbatim>\<open>adds missing value in map\<close> (lines 29--39).\<close>

definition map_adds_missing :: bool where
  "map_adds_missing =
     test_is (eachPatch (IMap [(''a'', Num 1)])
       [\<lparr>patch_op = ''+'', patch_path = [''b''], patch_value = Num 2\<rparr>])
     (IMap [(''a'', Num 1), (''b'', Num 2)])"

text \<open>\<^verbatim>\<open>replaces value in map\<close> (lines 41--51).\<close>

definition map_replaces_value :: bool where
  "map_replaces_value =
     test_is (eachPatch (IMap [(''a'', Num 1), (''b'', Num 1)])
       [\<lparr>patch_op = ''!='', patch_path = [''b''], patch_value = Num 2\<rparr>])
     (IMap [(''a'', Num 1), (''b'', Num 2)])"

text \<open>\<^verbatim>\<open>removes value in map\<close> (lines 53--63).\<close>

definition map_removes_value :: bool where
  "map_removes_value =
     test_is (eachPatch (IMap [(''a'', Num 1), (''b'', Num 2)])
       [\<lparr>patch_op = ''-'', patch_path = [''b''], patch_value = Undefined\<rparr>])
     (IMap [(''a'', Num 1)])"

text \<open>\<^verbatim>\<open>replaces objects\<close> (lines 65--73).\<close>

definition map_replaces_objects :: bool where
  "map_replaces_objects =
     test_deepEqual (eachPatch (JObj [(''a'', Num 1)])
       [\<lparr>patch_op = ''!='', patch_path = [], patch_value = IMap [(''b'', Num 2)]\<rparr>])
     (IMap [(''b'', Num 2)])"

text \<open>\<^verbatim>\<open>nested maps: adds missing value in nested map\<close> (lines 76--86).\<close>

definition map_nested_adds_missing :: bool where
  "map_nested_adds_missing =
     test_is (eachPatch ((fromJS (JObj [(''a'', Num 1), (''b'', JObj [(''c'', Num 3)])])))
       [\<lparr>patch_op = ''+'', patch_path = [''b'', ''d''], patch_value = Num 4\<rparr>])
     ((fromJS (JObj [(''a'', Num 1), (''b'', JObj [(''c'', Num 3), (''d'', Num 4)])])))"

text \<open>\<^verbatim>\<open>nested maps: creates nested map\<close> (lines 88--98).\<close>

definition map_nested_creates :: bool where
  "map_nested_creates =
     test_is (eachPatch ((fromJS (JObj [(''a'', Num 1)])))
       [\<lparr>patch_op = ''+'', patch_path = [''b'', ''c''], patch_value = Num 2\<rparr>])
     ((fromJS (JObj [(''a'', Num 1), (''b'', JObj [(''c'', Num 2)])])))"

text \<open>\<^verbatim>\<open>nested maps: replaces value in nested map\<close> (lines 100--110).\<close>

definition map_nested_replaces :: bool where
  "map_nested_replaces =
     test_is (eachPatch ((fromJS (JObj [(''a'', Num 1), (''b'', JObj [(''c'', Num 3)])])))
       [\<lparr>patch_op = ''+'', patch_path = [''b'', ''c''], patch_value = Num 4\<rparr>])
     ((fromJS (JObj [(''a'', Num 1), (''b'', JObj [(''c'', Num 4)])])))"

text \<open>\<^verbatim>\<open>nested maps: removes value in nested map\<close> (lines 112--122).\<close>

definition map_nested_removes :: bool where
  "map_nested_removes =
     test_is (eachPatch ((fromJS (JObj [(''a'', Num 1), (''b'', JObj [(''c'', Num 3), (''d'', Num 4)])])))
       [\<lparr>patch_op = ''-'', patch_path = [''b'', ''d''], patch_value = Undefined\<rparr>])
     ((fromJS (JObj [(''a'', Num 1), (''b'', JObj [(''c'', Num 3)])])))"

text \<open>\<^verbatim>\<open>escaped paths: add unescaped path\<close> (lines 126--136).\<close>

definition map_escaped_add :: bool where
  "map_escaped_add =
     test_is (eachPatch ((fromJS (JObj [(''a'', Num 1), (''b'', JObj [(''c'', Num 3)])])))
       [\<lparr>patch_op = ''+'', patch_path = [''b'', ''prop/prop''], patch_value = Num 4\<rparr>])
     ((fromJS (JObj [(''a'', Num 1), (''b'', JObj [(''c'', Num 3), (''prop/prop'', Num 4)])])))"

text \<open>\<^verbatim>\<open>escaped paths: replaces unescaped path\<close> (lines 138--148).\<close>

definition map_escaped_replace :: bool where
  "map_escaped_replace =
     test_is (eachPatch ((fromJS (JObj [(''a'', Num 1), (''b'', JObj [(''c'', Num 3), (''prop/prop'', Num 4)])])))
       [\<lparr>patch_op = ''!='', patch_path = [''b'', ''prop/prop''], patch_value = Num 10\<rparr>])
     ((fromJS (JObj [(''a'', Num 1), (''b'', JObj [(''c'', Num 3), (''prop/prop'', Num 10)])])))"

text \<open>\<^verbatim>\<open>escaped paths: removes unescaped path\<close> (lines 150--160).\<close>

definition map_escaped_remove :: bool where
  "map_escaped_remove =
     test_is (eachPatch ((fromJS (JObj [(''a'', Num 1), (''b'', JObj [(''c'', Num 3), (''prop/prop'', Num 4)])])))
       [\<lparr>patch_op = ''-'', patch_path = [''b'', ''prop/prop''], patch_value = Undefined\<rparr>])
     ((fromJS (JObj [(''a'', Num 1), (''b'', JObj [(''c'', Num 3)])])))"

text \<open>\<^verbatim>\<open>patch nested sequences: adds missing value in nested sequence\<close> (lines 164--174).\<close>

definition map_seq_adds_missing :: bool where
  "map_seq_adds_missing =
     test_is (eachPatch ((fromJS (JObj [(''a'', Num 1), (''b'', JArr [Num 1, Num 2, Num 3])])))
       [\<lparr>patch_op = ''+'', patch_path = [''b'', ''3''], patch_value = Num 4\<rparr>])
     ((fromJS (JObj [(''a'', Num 1), (''b'', JArr [Num 1, Num 2, Num 3, Num 4])])))"

text \<open>\<^verbatim>\<open>patch nested sequences: adds nested sequence\<close> (lines 176--186).\<close>

definition map_seq_adds_nested :: bool where
  "map_seq_adds_nested =
     test_is (eachPatch ((fromJS (JObj [(''a'', Num 1)])))
       [\<lparr>patch_op = ''+'', patch_path = [''b''], patch_value = JArr [Num 1]\<rparr>])
     ((fromJS (JObj [(''a'', Num 1), (''b'', JArr [Num 1])])))"

text \<open>\<^verbatim>\<open>patch nested sequences: replaces value in nested sequence\<close> (lines 188--198).\<close>

definition map_seq_replaces :: bool where
  "map_seq_replaces =
     test_is (eachPatch ((fromJS (JObj [(''a'', Num 1), (''b'', JArr [Num 1, Num 2, Num 3])])))
       [\<lparr>patch_op = ''!='', patch_path = [''b'', ''2''], patch_value = Num 4\<rparr>])
     ((fromJS (JObj [(''a'', Num 1), (''b'', JArr [Num 1, Num 2, Num 4])])))"

text \<open>\<^verbatim>\<open>patch nested sequences: removes value in nested sequence\<close> (lines 200--210).\<close>

definition map_seq_removes :: bool where
  "map_seq_removes =
     test_is (eachPatch ((fromJS (JObj [(''a'', Num 1), (''b'', JArr [Num 1, Num 2, Num 3])])))
       [\<lparr>patch_op = ''-'', patch_path = [''b'', ''2''], patch_value = Undefined\<rparr>])
     ((fromJS (JObj [(''a'', Num 1), (''b'', JArr [Num 1, Num 2])])))"

text \<open>\<^verbatim>\<open>pacthes shallow value: replaces shallow value\<close> (lines 214--225).\<close>

definition map_shallow_replaces :: bool where
  "map_shallow_replaces =
     test_is (eachPatch ((fromJS (JObj [(''role'', Str ''user''), (''store'', JArr [])])))
       [\<lparr>patch_op = ''!='', patch_path = [''role''], patch_value = Str ''admin''\<rparr>,
        \<lparr>patch_op = ''!='', patch_path = [''store''], patch_value = Num 2\<rparr>])
     ((fromJS (JObj [(''role'', Str ''admin''), (''store'', Num 2)])))"

subsection \<open>\<^verbatim>\<open>primitiveTypePatch.test.js\<close>\<close>

text \<open>\<^verbatim>\<open>returns same value when ops are empty\<close> (lines 8--13).\<close>

definition prim_same_when_empty :: bool where
  "prim_same_when_empty =
     test_equal (eachPatch (Num 1) []) (Num 1)"

text \<open>\<^verbatim>\<open>replaces numbers\<close> (lines 15--23).\<close>

definition prim_replaces_numbers :: bool where
  "prim_replaces_numbers =
     test_equal (eachPatch (Num 1) [\<lparr>patch_op = ''!='', patch_path = [], patch_value = Num 10\<rparr>]) (Num 10)"

text \<open>\<^verbatim>\<open>replaces strings\<close> (lines 25--33).\<close>

definition prim_replaces_strings :: bool where
  "prim_replaces_strings =
     test_equal (eachPatch (Str ''1'') [\<lparr>patch_op = ''!='', patch_path = [], patch_value = Str ''10''\<rparr>]) (Str ''10'')"

text \<open>\<^verbatim>\<open>when op is remove returns null\<close> (lines 35--42).\<close>

definition prim_remove_null :: bool where
  "prim_remove_null =
     test_equal (eachPatch (JObj [(''a'', Num 1)]) [\<lparr>patch_op = ''-'', patch_path = [], patch_value = Undefined\<rparr>]) Null"

subsection \<open>\<^verbatim>\<open>sequencePatch.test.js\<close>\<close>

text \<open>\<^verbatim>\<open>returns same sequence when ops are empty\<close> (lines 8--15).\<close>

definition seq_same_when_empty :: bool where
  "seq_same_when_empty =
     (case eachPatch (IList [Num 1, Num 2, Num 3]) [] of Inl e \<Rightarrow> False | Inr r \<Rightarrow> imm_is (IList [Num 1, Num 2, Num 3]) r)"

text \<open>\<^verbatim>\<open>adds missing value\<close> (lines 17--27).\<close>

definition seq_adds_missing :: bool where
  "seq_adds_missing =
     test_is (eachPatch (IList [Num 1, Num 2, Num 3])
       [\<lparr>patch_op = ''+'', patch_path = [''3''], patch_value = Num 4\<rparr>])
     (IList [Num 1, Num 2, Num 3, Num 4])"

text \<open>\<^verbatim>\<open>adds value among a list\<close> (lines 29--39).\<close>

definition seq_adds_among :: bool where
  "seq_adds_among =
     test_is (eachPatch ((fromJS (JObj [(''a'', JArr [Num 1, Num 2, Num 3, Num 4])])))
       [\<lparr>patch_op = ''+'', patch_path = [''a'', ''1''], patch_value = Str ''x''\<rparr>])
     ((fromJS (JObj [(''a'', JArr [Num 1, Str ''x'', Num 2, Num 3, Num 4])])))"

text \<open>\<^verbatim>\<open>adds values in empty list\<close> (lines 41--53).\<close>

definition seq_adds_in_empty :: bool where
  "seq_adds_in_empty =
     test_is (eachPatch (IList [])
       [\<lparr>patch_op = ''+'', patch_path = [''0''], patch_value = Num 1\<rparr>,
        \<lparr>patch_op = ''+'', patch_path = [''1''], patch_value = Num 2\<rparr>,
        \<lparr>patch_op = ''+'', patch_path = [''2''], patch_value = Num 3\<rparr>])
     (IList [Num 1, Num 2, Num 3])"

text \<open>\<^verbatim>\<open>adds value to end\<close> (lines 55--64).\<close>

definition seq_adds_to_end :: bool where
  "seq_adds_to_end =
     test_is (eachPatch (IList [Num 1, Num 2, Num 3])
       [\<lparr>patch_op = ''+'', patch_path = [''-''], patch_value = Num 4\<rparr>])
     (IList [Num 1, Num 2, Num 3, Num 4])"

text \<open>\<^verbatim>\<open>replaces old values\<close> (lines 66--76).\<close>

definition seq_replaces :: bool where
  "seq_replaces =
     test_is (eachPatch (IList [Num 1, Num 2, Num 3])
       [\<lparr>patch_op = ''!='', patch_path = [''0''], patch_value = Num 10\<rparr>])
     (IList [Num 10, Num 2, Num 3])"

text \<open>\<^verbatim>\<open>removes values\<close> (lines 78--90).\<close>

definition seq_removes :: bool where
  "seq_removes =
     test_deepEqual_toJS (eachPatch (IList [Num 1, Num 2, Num 3, Num 4])
       [\<lparr>patch_op = ''-'', patch_path = [''0''], patch_value = Undefined\<rparr>])
     (IList [Num 2, Num 3, Num 4])"

text \<open>\<^verbatim>\<open>replaces arrays\<close> (lines 92--98).\<close>

definition seq_replaces_arrays :: bool where
  "seq_replaces_arrays =
     test_deepEqual (eachPatch (JArr [Num 1])
       [\<lparr>patch_op = ''!='', patch_path = [], patch_value = IList [Num 10]\<rparr>])
     (IList [Num 10])"

text \<open>\<^verbatim>\<open>nested sequences: adds missing value to nested seq\<close> (lines 101--111).\<close>

definition seq_nested_adds_missing :: bool where
  "seq_nested_adds_missing =
     test_is (eachPatch ((fromJS (JArr [Num 1, Num 2, Num 3, JArr [Num 4, Num 5]])))
       [\<lparr>patch_op = ''+'', patch_path = [''3'', ''2''], patch_value = Num 6\<rparr>])
     ((fromJS (JArr [Num 1, Num 2, Num 3, JArr [Num 4, Num 5, Num 6]])))"

text \<open>\<^verbatim>\<open>nested sequences: adds value to nested seq end\<close> (lines 113--122).\<close>

definition seq_nested_adds_end :: bool where
  "seq_nested_adds_end =
     test_is (eachPatch ((fromJS (JArr [Num 1, Num 2, Num 3, JArr [Num 4, Num 5]])))
       [\<lparr>patch_op = ''+'', patch_path = [''3'', ''-''], patch_value = Num 6\<rparr>])
     ((fromJS (JArr [Num 1, Num 2, Num 3, JArr [Num 4, Num 5, Num 6]])))"

text \<open>\<^verbatim>\<open>nested sequences: adds values in empty list to nested seq\<close> (lines 124--136).\<close>

definition seq_nested_adds_in_empty :: bool where
  "seq_nested_adds_in_empty =
     test_is (eachPatch (IList [])
       [\<lparr>patch_op = ''+'', patch_path = [''0''], patch_value = Num 1\<rparr>,
        \<lparr>patch_op = ''+'', patch_path = [''1''], patch_value = Num 2\<rparr>,
        \<lparr>patch_op = ''+'', patch_path = [''2'', ''0''], patch_value = Num 3\<rparr>])
     ((fromJS (JArr [Num 1, Num 2, JArr [Num 3]])))"

text \<open>\<^verbatim>\<open>nested sequences: replaces old values to nested seq\<close> (lines 138--148).\<close>

definition seq_nested_replaces :: bool where
  "seq_nested_replaces =
     test_is (eachPatch ((fromJS (JArr [Num 1, Num 2, JArr [Num 3, Num 4]])))
       [\<lparr>patch_op = ''!='', patch_path = [''2'', ''1''], patch_value = Num 10\<rparr>])
     ((fromJS (JArr [Num 1, Num 2, JArr [Num 3, Num 10]])))"

text \<open>\<^verbatim>\<open>nested sequences: removes values to nested seq\<close> (lines 150--160).\<close>

definition seq_nested_removes :: bool where
  "seq_nested_removes =
     test_is (eachPatch ((fromJS (JArr [Num 1, Num 2, Num 3, JArr [Num 4, Num 5]])))
       [\<lparr>patch_op = ''-'', patch_path = [''3'', ''1''], patch_value = Undefined\<rparr>])
     ((fromJS (JArr [Num 1, Num 2, Num 3, JArr [Num 4]])))"

text \<open>\<^verbatim>\<open>nested maps: adds missing value to nested map\<close> (lines 164--174).\<close>

definition seq_map_adds_missing :: bool where
  "seq_map_adds_missing =
     test_is (eachPatch ((fromJS (JArr [Num 1, Num 2, Num 3, JArr [JObj [(''a'', Num 1)]]])))
       [\<lparr>patch_op = ''+'', patch_path = [''3'', ''0'', ''b''], patch_value = Num 10\<rparr>])
     ((fromJS (JArr [Num 1, Num 2, Num 3, JArr [JObj [(''a'', Num 1), (''b'', Num 10)]]])))"

text \<open>\<^verbatim>\<open>nested maps: adds values in empty list to nested map\<close> (lines 176--188).\<close>

definition seq_map_adds_in_empty :: bool where
  "seq_map_adds_in_empty =
     test_is (eachPatch (IList [])
       [\<lparr>patch_op = ''+'', patch_path = [''0''], patch_value = (fromJS (JObj [(''a'', Num 1)]))\<rparr>,
        \<lparr>patch_op = ''+'', patch_path = [''1''], patch_value = (fromJS (JObj [(''a'', Num 2)]))\<rparr>,
        \<lparr>patch_op = ''+'', patch_path = [''2'', ''0''], patch_value = (fromJS (JObj [(''a'', Num 3)]))\<rparr>])
     ((fromJS (JArr [JObj [(''a'', Num 1)], JObj [(''a'', Num 2)], JArr [JObj [(''a'', Num 3)]]])))"

text \<open>\<^verbatim>\<open>nested maps: replaces old values to nested map\<close> (lines 190--200).\<close>

definition seq_map_replaces :: bool where
  "seq_map_replaces =
     test_is (eachPatch ((fromJS (JArr [Num 1, Num 2, Num 3, JArr [JObj [(''a'', Num 1)]]])))
       [\<lparr>patch_op = ''+'', patch_path = [''3'', ''0'', ''a''], patch_value = Num 10\<rparr>])
     ((fromJS (JArr [Num 1, Num 2, Num 3, JArr [JObj [(''a'', Num 10)]]])))"

text \<open>\<^verbatim>\<open>nested maps: removes values from nested map\<close> (lines 202--212).\<close>

definition seq_map_removes :: bool where
  "seq_map_removes =
     test_is (eachPatch ((fromJS (JArr [Num 1, Num 2, Num 3, JArr [JObj [(''a'', Num 1), (''b'', Num 10)]]])))
       [\<lparr>patch_op = ''-'', patch_path = [''3'', ''0'', ''b''], patch_value = Undefined\<rparr>])
     ((fromJS (JArr [Num 1, Num 2, Num 3, JArr [JObj [(''a'', Num 1)]]])))"

text \<open>\<^verbatim>\<open>nested maps: patch nested maps in empty lists\<close> (lines 214--228).\<close>

definition seq_map_in_empty_lists :: bool where
  "seq_map_in_empty_lists =
     test_is (eachPatch (IList [])
       [\<lparr>patch_op = ''+'', patch_path = [''0''], patch_value = Num 1\<rparr>,
        \<lparr>patch_op = ''+'', patch_path = [''1''], patch_value = Num 2\<rparr>,
        \<lparr>patch_op = ''+'', patch_path = [''2''], patch_value = Num 3\<rparr>,
        \<lparr>patch_op = ''+'', patch_path = [''3'', ''0'', ''a''], patch_value = Num 1\<rparr>,
        \<lparr>patch_op = ''+'', patch_path = [''3'', ''0'', ''b''], patch_value = Num 10\<rparr>])
     ((fromJS (JArr [Num 1, Num 2, Num 3, JArr [JObj [(''a'', Num 1), (''b'', Num 10)]]])))"

text \<open>\<^verbatim>\<open>nested maps with escaped paths: add unescaped path\<close> (lines 231--241).\<close>

definition seq_escaped_add :: bool where
  "seq_escaped_add =
     test_is (eachPatch ((fromJS (JArr [JObj [(''a'', Num 1)], JObj [(''b'', Num 2)]])))
       [\<lparr>patch_op = ''+'', patch_path = [''2'', ''prop/prop''], patch_value = Num 3\<rparr>])
     ((fromJS (JArr [JObj [(''a'', Num 1)], JObj [(''b'', Num 2)], JObj [(''prop/prop'', Num 3)]])))"

text \<open>\<^verbatim>\<open>nested maps with escaped paths: replaces unescaped path\<close> (lines 243--253).\<close>

definition seq_escaped_replace :: bool where
  "seq_escaped_replace =
     test_is (eachPatch ((fromJS (JArr [JObj [(''a'', Num 1)], JObj [(''prop/prop'', Num 2)]])))
       [\<lparr>patch_op = ''!='', patch_path = [''1'', ''prop/prop''], patch_value = Num 10\<rparr>])
     ((fromJS (JArr [JObj [(''a'', Num 1)], JObj [(''prop/prop'', Num 10)]])))"

text \<open>\<^verbatim>\<open>nested maps with escaped paths: removes unescaped path\<close> (lines 255--265).\<close>

definition seq_escaped_remove :: bool where
  "seq_escaped_remove =
     test_is (eachPatch ((fromJS (JArr [JObj [(''a'', Num 1)], JObj [(''b'', Num 2), (''prop/prop'', Num 2)]])))
       [\<lparr>patch_op = ''-'', patch_path = [''1'', ''prop/prop''], patch_value = Undefined\<rparr>])
     ((fromJS (JArr [JObj [(''a'', Num 1)], JObj [(''b'', Num 2)]])))"

subsection \<open>Running the suite\<close>

lemma map_tests_pass:
  "map_returns_same_map \<and> map_adds_missing_in_empty \<and> map_adds_missing \<and>
   map_replaces_value \<and> map_removes_value \<and> map_nested_adds_missing \<and>
   map_nested_creates \<and> map_nested_replaces \<and> map_nested_removes \<and>
   map_escaped_add \<and> map_escaped_replace \<and> map_escaped_remove \<and>
   map_seq_adds_missing \<and> map_seq_adds_nested \<and> map_seq_replaces \<and>
   map_seq_removes \<and> map_shallow_replaces"
  by code_simp

lemma sequence_tests_pass:
  "seq_same_when_empty \<and> seq_adds_missing \<and> seq_adds_among \<and>
   seq_adds_in_empty \<and> seq_adds_to_end \<and> seq_replaces \<and> seq_removes \<and>
   seq_nested_adds_missing \<and> seq_nested_adds_end \<and>
   seq_nested_adds_in_empty \<and> seq_nested_replaces \<and> seq_nested_removes \<and>
   seq_map_adds_missing \<and> seq_map_adds_in_empty \<and> seq_map_replaces \<and>
   seq_map_removes \<and> seq_map_in_empty_lists \<and> seq_escaped_add \<and>
   seq_escaped_replace \<and> seq_escaped_remove"
  by code_simp

text \<open>
  The tests whose root is a primitive, a plain object or a plain array fail: the root has
  no \<^verbatim>\<open>withMutations\<close>, so \<^verbatim>\<open>eachPatch\<close> throws a \<^verbatim>\<open>TypeError\<close>.
\<close>

lemma root_tests_fail:
  "\<not> map_replaces_objects \<and> \<not> prim_same_when_empty \<and>
   \<not> prim_replaces_numbers \<and> \<not> prim_replaces_strings \<and>
   \<not> prim_remove_null \<and> \<not> seq_replaces_arrays"
  by code_simp

end
