(* ===== verification/Batch_Commute.thy ===== *)
theory Batch_Commute
  imports Batch Path_Access Immutable_Equality
begin

text \<open>
  Independent patches commute.  \<^verbatim>\<open>mapPatch\<close> (lines 18--41 of
  \<^verbatim>\<open>src/src/patch.js\<close>) reads one key of a map and writes that key only, and
  \<^verbatim>\<open>anyPatch\<close> stores a patched child back along the path, so two patches of a
  batch (\<^verbatim>\<open>eachPatchInternal\<close>, lines 120--126) that address different keys of one
  map give \<^verbatim>\<open>Immutable.is\<close>-equal results in either order.  The per-key part of
  \<^verbatim>\<open>mapPatch\<close> is \<open>key_effect\<close>: from the child at the key it computes the new child
  (\<open>Some\<close>) or the removal of the key (\<open>None\<close>), and \<open>map_update_at\<close> applies that to
  the entry list with \<^verbatim>\<open>Map.set\<close> or \<^verbatim>\<open>Map.remove\<close>.
\<close>

definition key_effect :: "jsval \<Rightarrow> string list \<Rightarrow> op \<Rightarrow> jsval \<Rightarrow> error + jsval option" where
  "key_effect child restPath op val =
     (if op = ''+'' then
        map_sum id Some
          (if restPath \<noteq> [] \<and> child = Undefined then anyPatch (baseValue restPath) restPath op val
           else anyPatch child restPath op val)
      else if op = ''!='' then
        (if restPath \<noteq> [] then map_sum id Some (anyPatch child restPath op val) else Inr (Some val))
      else if op = ''-'' then
        (if restPath \<noteq> [] then map_sum id Some (anyPatch child restPath op val) else Inr None)
      else Inl (UnknownOp (''map patch Error, unknown op: '' @ op)))"

definition map_update_at :: "(string \<times> jsval) list \<Rightarrow> string \<Rightarrow> jsval option \<Rightarrow> (string \<times> jsval) list" where
  "map_update_at m k e = (case e of None \<Rightarrow> map_remove m k | Some c \<Rightarrow> map_set m k c)"

text \<open>
  \<open>setIn v xs c\<close> is \<open>v\<close> with the subtree at \<open>xs\<close> replaced by \<open>c\<close>, stored
  back with \<^verbatim>\<open>List.set\<close> and \<^verbatim>\<open>Map.set\<close> along the path as \<^verbatim>\<open>anyPatch\<close>
  stores a patched child (Immutable's \<^verbatim>\<open>setIn\<close> on lists and maps).
\<close>

fun setIn :: "jsval \<Rightarrow> string list \<Rightarrow> jsval \<Rightarrow> jsval" where
  "setIn v [] c = c"
| "setIn (IList xs) (k # ks) c =
     IList (list_set xs (tryParseInt k) (setIn (list_get xs (tryParseInt k)) ks c))"
| "setIn (IMap m) (k # ks) c = IMap (map_set m k (setIn (map_get m k) ks c))"
| "setIn v (k # ks) c = v"

subsection \<open>Lemmas\<close>

lemma map_of_map_update_at [simp]: "map_of (map_update_at m k e) = (map_of m)(k := e)"
  by (cases e) (simp_all add: map_update_at_def map_of_map_set map_of_map_remove)

lemma map_get_map_update_at_other: "k' \<noteq> k \<Longrightarrow> map_get (map_update_at m k e) k' = map_get m k'"
  by (simp add: map_get_def)

text \<open>\<^verbatim>\<open>mapPatch\<close> on a map is its per-key effect, stored back at the key.\<close>

lemma anyPatch_IMap_key_effect:
  "anyPatch (IMap m) (k # rest) op val =
     map_sum id (\<lambda>e. IMap (map_update_at m k e)) (key_effect (map_get m k) rest op val)"
  by (cases "anyPatch (map_get m k) rest op val"; cases "anyPatch (baseValue rest) rest op val")
     (auto simp: key_effect_def map_update_at_def)

lemma key_effect_no_error:
  assumes "op \<in> {''+'', ''!='', ''-''}" and "record_free (IMap m)" and "record_free val"
  obtains e where "key_effect (map_get m k) rest op val = Inr e"
proof -
  have "\<not> isl (map_sum id (\<lambda>e. IMap (map_update_at m k e)) (key_effect (map_get m k) rest op val))"
    using known_op_no_error(1) [OF assms(1,2), of "k # rest" val]
    unfolding anyPatch_IMap_key_effect .
  then show ?thesis using that by (cases "key_effect (map_get m k) rest op val") auto
qed

subsection \<open>Patching below a prefix\<close>

lemma map_sum_id_id [simp]: "map_sum id (\<lambda>c. c) r = r"
  by (cases r) simp_all

lemma map_set_map_set_same [simp]: "map_set (map_set m k a) k b = map_set m k b"
  by (induction m) (auto simp: map_set_def)

lemma wf_getIn: "wf v \<Longrightarrow> wf (getIn v xs)"
  by (induction v xs rule: getIn.induct) (simp_all add: wf_list_get wf_map_get wf_keyed_get [of "IRecord _ _ _", simplified])

lemma record_free_map_get [simp]:
  "list_all (\<lambda>kv. record_free (snd kv)) m \<Longrightarrow> record_free (map_get m k)"
  using pred_map_get [of record_free m k] by simp

lemma record_free_getIn: "record_free v \<Longrightarrow> record_free (getIn v xs)"
proof (induction v xs rule: getIn.induct)
  case (2 xs k ks)
  then show ?case using pred_list_get [of record_free xs] by simp
qed simp_all

text \<open>
  Below a settable prefix, a known operation patches the subtree the prefix reaches and
  \<open>setIn\<close> stores it back; an error of the subtree's patch is the error of the whole.
\<close>

lemma anyPatch_setIn:
  assumes "settable v (xs @ [k])" and "record_free v" and "op \<in> {''+'', ''!='', ''-''}"
  shows "anyPatch v (xs @ k # ks) op w = map_sum id (setIn v xs) (anyPatch (getIn v xs) (k # ks) op w)"
  using assms(1,2)
proof (induction xs arbitrary: v)
  case Nil
  then show ?case by (cases "anyPatch v (k # ks) op w") simp_all
next
  case (Cons x xs)
  have ne: "xs @ k # ks \<noteq> []" by simp
  show ?case
  proof (cases v)
    case (IList l)
    with Cons.prems have ik: "is_index_segment x" and lt: "digits_value 10 x < length l"
      and st: "settable (l ! digits_value 10 x) (xs @ [k])" and rf: "record_free (l ! digits_value 10 x)"
      by (auto simp: settable_IList_Cons list_all_iff)
    have nu: "l ! digits_value 10 x \<noteq> Undefined" using settable_not_Undefined [OF st] .
    have step: "anyPatch (IList l) (x # (xs @ k # ks)) op w =
                  map_sum id (\<lambda>c. IList (l[digits_value 10 x := c]))
                    (anyPatch (l ! digits_value 10 x) (xs @ k # ks) op w)"
      using assms(3) descend_step_IList [OF ne _ ik lt, of op w] descend_step_add_IList [OF ne ik lt nu, of w]
      by (auto simp del: anyPatch.simps)
    show ?thesis
      using IList step Cons.IH [OF st rf] ik lt
      by (simp add: list_index_segment map_sum.compositionality comp_def del: anyPatch.simps)
  next
    case (IMap m)
    with Cons.prems have st: "settable (map_get m x) (xs @ [k])" and rf: "record_free (map_get m x)"
      by (auto simp: settable_IMap_Cons intro: pred_map_get)
    have nu: "keyed_get v x \<noteq> Undefined" using IMap settable_not_Undefined [OF st] by simp
    have step: "anyPatch (IMap m) (x # (xs @ k # ks)) op w =
                  map_sum id (\<lambda>c. IMap (map_set m x c)) (anyPatch (map_get m x) (xs @ k # ks) op w)"
      using assms(3) IMap descend_step_IMap [OF ne, of op m x w] descend_step_add_keyed [OF ne _ nu, of w]
      by (auto simp del: anyPatch.simps)
    show ?thesis
      using IMap step Cons.IH [OF st rf]
      by (simp add: map_sum.compositionality comp_def del: anyPatch.simps)
  qed (use Cons.prems in simp_all)
qed

lemma getIn_setIn: "settable v (xs @ [k]) \<Longrightarrow> record_free v \<Longrightarrow> getIn (setIn v xs c) xs = c"
proof (induction xs arbitrary: v)
  case (Cons x xs)
  then show ?case
    by (cases v) (auto simp: settable_IList_Cons settable_IMap_Cons list_index_segment list_get_nat
                             list_all_iff)
qed simp

lemma settable_setIn:
  "settable v (xs @ [k]) \<Longrightarrow> record_free v \<Longrightarrow> settable c [k'] \<Longrightarrow>
   settable (setIn v xs c) (xs @ [k'])"
proof (induction xs arbitrary: v)
  case (Cons x xs)
  then show ?case
    by (cases v) (auto simp: settable_IList_Cons settable_IMap_Cons list_index_segment list_get_nat
                             list_all_iff)
qed simp

lemma setIn_setIn:
  "settable v (xs @ [k]) \<Longrightarrow> record_free v \<Longrightarrow> setIn (setIn v xs a) xs b = setIn v xs b"
proof (induction xs arbitrary: v)
  case (Cons x xs)
  then show ?case
    by (cases v) (auto simp: settable_IList_Cons settable_IMap_Cons list_index_segment list_get_nat
                             list_all_iff)
qed simp

lemma settable_container: "settable v p \<Longrightarrow> classify v \<noteq> Primitive"
  by (cases v; cases p) simp_all

lemma settable_other_key:
  "settable v (xs @ [k]) \<Longrightarrow> getIn v xs = IMap m \<Longrightarrow> settable v (xs @ [k'])"
proof (induction xs arbitrary: v)
  case (Cons x xs)
  then show ?case
    by (cases v) (auto simp: settable_IList_Cons settable_IMap_Cons settable_IRecord_Cons list_index_segment)
qed simp

lemma imm_is_setIn:
  assumes "settable v (xs @ [k])" and "record_free v" and "wf v" and "imm_is a b"
  shows "imm_is (setIn v xs a) (setIn v xs b)"
  using assms(1-3)
proof (induction xs arbitrary: v)
  case Nil
  then show ?case using assms(4) by simp
next
  case (Cons x xs)
  show ?case
  proof (cases v)
    case (IList l)
    with Cons.prems have ik: "is_index_segment x" and lt: "digits_value 10 x < length l"
      and st: "settable (l ! digits_value 10 x) (xs @ [k])"
      and rf: "record_free (l ! digits_value 10 x)" and wl: "list_all wf l"
      by (auto simp: settable_IList_Cons list_all_iff)
    have wc: "wf (l ! digits_value 10 x)" using wl lt by (simp add: list_all_iff)
    have ih: "imm_is (setIn (l ! digits_value 10 x) xs a) (setIn (l ! digits_value 10 x) xs b)"
      using Cons.IH [OF st rf wc] .
    show ?thesis
      using IList ik lt ih wl
      by (auto simp: list_index_segment imm_is_lists list_all2_conv_all_nth nth_list_update list_all_iff
               intro: imm_is_refl)
  next
    case (IMap m)
    with Cons.prems have st: "settable (map_get m x) (xs @ [k])" and rf: "record_free (map_get m x)"
      and wm: "wf (IMap m)"
      by (auto simp: settable_IMap_Cons)
    have ih: "imm_is (setIn (map_get m x) xs a) (setIn (map_get m x) xs b)"
      using Cons.IH [OF st rf wf_map_get [OF wm]] .
    show ?thesis using IMap imm_is_map_set [OF wm wm imm_is_refl [OF wm] ih] by simp
  qed (use Cons.prems in simp_all)
qed

lemma wf_map_of_value: "wf (IMap m) \<Longrightarrow> map_of m k = Some x \<Longrightarrow> wf x"
  by (auto simp: list_all_iff dest!: map_of_SomeD)

lemma imm_is_same_entries:
  assumes "wf (IMap m1)" and "wf (IMap m2)" and "map_of m1 = map_of m2"
  shows "imm_is (IMap m1) (IMap m2)"
  using assms wf_map_of_value [OF assms(1)] by (simp add: imm_is_maps imm_is_refl)

text \<open>Two patches at different keys of a map node, one after the other.\<close>

lemma patch_pair_at_map_node:
  assumes "settable v (xs @ [y])" and "record_free v" and "getIn v xs = IMap mu" and "y \<noteq> z"
    and "o1 \<in> {''+'', ''!='', ''-''}" and "o2 \<in> {''+'', ''!='', ''-''}" and "record_free w1"
    and e1: "key_effect (map_get mu y) ys o1 w1 = Inr e1" and e2: "key_effect (map_get mu z) zs o2 w2 = Inr e2"
  shows "\<exists>r1. anyPatch v (xs @ y # ys) o1 w1 = Inr r1 \<and>
              anyPatch r1 (xs @ z # zs) o2 w2 = Inr (setIn v xs (IMap (map_update_at (map_update_at mu y e1) z e2)))"
proof -
  define r1 where "r1 = setIn v xs (IMap (map_update_at mu y e1))"
  have s1: "anyPatch v (xs @ y # ys) o1 w1 = Inr r1"
    using anyPatch_setIn [OF assms(1,2,5)] assms(3) e1
    by (simp add: r1_def anyPatch_IMap_key_effect del: anyPatch.simps)
  have st: "settable r1 (xs @ [z])" using settable_setIn [OF assms(1,2)] by (simp add: r1_def)
  have rf: "record_free r1" using record_free_patch(1) [OF assms(2,7) s1] .
  have g: "getIn r1 xs = IMap (map_update_at mu y e1)" using getIn_setIn [OF assms(1,2)] by (simp add: r1_def)
  have "anyPatch r1 (xs @ z # zs) o2 w2 = Inr (setIn r1 xs (IMap (map_update_at (map_update_at mu y e1) z e2)))"
    using anyPatch_setIn [OF st rf assms(6)] g e2 assms(4)
    by (simp add: anyPatch_IMap_key_effect map_get_map_update_at_other del: anyPatch.simps)
  then show ?thesis using s1 setIn_setIn [OF assms(1,2)] by (auto simp: r1_def)
qed

subsection \<open>Commutation\<close>

text \<open>
  C17. Independent patches commute: two patches with known operations that address
  different keys \<open>y \<noteq> z\<close> of a map reached along a settable path \<open>xs\<close> (the root
  itself when \<open>xs = []\<close>) succeed in either order, and the two results are
  \<^verbatim>\<open>Immutable.is\<close>-equal, however deep each patch reaches below its key.  Only the
  insertion order of the map's keys can differ, when both add a new key.
\<close>

theorem independent_patches_commute:
  assumes "settable v (xs @ [y])" and "getIn v xs = IMap mu" and "wf v" and "record_free v"
    and "patch_path p = xs @ y # ys" and "patch_path q = xs @ z # zs" and "y \<noteq> z"
    and "patch_op p \<in> {''+'', ''!='', ''-''}" and "patch_op q \<in> {''+'', ''!='', ''-''}"
    and "wf (patch_value p)" and "record_free (patch_value p)"
    and "wf (patch_value q)" and "record_free (patch_value q)"
  shows "\<exists>r1 r2. eachPatch v [p, q] = Inr r1 \<and> eachPatch v [q, p] = Inr r2 \<and> imm_is r1 r2"
proof -
  let ?vp = "fromJS (patch_value p)" and ?vq = "fromJS (patch_value q)"
  have rfu: "record_free (IMap mu)" using record_free_getIn [OF assms(4), of xs] assms(2) by simp
  have wfu: "wf (IMap mu)" using wf_getIn [OF assms(3), of xs] assms(2) by simp
  have rp: "record_free ?vp" and rq: "record_free ?vq"
    using record_free_fromJS assms(11,13) by blast+
  have wp: "wf ?vp" and wq: "wf ?vq" using wf_fromJS assms(10,12) by blast+
  obtain e1 where e1: "key_effect (map_get mu y) ys (patch_op p) ?vp = Inr e1"
    using key_effect_no_error [OF assms(8) rfu rp] by blast
  obtain e2 where e2: "key_effect (map_get mu z) zs (patch_op q) ?vq = Inr e2"
    using key_effect_no_error [OF assms(9) rfu rq] by blast
  have sz: "settable v (xs @ [z])" using settable_other_key [OF assms(1,2)] .
  have cv: "classify v \<noteq> Primitive" using settable_container [OF assms(1)] .
  define m12 where "m12 = map_update_at (map_update_at mu y e1) z e2"
  define m21 where "m21 = map_update_at (map_update_at mu z e2) y e1"
  obtain r1 where a1: "anyPatch v (xs @ y # ys) (patch_op p) ?vp = Inr r1"
    and a2: "anyPatch r1 (xs @ z # zs) (patch_op q) ?vq = Inr (setIn v xs (IMap m12))"
    using patch_pair_at_map_node [OF assms(1,4,2,7,8,9) rp e1 e2] by (auto simp: m12_def)
  obtain r2 where b1: "anyPatch v (xs @ z # zs) (patch_op q) ?vq = Inr r2"
    and b2: "anyPatch r2 (xs @ y # ys) (patch_op p) ?vp = Inr (setIn v xs (IMap m21))"
    using patch_pair_at_map_node [OF sz assms(4,2) _ assms(9,8) rq e2 e1] assms(7) by (auto simp: m21_def)
  have pq: "eachPatch v [p, q] = Inr (setIn v xs (IMap m12))"
    using cv a1 a2 assms(5,6) by (simp add: eachPatch_container del: anyPatch.simps)
  have qp: "eachPatch v [q, p] = Inr (setIn v xs (IMap m21))"
    using cv b1 b2 assms(5,6) by (simp add: eachPatch_container del: anyPatch.simps)
  have w12: "wf (IMap m12)"
  proof -
    have "wf r1" using wf_patch(1) [OF assms(3) wp a1] .
    then have "wf (setIn v xs (IMap m12))" using wf_patch(1) [OF _ wq a2] by blast
    then show ?thesis
      using wf_getIn [of "setIn v xs (IMap m12)" xs] getIn_setIn [OF assms(1,4)] by simp
  qed
  have w21: "wf (IMap m21)"
  proof -
    have "wf r2" using wf_patch(1) [OF assms(3) wq b1] .
    then have "wf (setIn v xs (IMap m21))" using wf_patch(1) [OF _ wp b2] by blast
    then show ?thesis
      using wf_getIn [of "setIn v xs (IMap m21)" xs] getIn_setIn [OF sz assms(4)] by simp
  qed
  have "map_of m12 = map_of m21" using assms(7) by (simp add: m12_def m21_def fun_upd_twist)
  then have "imm_is (IMap m12) (IMap m21)" using imm_is_same_entries [OF w12 w21] by simp
  then have "imm_is (setIn v xs (IMap m12)) (setIn v xs (IMap m21))"
    using imm_is_setIn [OF assms(1,4,3)] by blast
  with pq qp show ?thesis by blast
qed


theorem independent_patches_commute_witness:
  "settable (IList [IMap [(''a'', Num 1)]]) ([''0''] @ [''b'']) \<and> getIn (IList [IMap [(''a'', Num 1)]]) [''0''] = IMap [(''a'', Num 1)] \<and>
   wf (IList [IMap [(''a'', Num 1)]]) \<and> record_free (IList [IMap [(''a'', Num 1)]]) \<and>
   patch_path \<lparr>patch_op = ''+'', patch_path = [''0'', ''b''], patch_value = Num 2\<rparr> = [''0''] @ ''b'' # [] \<and> patch_path \<lparr>patch_op = ''+'', patch_path = [''0'', ''c'', ''0''], patch_value = Num 3\<rparr> = [''0''] @ ''c'' # [''0''] \<and>
   ''b'' \<noteq> ''c'' \<and> patch_op \<lparr>patch_op = ''+'', patch_path = [''0'', ''b''], patch_value = Num 2\<rparr> \<in> {''+'', ''!='', ''-''} \<and> patch_op \<lparr>patch_op = ''+'', patch_path = [''0'', ''c'', ''0''], patch_value = Num 3\<rparr> \<in> {''+'', ''!='', ''-''} \<and>
   wf (patch_value \<lparr>patch_op = ''+'', patch_path = [''0'', ''b''], patch_value = Num 2\<rparr>) \<and> record_free (patch_value \<lparr>patch_op = ''+'', patch_path = [''0'', ''b''], patch_value = Num 2\<rparr>) \<and>
   wf (patch_value \<lparr>patch_op = ''+'', patch_path = [''0'', ''c'', ''0''], patch_value = Num 3\<rparr>) \<and> record_free (patch_value \<lparr>patch_op = ''+'', patch_path = [''0'', ''c'', ''0''], patch_value = Num 3\<rparr>) \<and>
   (\<exists>r1 r2. eachPatch (IList [IMap [(''a'', Num 1)]]) [\<lparr>patch_op = ''+'', patch_path = [''0'', ''b''], patch_value = Num 2\<rparr>, \<lparr>patch_op = ''+'', patch_path = [''0'', ''c'', ''0''], patch_value = Num 3\<rparr>] = Inr r1 \<and> eachPatch (IList [IMap [(''a'', Num 1)]]) [\<lparr>patch_op = ''+'', patch_path = [''0'', ''c'', ''0''], patch_value = Num 3\<rparr>, \<lparr>patch_op = ''+'', patch_path = [''0'', ''b''], patch_value = Num 2\<rparr>] = Inr r2 \<and> imm_is r1 r2)"
proof -
  have seg: "is_index_segment ''0''" "digits_value 10 ''0'' = 0"
    by (simp_all add: is_index_segment_def is_ascii_digit_def digits_value_def digit_value_def)
  have t: "tryParseInt ''0'' = TInt 0" using tryParseInt_index_segment [OF seg(1)] seg by simp
  have h1: "settable (IList [IMap [(''a'', Num 1)]]) ([''0''] @ [''b''])" using seg by simp
  have h2: "getIn (IList [IMap [(''a'', Num 1)]]) [''0''] = IMap [(''a'', Num 1)]" by (simp add: t list_get_def wrapIndex_def)
  have h3: "wf (IList [IMap [(''a'', Num 1)]])" and h4: "record_free (IList [IMap [(''a'', Num 1)]])" by simp_all
  have h5: "patch_path \<lparr>patch_op = ''+'', patch_path = [''0'', ''b''], patch_value = Num 2\<rparr> = [''0''] @ ''b'' # []" and h6: "patch_path \<lparr>patch_op = ''+'', patch_path = [''0'', ''c'', ''0''], patch_value = Num 3\<rparr> = [''0''] @ ''c'' # [''0'']"
    and h7: "''b'' \<noteq> ''c''" and h8: "patch_op \<lparr>patch_op = ''+'', patch_path = [''0'', ''b''], patch_value = Num 2\<rparr> \<in> {''+'', ''!='', ''-''}"
    and h9: "patch_op \<lparr>patch_op = ''+'', patch_path = [''0'', ''c'', ''0''], patch_value = Num 3\<rparr> \<in> {''+'', ''!='', ''-''}"
    and h10: "wf (patch_value \<lparr>patch_op = ''+'', patch_path = [''0'', ''b''], patch_value = Num 2\<rparr>)" and h11: "record_free (patch_value \<lparr>patch_op = ''+'', patch_path = [''0'', ''b''], patch_value = Num 2\<rparr>)"
    and h12: "wf (patch_value \<lparr>patch_op = ''+'', patch_path = [''0'', ''c'', ''0''], patch_value = Num 3\<rparr>)" and h13: "record_free (patch_value \<lparr>patch_op = ''+'', patch_path = [''0'', ''c'', ''0''], patch_value = Num 3\<rparr>)"
    by simp_all
  show ?thesis
    using h1 h2 h3 h4 h5 h6 h7 h8 h9 h10 h11 h12 h13
          independent_patches_commute [OF h1 h2 h3 h4 h5 h6 h7 h8 h9 h10 h11 h12 h13]
    by blast
qed

end
