(* ===== verification/Spec2Isabelle.thy ===== *)
theory Spec2Isabelle
  imports Batch Path_Access Records Batch_Steps Test_Suite Batch_Commute
begin

text \<open>
  \<^bold>\<open>A verified model of immutable-js-patch.\<close>

  The repository's code is one file, \<^verbatim>\<open>src/src/patch.js\<close>.  It applies an ordered
  batch of path-addressed edits (add \<open>+\<close>, replace \<open>!=\<close>, remove \<open>-\<close>) to a tree of
  Immutable.js values and returns the new tree.  Its parts, leaves first:
  \<^item> \<^verbatim>\<open>tryParseInt\<close> (lines 5--8) reads a path segment as a list index with the
    JavaScript \<^verbatim>\<open>parseInt\<close>;
  \<^item> \<^verbatim>\<open>primitivePatch\<close> (10--16) applies an operation to a leaf;
  \<^item> \<^verbatim>\<open>mapPatch\<close> (18--41) applies it to one key of a keyed value (an
    \<^verbatim>\<open>Immutable.Map\<close> or a record), recursing into the child and creating a missing
    intermediate container (a list if the next segment matches \<^verbatim>\<open>/^\d+$/\<close>, a map
    otherwise);
  \<^item> \<^verbatim>\<open>sequencePatch\<close> (43--90) applies it to one index of an \<^verbatim>\<open>Immutable.List\<close>,
    with an insertion loop that shifts right and a removal loop that shifts left;
  \<^item> \<^verbatim>\<open>isRecord\<close> and \<^verbatim>\<open>anyPatch\<close> (92--118) classify a node and dispatch;
  \<^item> \<^verbatim>\<open>eachPatchInternal\<close> (120--126) folds \<^verbatim>\<open>anyPatch\<close> over the batch, and the
    exported \<^verbatim>\<open>eachPatch\<close> (128--138) runs the fold inside
    \<^verbatim>\<open>value.withMutations\<close>, with a fast path for a single whole-value replace.
  The tests under \<^verbatim>\<open>src/tests\<close> call \<^verbatim>\<open>eachPatch\<close> on values built with
  \<^verbatim>\<open>Immutable.fromJS\<close> and compare the result with \<^verbatim>\<open>Immutable.is\<close>; each is a
  definition of the model, decided by evaluation.

  \<^bold>\<open>Theories.\<close>
  \<^item> \<open>Prelude\<close>: rule collections (\<open>patch_simps\<close>, \<open>immutable_simps\<close>), the bind
    \<open>sum_bind\<close> of the error sum, and shared lemmas on sums, lists and \<open>AList\<close>.
  \<^item> \<open>Immutable_Values\<close>: the value type \<open>jsval\<close> (\<open>Undefined\<close>, \<open>Null\<close>,
    primitives, \<open>IList\<close>, \<open>IMap\<close>, \<open>IRecord\<close>, and the plain JavaScript
    arrays and objects \<open>JArr\<close>, \<open>JObj\<close> a patch carries), the error type, the classifier
    \<open>classify\<close>, and the Immutable.js collaborator the code calls, modelled from its v3
    semantics: \<open>wrapIndex\<close>, \<open>list_get\<close>, \<open>list_set\<close> (grows with holes past the end,
    prepends when still negative after wrapping), \<open>list_push\<close>, \<open>list_setSize\<close>,
    \<open>map_get\<close>, \<open>map_set\<close>, \<open>map_remove\<close> (\<open>AList.update\<close>/\<open>AList.delete\<close>, so
    insertion order is kept), the record methods \<open>record_has\<close>, \<open>record_get\<close>,
    \<open>record_set\<close> (throws on an undeclared key), \<open>record_remove\<close>, and the keyed
    interface \<open>keyed_get\<close>/\<open>keyed_set\<close>/\<open>keyed_remove\<close> through which
    \<^verbatim>\<open>mapPatch\<close> reaches a map or a record.  The invariant \<open>wf\<close> says every map and
    record has distinct keys; \<open>record_free\<close> says a tree holds no record.
  \<^item> \<open>Path_Tokens\<close>: \<open>parseInt\<close> (white space, sign, \<open>0x\<close> prefix, longest digit
    prefix), \<open>tryParseInt\<close>, the lookahead test \<open>is_index_segment\<close>, the
    printing \<open>decimal\<close> of an index, and the JavaScript number \<open>jsnum\<close> (a finite
    value as a rational, \<open>NaN\<close>, \<open>+Infinity\<close>, \<open>-Infinity\<close>) with the conversion
    \<open>toNumber\<close> of a string (ECMAScript StringToNumber: trimmed white space, the
    empty string as \<open>0\<close>, \<open>0x\<close>/\<open>0o\<close>/\<open>0b\<close> literals, a signed \<^verbatim>\<open>Infinity\<close> or
    decimal literal with fraction and exponent).
  \<^item> \<open>Sequence_Shift\<close>: \<^verbatim>\<open>List.get\<close>/\<^verbatim>\<open>List.set\<close> on a number index
    (\<open>list_get_jsnum\<close>, \<open>list_set_jsnum\<close>: the slot \<open>floor x\<close>, \<open>NaN\<close> ignored);
    the two loops as \<open>shiftRight\<close>/\<open>insertAt\<close> and
    \<open>shiftLeft\<close>/\<open>shiftLeft_num\<close>/\<open>removeAt\<close>, functions on the loop counter with a
    measure, where \<open>shiftLeft_num\<close> is the removal loop continued with the number
    counter a string token becomes after \<^verbatim>\<open>++i\<close>; the same loops as written,
    \<open>insert_loop\<close>/\<open>remove_loop\<close> over \<open>while_option\<close>, whose removal counter
    \<open>loop_counter\<close> is the token, a string or a number, compared by \<open>js_less\<close>
    (\<open>ToNumber\<close>) and incremented by \<open>js_inc\<close>; and their equivalence with the
    reference operations \<open>insert_nth\<close>/\<open>remove_nth\<close>.
  \<^item> \<open>Patch\<close>: \<open>primitivePatch\<close>, \<open>baseValue\<close> and the mutually recursive
    \<open>anyPatch\<close>/\<open>mapPatch\<close>/\<open>sequencePatch\<close> (recursion on the path), the keyed
    contract \<open>keyed_contract\<close>, and their properties.
  \<^item> \<open>Js_Conversion\<close>: \<^verbatim>\<open>Immutable.fromJS\<close> and \<^verbatim>\<open>toJS\<close> as \<open>fromJS\<close>
    and \<open>toJS\<close> (arrays to lists, plain objects to maps, Immutable values kept), and
    their round trips.
  \<^item> \<open>Batch\<close>: the \<open>patch\<close> record, \<open>eachPatchInternal\<close>, \<open>withMutations\<close> and
    \<open>eachPatch\<close>, and the properties of whole batches.
  \<^item> \<open>Batch_Steps\<close>: the loop of \<^verbatim>\<open>eachPatchInternal\<close> as the inductive
    small-step relation \<open>batch_step\<close> on (value, remaining patches).
  \<^item> \<open>Records\<close>: what records do to patches and batches.
  \<^item> \<open>Path_Access\<close>: the abstract view of the tree as a path-addressed store: the
    reader \<open>getIn\<close> (descending as \<^verbatim>\<open>anyPatch\<close> does, through lists, maps and
    records) and \<open>settable\<close> (a path ending at an existing slot); patching below a
    settable prefix is patching the subtree it reaches and storing it back
    (\<open>patch_below_prefix\<close>).
  \<^item> \<open>Immutable_Equality\<close>: \<^verbatim>\<open>Immutable.is\<close> as \<open>imm_is\<close> (lists elementwise in
    order; maps and records as unordered entry sets, a record equal to the map of its
    fields), an equivalence on well-formed values.
  \<^item> \<open>Batch_Commute\<close>: the per-key view of \<^verbatim>\<open>mapPatch\<close> (\<open>key_effect\<close>, the new child
    or the removal computed from the child at the key, and \<open>map_update_at\<close>, which stores
    it with \<^verbatim>\<open>Map.set\<close> or \<^verbatim>\<open>Map.remove\<close>), \<open>setIn\<close> (the tree with the
    subtree at a path replaced, which is how a patch below a settable prefix stores its
    result), and the commutation of independent patches in a batch.
  \<^item> \<open>Test_Suite\<close>: one boolean definition per \<^verbatim>\<open>it(...)\<close> block of
    \<^verbatim>\<open>src/tests\<close>, the input built as the test builds it and its assertion read
    through \<open>imm_is\<close>, \<open>toJS\<close> or equality; each is decided by evaluation.

  \<^bold>\<open>Correspondence.\<close>  A JavaScript value is a \<open>jsval\<close>; a thrown \<^verbatim>\<open>Error\<close> or
  \<^verbatim>\<open>TypeError\<close> is \<open>Inl\<close> of the type \<open>error\<close>; a returned value is \<open>Inr\<close>.
  Operations are the strings the code compares.  A method call on the keyed receiver of
  \<^verbatim>\<open>mapPatch\<close> is a function of \<open>jsval\<close> that dispatches on the receiver, as
  JavaScript does.  The persistent sharing of Immutable.js and the in-place mutation of
  the \<^verbatim>\<open>withMutations\<close> copy are not observable in the results: every function is
  pure, and the mutable root is threaded exactly as the fold threads its value (see
  \<open>Batch\<close>).  No fuel is used: the recursion is on the path, the loop functions
  have measures (\<open>i - firstPath\<close>, \<open>size - 1 - i\<close> and its ceiling for a fractional
  counter), and the literal loops are \<open>while_option\<close>, whose result \<open>None\<close> is a loop
  that never ends.  C31 proves that the insertion loop always returns and that the
  removal loop returns exactly when the segment does not convert to \<open>-Infinity\<close>
  (\<^verbatim>\<open>"-Infinity"\<close>, \<^verbatim>\<open>" -Infinity "\<close>): there \<^verbatim>\<open>i < size - 1\<close> stays true and
  \<^verbatim>\<open>++i\<close> keeps \<open>-Infinity\<close>, so \<^verbatim>\<open>sequencePatch\<close> hangs.  For that one input
  \<open>removeAt\<close>, and so \<open>anyPatch\<close>, takes the value of the list without a shift.  A
  theorem that quantifies over every path also covers that input, and there speaks of
  this value rather than of one the code returns; the theorems about removal at a
  string segment (C10, C21) exclude \<open>-Infinity\<close> in their hypotheses.

  \<^bold>\<open>What is proved.\<close>  Per component: list insertion and deletion by the loops
  (C1, C2), append, growth past the end and the removal anomalies on lists
  (C7, C9, C10, C20, C21, C23), that a segment \<^verbatim>\<open>parseInt\<close> rejects addresses nothing
  (C22); the loops as written, their termination and divergence (C31); the keyed
  contract as a refinement through \<open>map_of\<close>, auto-vivification, the map anomalies
  and the shape of a map patch (C11--C14, C33); errors and their absence (C4, C15,
  C16); the parse/print round trip of indices through \<^verbatim>\<open>tryParseInt\<close> (C19); for
  whole batches the key round trip (C3), the behaviour of the root (C5, C6, C18), that
  patches at different keys of a map, at the root or below a settable path, commute up
  to \<^verbatim>\<open>Immutable.is\<close> (C17); for records, the unknown-key error (C27), removal of an
  undeclared key (C28), the record type kept by a batch (C29) and that this error is
  the only one known operations can raise (C30); for the store view, get after
  replace (C24), the frame at a fork of any operation at a map or record and of a
  replace at a list (C25), the shift of the siblings when adding or removing at a list
  fork (C8), get after remove (C26) and get after add along created containers (C32).
  Plain lemmas, not listed as properties, give the preservation of distinct keys
  (\<open>eachPatch_preserves_wf\<close>), the redundancy of the fast path
  (\<open>eachPatch_fast_path_redundant\<close>), the refinement of the fold by the small-step
  relation (\<open>eachPatchInternal_refines_steps\<close>), the \<open>fromJS\<close>/\<open>toJS\<close> round trip,
  and the outcome of every test of the repository (\<open>map_tests_pass\<close>,
  \<open>sequence_tests_pass\<close>, \<open>root_tests_fail\<close>): 37 pass, and the 6 that replace the
  whole root or patch a primitive root fail.

  \<^bold>\<open>Findings the model shows.\<close>  The whole-value replace returns the original root,
  since \<^verbatim>\<open>withMutations\<close> discards its callback's result (C5); a primitive root
  throws (C6); removal at an index that addresses nothing drops the last element
  (C10); removal at a segment \<^verbatim>\<open>parseInt\<close> rejects but \<open>ToNumber\<close> reads as a
  number removes another element (\<^verbatim>\<open>""\<close> removes index 1, C21), and at
  \<^verbatim>\<open>"-Infinity"\<close> it never returns (C31); patches through or at such a segment are
  silently ignored (C22); negative indices wrap inside the shift loops, so at \<open>-k\<close>
  remove and add edit the wrapped slot and then rotate the list by one (C20), and
  removal from an empty list grows it (C23); adding past the end grows the list with
  holes (C9); adding at a key that holds a container is a no-op (C12); removing below
  a missing key creates it as \<open>null\<close> (C13); an unknown operation is silently
  \<open>undefined\<close> on a primitive (C16); on a record, add or replace at an undeclared key
  throws, an error kind the specification does not have (C27, C30), and removing it is
  ignored (C28); six tests of the repository expect the whole root replaced or a
  primitive root patched, which the code cannot give (\<open>root_tests_fail\<close>).

  \<^bold>\<open>Not modelled, and where the model is coarser than Immutable.js 3.\<close>  Values of
  Immutable's other collection types: indexed ones other than \<^verbatim>\<open>List\<close>
  (\<^verbatim>\<open>Stack\<close>, \<^verbatim>\<open>Seq\<close>) and keyed ones other than \<^verbatim>\<open>Map\<close> and records
  (\<^verbatim>\<open>OrderedMap\<close>).  The specification's value model (section 3) has one ordered and
  one keyed container, and the code reaches the other types only through
  \<^verbatim>\<open>isIndexed\<close>/\<^verbatim>\<open>isKeyed\<close>; every operation the code calls on the two it names
  is modelled.  Also not modelled:
  \<^item> list capacity: indices and sizes are unbounded integers, while Immutable 3
    truncates a new size with \<^verbatim>\<open>ToInt32\<close> (\<^verbatim>\<open>| 0\<close> in \<^verbatim>\<open>setListBounds\<close>) and
    addresses its trie with 32-bit shifts (\<^verbatim>\<open>1 << (level + 5)\<close>), so lists or
    indices of about \<open>2^30\<close> slots and more behave differently; numbers are exact
    (integers and rationals), not IEEE doubles;
  \<^item> entry order of maps: \<open>map_remove\<close> keeps the order of the other entries, while a
    small Immutable map (\<^verbatim>\<open>ArrayMapNode\<close>) moves its last entry into the hole, and a
    large one iterates in hash order; only iteration order differs (\<^verbatim>\<open>get\<close>,
    \<^verbatim>\<open>Immutable.is\<close> and every theorem here read entries by key);
  \<^item> the message of the \<^verbatim>\<open>TypeError\<close> of a root without \<^verbatim>\<open>withMutations\<close>: the
    model has one text, \<^verbatim>\<open>value.withMutations is not a function\<close>, while for a
    \<open>null\<close> or \<open>undefined\<close> root the engine reports that it cannot read the
    property \<^verbatim>\<open>withMutations\<close>; the kind, a \<^verbatim>\<open>TypeError\<close> thrown before any patch,
    is the same;
  \<^item> \<^verbatim>\<open>Immutable.fromJS\<close> on JavaScript values other than arrays, plain objects and
    primitives (class instances, \<^verbatim>\<open>Date\<close>), and reference identity: plain arrays
    and objects are compared by value, and \<^verbatim>\<open>v === defaultVal\<close> in
    \<^verbatim>\<open>Record.set\<close> is read as equality of values, which changes no result read
    through \<^verbatim>\<open>get\<close>;
  \<^item> the white space of \<^verbatim>\<open>parseInt\<close> and \<open>ToNumber\<close> beyond ASCII;
  \<^item> \<^verbatim>\<open>set\<close> at \<open>+Infinity\<close>, which recurses until the stack overflows in
    Immutable 3; the removal loop's test keeps it from the loop, and the model leaves
    the list unchanged there.

  \<^bold>\<open>Plan for later work.\<close>  Indices below \<open>-size\<close> on a non-empty list, where
  \<^verbatim>\<open>set\<close> prepends holes in the middle of the loop (C23 covers the empty list); the
  commutation of independent patches at different indices of a list, where add and
  remove shift the siblings and the patches do not commute.
\<close>

end
